(* ===== verification/Prelude.thy ===== *)
theory Prelude
  imports Complex_Main
begin

text \<open>
  Shared material of the development: the exceptions the Python code raises, results as
  sums, computations that keep the state they reached when an exception is raised, and a
  few facts about lists and integer powers of ten that the components share.
\<close>

section \<open>Exceptions and results\<close>

text \<open>
  One constructor per exception class the modelled code raises. The string is the message
  of the \<open>raise\<close> statement, or the field it names, so that two different guards of the
  source stay distinguishable in the model.
\<close>

datatype exn =
    ValueError string
  | TypeError string
  | PaperEngineError string
  | PaperTapeError string
  | OfflineInputError string
  | UnsafeTradingModeError
  | RunAlreadyExistsError string
  | OSError string
  | ZeroDivisionError
  | StrategyError string
  | OverflowError string
  | DuckDBError string
  | KeyError string
  | LookupError string
  | HarnessError string string
  | OfflineReplayError "string list option" string

type_synonym 'a result = "exn + 'a"

definition res_bind :: "'a result \<Rightarrow> ('a \<Rightarrow> 'b result) \<Rightarrow> 'b result" where
  "res_bind r f = (case r of Inl e \<Rightarrow> Inl e | Inr x \<Rightarrow> f x)"

definition guard :: "bool \<Rightarrow> exn \<Rightarrow> unit result" where
  "guard ok e = (if ok then Inr () else Inl e)"

text \<open>\<open>checks\<close> runs a list of guards in order and stops at the first that fails.\<close>

fun checks :: "(bool \<times> exn) list \<Rightarrow> unit result" where
  "checks [] = Inr ()"
| "checks ((ok, e) # cs) = (if ok then checks cs else Inl e)"

lemma res_bind_simps [simp]:
  "res_bind (Inl e) f = Inl e"
  "res_bind (Inr x) f = f x"
  by (simp_all add: res_bind_def)

lemma res_bind_Inr_iff: "res_bind r f = Inr y \<longleftrightarrow> (\<exists>x. r = Inr x \<and> f x = Inr y)"
  by (cases r) simp_all

lemma guard_Inr_iff [simp]: "guard ok e = Inr u \<longleftrightarrow> ok"
  by (simp add: guard_def)

declare checks.simps(2) [simp del]

lemma checks_Cons_Inr [simp]: "checks ((ok, e) # cs) = Inr u \<longleftrightarrow> ok \<and> checks cs = Inr u"
  by (simp add: checks.simps(2))

lemma checks_Inr_iff: "checks cs = Inr u \<longleftrightarrow> (\<forall>c \<in> set cs. fst c)"
  by (induction cs rule: checks.induct) auto

lemma checks_append:
  "checks (as @ bs) = res_bind (checks as) (\<lambda>_. checks bs)"
  by (induction as rule: checks.induct) (simp_all add: checks.simps(2))

text \<open>Results in order, the first error first.\<close>

fun traverse :: "('a \<Rightarrow> 'b result) \<Rightarrow> 'a list \<Rightarrow> 'b list result" where
  "traverse f [] = Inr []"
| "traverse f (x # xs) = res_bind (f x) (\<lambda>y. res_bind (traverse f xs) (\<lambda>ys. Inr (y # ys)))"

lemma traverse_Inr_iff: "traverse f xs = Inr ys \<longleftrightarrow> list_all2 (\<lambda>x y. f x = Inr y) xs ys"
proof (induction xs arbitrary: ys)
  case (Cons x xs)
  then show ?case by (cases ys) (auto simp: res_bind_Inr_iff)
qed auto

section \<open>Decoded documents\<close>

text \<open>What \<open>json.loads\<close> returns. A float carries no value: nothing modelled accepts one.\<close>

datatype payload =
    PNull
  | PBool bool
  | PInt int
  | PFloat
  | PText string
  | PList "payload list"
  | PObject "(string \<times> payload) list"

text \<open>A repeated key of a JSON object has its last value.\<close>

definition field_of :: "(string \<times> payload) list \<Rightarrow> string \<Rightarrow> payload option" where
  "field_of kvs k = map_of (rev kvs) k"

section \<open>Stateful computations with exceptions\<close>

text \<open>
  A Python method that mutates its object and raises leaves the object as it was when the
  exception was raised. The outcome of a computation therefore carries the state in both
  cases.
\<close>

datatype ('a, 's) outcome = Ok 'a 's | Raise exn 's

primrec out_state :: "('a, 's) outcome \<Rightarrow> 's" where
  "out_state (Ok x s) = s"
| "out_state (Raise e s) = s"

primrec raised :: "('a, 's) outcome \<Rightarrow> exn option" where
  "raised (Ok x s) = None"
| "raised (Raise e s) = Some e"

primrec andthen :: "('a, 's) outcome \<Rightarrow> ('a \<Rightarrow> 's \<Rightarrow> ('b, 's) outcome) \<Rightarrow> ('b, 's) outcome" where
  "andthen (Ok x s) f = f x s"
| "andthen (Raise e s) f = Raise e s"

definition lift_result :: "'a result \<Rightarrow> 's \<Rightarrow> ('a, 's) outcome" where
  "lift_result r s = (case r of Inl e \<Rightarrow> Raise e s | Inr x \<Rightarrow> Ok x s)"

text \<open>
  \<open>holds Q E m\<close>: the normal outcome satisfies \<open>Q\<close>, the exceptional one \<open>E\<close>. The handlers'
  specifications are stated with it; the rules below compose them along \<open>andthen\<close>.
\<close>

definition holds :: "('a \<Rightarrow> 's \<Rightarrow> bool) \<Rightarrow> ('s \<Rightarrow> bool) \<Rightarrow> ('a, 's) outcome \<Rightarrow> bool" where
  "holds Q E m = (case m of Ok x s \<Rightarrow> Q x s | Raise e s \<Rightarrow> E s)"

lemma holds_simps [simp]:
  "holds Q E (Ok x s) = Q x s"
  "holds Q E (Raise e s) = E s"
  by (simp_all add: holds_def)

lemma holds_andthen:
  "holds Q' E m \<Longrightarrow> (\<And>x s. Q' x s \<Longrightarrow> holds Q E (f x s)) \<Longrightarrow> holds Q E (andthen m f)"
  by (cases m) simp_all

lemma holds_mono:
  "holds Q E m \<Longrightarrow> (\<And>x s. Q x s \<Longrightarrow> Q' x s) \<Longrightarrow> (\<And>s. E s \<Longrightarrow> E' s) \<Longrightarrow> holds Q' E' m"
  by (cases m) simp_all

lemma holds_conj:
  "holds Q E m \<Longrightarrow> holds Q' E' m \<Longrightarrow> holds (\<lambda>x s. Q x s \<and> Q' x s) (\<lambda>s. E s \<and> E' s) m"
  by (cases m) simp_all

lemma holds_lift_result:
  "holds Q E (lift_result r s) = (case r of Inl e \<Rightarrow> E s | Inr x \<Rightarrow> Q x s)"
  by (simp add: lift_result_def split: sum.splits)

lemma holds_out_state: "holds (\<lambda>_. P) P m = P (out_state m)"
  by (cases m) simp_all

lemma out_state_andthen:
  "P (out_state m) \<Longrightarrow> (\<And>x s. P s \<Longrightarrow> P (out_state (f x s))) \<Longrightarrow> P (out_state (andthen m f))"
  by (cases m) simp_all

lemma andthen_Ok_iff:
  "andthen m f = Ok y t \<longleftrightarrow> (\<exists>x s. m = Ok x s \<and> f x s = Ok y t)"
  by (cases m) simp_all

text \<open>Evaluation sees the sequencing operators as case distinctions and so leaves a continuation alone.\<close>

lemma sequencing_code [code_unfold]:
  "andthen m f = (case m of Ok x s \<Rightarrow> f x s | Raise e s \<Rightarrow> Raise e s)"
  "res_bind r g = (case r of Inl e \<Rightarrow> Inl e | Inr x \<Rightarrow> g x)"
  by (cases m; simp) (simp add: res_bind_def)

section \<open>Lists\<close>

text \<open>A \<open>deque(maxlen=n)\<close>: appending keeps the last \<open>n\<close> elements.\<close>

definition push_last :: "nat \<Rightarrow> 'a list \<Rightarrow> 'a \<Rightarrow> 'a list" where
  "push_last n xs x = (let ys = xs @ [x] in drop (length ys - n) ys)"

lemma length_push_last [simp]: "length (push_last n xs x) = min n (Suc (length xs))"
  by (auto simp: push_last_def Let_def)

lemma push_last_suffix: "\<exists>ys. xs @ [x] = ys @ push_last n xs x"
proof -
  have "xs @ [x] = take (length (xs @ [x]) - n) (xs @ [x]) @ push_last n xs x"
    unfolding push_last_def Let_def by (rule append_take_drop_id [symmetric])
  then show ?thesis by blast
qed

section \<open>Text\<close>

text \<open>
  Python's \<open>str.strip()\<close> and \<open>str.isprintable()\<close> on the characters \<open>0\<close> to \<open>255\<close>: \<open>char\<close>
  is read as a Latin-1 code point.
\<close>

definition py_space :: "char \<Rightarrow> bool" where
  "py_space c = (let n = (of_char c :: nat) in
     (9 \<le> n \<and> n \<le> 13) \<or> (28 \<le> n \<and> n \<le> 32) \<or> n = 133 \<or> n = 160)"

definition py_printable :: "char \<Rightarrow> bool" where
  "py_printable c = (let n = (of_char c :: nat) in
     (32 \<le> n \<and> n \<le> 126) \<or> (161 \<le> n \<and> n \<noteq> 173))"

definition strip :: "string \<Rightarrow> string" where
  "strip s = rev (dropWhile py_space (rev (dropWhile py_space s)))"

definition is_digit :: "char \<Rightarrow> bool" where
  "is_digit c = (let n = (of_char c :: nat) in 48 \<le> n \<and> n \<le> 57)"

definition digit_value :: "char \<Rightarrow> nat" where
  "digit_value c = (of_char c :: nat) - 48"

fun nat_text :: "nat \<Rightarrow> string" where
  "nat_text n = (if n < 10 then [char_of (48 + n)] else nat_text (n div 10) @ [char_of (48 + n mod 10)])"

declare nat_text.simps [simp del]

definition int_text :: "int \<Rightarrow> string" where
  "int_text i = (if i < 0 then ''-'' @ nat_text (nat (- i)) else nat_text (nat i))"

definition zero_pad :: "nat \<Rightarrow> string \<Rightarrow> string" where
  "zero_pad w s = replicate (w - length s) (CHR ''0'') @ s"

definition digits_value :: "string \<Rightarrow> nat" where
  "digits_value s = foldl (\<lambda>acc c. 10 * acc + digit_value c) 0 s"

lemma digit_value_char_of [simp]: "n < 10 \<Longrightarrow> digit_value (char_of (48 + n)) = n"
  by (simp add: digit_value_def)

lemma digits_value_snoc [simp]: "digits_value (s @ [c]) = 10 * digits_value s + digit_value c"
  by (simp add: digits_value_def)

lemma digits_value_nat_text [simp]: "digits_value (nat_text n) = n"
proof (induction n rule: nat_text.induct)
  case (1 n)
  show ?case
  proof (cases "n < 10")
    case True
    then show ?thesis by (simp add: nat_text.simps [of n] digits_value_def)
  next
    case False
    then show ?thesis using 1 by (simp add: nat_text.simps [of n])
  qed
qed

lemma nat_text_inject: "nat_text m = nat_text n \<longleftrightarrow> m = n"
  by (metis digits_value_nat_text)

lemma digits_value_replicate_zero: "digits_value (replicate k (CHR ''0'') @ s) = digits_value s"
  by (induction k) (simp_all add: digits_value_def digit_value_def)

lemma digits_value_zero_pad [simp]: "digits_value (zero_pad w (nat_text n)) = n"
  by (simp add: zero_pad_def digits_value_replicate_zero)

lemma zero_pad_inject: "zero_pad w (nat_text m) = zero_pad w (nat_text n) \<longleftrightarrow> m = n"
  by (metis digits_value_zero_pad)

text \<open>
  The same text from and to integers: evaluation counts in binary there, in successors on
  \<open>nat\<close>.
\<close>

fun digits_text :: "int \<Rightarrow> string" where
  "digits_text i = (if i < 10 then [char_of (48 + max 0 i)]
     else digits_text (i div 10) @ [char_of (48 + i mod 10)])"

declare digits_text.simps [simp del]

definition digits_int :: "string \<Rightarrow> int" where
  "digits_int s = foldl (\<lambda>acc c. 10 * acc + max 0 (of_char c - 48)) 0 s"

lemma of_char_int: "(of_char c :: int) = int (of_char c)"
  by (simp add: of_nat_of_char)

lemma char_of_int: "0 \<le> i \<Longrightarrow> (char_of i :: char) = char_of (nat i)"
  using char_of_nat [of "nat i", where ?'a = int] by simp

lemma digit_value_int: "int (digit_value c) = max 0 (of_char c - 48)"
  by (simp add: digit_value_def of_char_int of_nat_diff_if)

lemma char_tests_code [code]:
  "is_digit c = (let n = (of_char c :: int) in 48 \<le> n \<and> n \<le> 57)"
  "py_space c = (let n = (of_char c :: int) in
     (9 \<le> n \<and> n \<le> 13) \<or> (28 \<le> n \<and> n \<le> 32) \<or> n = 133 \<or> n = 160)"
  "py_printable c = (let n = (of_char c :: int) in
     (32 \<le> n \<and> n \<le> 126) \<or> (161 \<le> n \<and> n \<noteq> 173))"
  by (simp_all add: is_digit_def py_space_def py_printable_def of_char_int Let_def)

lemma digit_char_int: "0 \<le> i \<Longrightarrow> char_of (48 + i) = (char_of (48 + nat i) :: char)"
  using char_of_int [of "48 + i"] by (simp add: nat_add_distrib)

lemma nat_text_nat [code_unfold]: "nat_text (nat i) = digits_text i"
proof (induction i rule: digits_text.induct)
  case (1 i)
  show ?case
  proof (cases "i < 10")
    case True
    then have "nat i < 10" "nat (max 0 i) = nat i" by linarith+
    with True show ?thesis
      using digit_char_int [of "max 0 i"]
      unfolding nat_text.simps [of "nat i"] digits_text.simps [of i] by simp
  next
    case False
    then have "nat i div 10 = nat (i div 10)" "nat i mod 10 = nat (i mod 10)"
      by (simp_all add: nat_div_distrib' nat_mod_distrib)
    moreover have "\<not> nat i < 10" using False by linarith
    ultimately show ?thesis
      using False 1 digit_char_int [of "i mod 10"]
      unfolding nat_text.simps [of "nat i"] digits_text.simps [of i] by simp
  qed
qed

lemma digits_value_int [code_unfold]:
  "int (digits_value s) = digits_int s" "(of_nat (digits_value s) :: rat) = of_int (digits_int s)"
proof -
  have "int (foldl (\<lambda>acc c. 10 * acc + digit_value c) a s)
      = foldl (\<lambda>acc c. 10 * acc + max 0 (of_char c - 48)) (int a) s" for a
    by (induction s arbitrary: a) (simp_all add: digit_value_int)
  from this [of 0] show int: "int (digits_value s) = digits_int s"
    by (simp add: digits_value_def digits_int_def)
  show "(of_nat (digits_value s) :: rat) = of_int (digits_int s)" unfolding int [symmetric] by simp
qed

end
