(* ===== verification/Decimals.thy ===== *)
theory Decimals
  imports Prelude
begin

text \<open>
  Python's \<open>decimal.Decimal\<close> as the program uses it: finite values under the default context,
  28 significant digits, \<open>ROUND_HALF_EVEN\<close>. A value is a rational (\<open>dec\<close>); every arithmetic
  operation is the exact rational operation followed by the context rounding \<open>dec_round\<close>.
  Comparisons are exact, as Python's are. The program never changes the context.

  Not modelled: the exponent limits of the context (\<open>Emax = 999999\<close>), so no operation
  overflows, and the trailing zeros of a \<open>Decimal\<close>, which no comparison sees. NaN and
  infinities appear only where text is parsed; every later value is finite.

  The laws the clients of the arithmetic use are the locale \<open>rounding\<close>; \<open>ctx\<close> is its
  interpretation on \<open>dec_round\<close>.
\<close>

section \<open>The interface: a rounding operation\<close>

locale rounding =
  fixes rnd :: "rat \<Rightarrow> rat"
  assumes rnd_mono: "x \<le> y \<Longrightarrow> rnd x \<le> rnd y"
    and rnd_idem: "rnd (rnd x) = rnd x"
    and rnd_minus: "rnd (- x) = - rnd x"
    and rnd_eq_0: "rnd x = 0 \<longleftrightarrow> x = 0"
begin

lemma rnd_0: "rnd 0 = 0"
  by (simp add: rnd_eq_0)

lemma rnd_le_rep: "rnd b = b \<Longrightarrow> x \<le> b \<Longrightarrow> rnd x \<le> b"
  using rnd_mono [of x b] by simp

lemma rnd_ge_rep: "rnd b = b \<Longrightarrow> b \<le> x \<Longrightarrow> b \<le> rnd x"
  using rnd_mono [of b x] by simp

lemma rnd_nonneg_iff: "0 \<le> rnd x \<longleftrightarrow> 0 \<le> x"
proof
  assume "0 \<le> rnd x"
  show "0 \<le> x"
  proof (rule ccontr)
    assume "\<not> 0 \<le> x"
    then have "rnd x \<le> 0" "rnd x \<noteq> 0" using rnd_le_rep [OF rnd_0, of x] by (auto simp: rnd_eq_0)
    with \<open>0 \<le> rnd x\<close> show False by simp
  qed
qed (rule rnd_ge_rep [OF rnd_0])

lemma rnd_pos_iff: "0 < rnd x \<longleftrightarrow> 0 < x"
  using rnd_nonneg_iff [of x] rnd_eq_0 [of x] by linarith

lemma rnd_neg_iff: "rnd x < 0 \<longleftrightarrow> x < 0"
  using rnd_nonneg_iff [of x] by linarith

lemma rnd_nonpos_iff: "rnd x \<le> 0 \<longleftrightarrow> x \<le> 0"
  using rnd_pos_iff [of x] by linarith

lemma rnd_abs: "rnd \<bar>x\<bar> = \<bar>rnd x\<bar>"
  by (cases "0 \<le> x") (simp_all add: rnd_nonneg_iff abs_if rnd_minus rnd_neg_iff)

lemma rnd_abs_le_rep: "rnd b = b \<Longrightarrow> \<bar>x\<bar> \<le> b \<Longrightarrow> \<bar>rnd x\<bar> \<le> b"
  using rnd_le_rep [of b "\<bar>x\<bar>"] by (simp add: rnd_abs)

end

section \<open>Floor of rational numerals\<close>

lemma floor_rat_numeral [simp]:
  "\<lfloor>numeral a / numeral b :: rat\<rfloor> = numeral a div numeral b"
  "\<lfloor>- (numeral a / numeral b) :: rat\<rfloor> = - numeral a div numeral b"
  "\<lfloor>1 / numeral b :: rat\<rfloor> = 1 div numeral b"
  "\<lfloor>- (1 / numeral b) :: rat\<rfloor> = - 1 div numeral b"
  using floor_divide_of_int_eq [of "numeral a" "numeral b", where 'a = rat]
    floor_divide_of_int_eq [of "- numeral a" "numeral b", where 'a = rat]
    floor_divide_of_int_eq [of 1 "numeral b", where 'a = rat]
    floor_divide_of_int_eq [of "- 1" "numeral b", where 'a = rat]
  by simp_all

section \<open>Powers of ten and the decimal exponent\<close>

type_synonym dec = rat

abbreviation pow10 :: "int \<Rightarrow> dec" where
  "pow10 k \<equiv> 10 powi k"

lemma pow10_pos [simp]: "0 < pow10 k"
  by (simp add: zero_less_power_int)

lemma pow10_nonneg [simp]: "0 \<le> pow10 k"
  using pow10_pos [of k] by linarith

lemma pow10_not_neg [simp]: "\<not> pow10 k < 0"
  using pow10_pos [of k] by linarith

lemma pow10_nonzero [simp]: "pow10 k \<noteq> 0"
  using pow10_pos [of k] by linarith

lemma pow10_add: "pow10 (a + b) = pow10 a * pow10 b"
  by (simp add: power_int_add)

lemma pow10_diff: "pow10 (a - b) = pow10 a / pow10 b"
  by (simp add: power_int_diff)

lemma pow10_cancel: "x * pow10 k * pow10 (- k) = x" "x * pow10 (- k) * pow10 k = x"
  by (simp_all add: power_int_minus)

lemma pow10_Suc: "pow10 (a + 1) = 10 * pow10 a"
  by (simp add: power_int_add)

lemma pow10_less_iff [simp]: "pow10 a < pow10 b \<longleftrightarrow> a < b"
proof -
  have "pow10 a < pow10 b" if "a < b" for a b
    using that by (intro power_int_strict_increasing) auto
  then show ?thesis by (metis less_asym' linorder_neqE)
qed

lemma pow10_le_iff [simp]: "pow10 a \<le> pow10 b \<longleftrightarrow> a \<le> b"
  by (simp add: linorder_not_less [symmetric])

lemma pow10_eq_iff [simp]: "pow10 a = pow10 b \<longleftrightarrow> a = b"
  by (metis order.antisym order.refl pow10_le_iff)

lemma pow10_of_nat: "pow10 (int n) = 10 ^ n"
  by simp

lemma pow10_nonneg_int: "0 \<le> k \<Longrightarrow> pow10 k = of_int (10 ^ nat k)"
  by (simp add: power_int_def)

lemma pow10_le_of_int: "0 \<le> k \<Longrightarrow> pow10 k \<le> of_int n \<longleftrightarrow> 10 ^ nat k \<le> n"
  by (simp only: pow10_nonneg_int of_int_le_iff)

lemma of_int_less_pow10: "0 \<le> k \<Longrightarrow> of_int n < pow10 k \<longleftrightarrow> n < 10 ^ nat k"
  by (simp only: pow10_nonneg_int of_int_less_iff)

text \<open>The number of decimal digits of a positive integer.\<close>

fun ndigits :: "nat \<Rightarrow> nat" where
  "ndigits n = (if n = 0 then 0 else Suc (ndigits (n div 10)))"

declare ndigits.simps [simp del]

text \<open>The same count on integers: the one evaluation uses.\<close>

fun int_digits :: "int \<Rightarrow> int" where
  "int_digits n = (if n \<le> 0 then 0 else int_digits (n div 10) + 1)"

declare int_digits.simps [simp del]

lemma int_digits_skip: "10 ^ k \<le> n \<Longrightarrow> int_digits n = int_digits (n div 10 ^ k) + int k"
proof (induction k arbitrary: n)
  case (Suc k)
  have "(0 :: int) < 10 ^ Suc k" by simp
  then have "0 < n" using Suc.prems by linarith
  moreover have "10 ^ Suc k div 10 \<le> n div 10" using Suc.prems by (rule zdiv_mono1) simp
  ultimately have n: "10 ^ k \<le> n div 10" "0 < n" by simp_all
  have "int_digits n = int_digits (n div 10) + 1" using n(2) by (simp add: int_digits.simps [of n])
  also have "\<dots> = int_digits (n div 10 div 10 ^ k) + int k + 1" using Suc.IH [OF n(1)] by simp
  also have "n div 10 div 10 ^ k = n div 10 ^ Suc k" by (simp add: zdiv_zmult2_eq)
  finally show ?case by simp
qed simp

text \<open>Long runs of digits first: few divisions.\<close>

lemma int_digits_code [code]:
  "int_digits n =
     (if 10000000000000000 \<le> n then int_digits (n div 10000000000000000) + 16
      else if 100000000 \<le> n then int_digits (n div 100000000) + 8
      else if 10000 \<le> n then int_digits (n div 10000) + 4
      else if 100 \<le> n then int_digits (n div 100) + 2
      else if 10 \<le> n then 2 else if 0 < n then 1 else 0)"
proof -
  have small: "int_digits n = (if 10 \<le> n then 2 else if 0 < n then 1 else 0)" if "n < 100"
    using that by (auto simp: int_digits.simps [of n] int_digits.simps [of "n div 10"] int_digits.simps [of 0]
        int_digits.simps [of "n div 10 div 10"])
  show ?thesis
    using int_digits_skip [of 16 n] int_digits_skip [of 8 n] int_digits_skip [of 4 n] int_digits_skip [of 2 n]
      small by simp
qed

lemma int_digits_ndigits: "int (ndigits (nat n)) = int_digits n"
proof (induction n rule: int_digits.induct)
  case (1 n)
  have n: "nat n div 10 = nat (n div 10)" by (simp add: nat_div_distrib')
  show ?case
    using 1 unfolding int_digits.simps [of n] ndigits.simps [of "nat n"] n by simp
qed

lemma ndigits_bounds: "0 < n \<Longrightarrow> 10 ^ (ndigits n - 1) \<le> n \<and> n < 10 ^ ndigits n \<and> 0 < ndigits n"
proof (induction n rule: ndigits.induct)
  case (1 n)
  show ?case
  proof (cases "n < 10")
    case True
    then have "n div 10 = 0" by simp
    with True \<open>0 < n\<close> show ?thesis by (simp add: ndigits.simps [of n] ndigits.simps [of 0])
  next
    case False
    then have pos: "0 < n div 10" by simp
    with 1 have IH: "10 ^ (ndigits (n div 10) - 1) \<le> n div 10" "n div 10 < 10 ^ ndigits (n div 10)"
      "0 < ndigits (n div 10)" by auto
    have nd: "ndigits n = Suc (ndigits (n div 10))" using \<open>0 < n\<close> by (simp add: ndigits.simps [of n])
    have split: "(10::nat) ^ ndigits (n div 10) = 10 * 10 ^ (ndigits (n div 10) - 1)"
      using IH(3) by (cases "ndigits (n div 10)") simp_all
    have "n < 10 * 10 ^ ndigits (n div 10)" using IH(2) by linarith
    moreover have "10 ^ ndigits (n div 10) \<le> n" using split IH(1) by linarith
    ultimately show ?thesis using nd by simp
  qed
qed

text \<open>\<open>Decimal.adjusted()\<close>: the exponent of the leading digit of a nonzero value.\<close>

definition adjusted :: "dec \<Rightarrow> int" where
  "adjusted x =
     (let (n, d) = quotient_of \<bar>x\<bar>;
          e = int (ndigits (nat n)) - int (ndigits (nat d))
      in if pow10 e \<le> \<bar>x\<bar> then e else e - 1)"

lemma adjusted_code [code]:
  "adjusted x =
     (let (n, d) = quotient_of \<bar>x\<bar>; e = int_digits n - int_digits d
      in if pow10 e \<le> \<bar>x\<bar> then e else e - 1)"
  by (simp add: adjusted_def int_digits_ndigits)

lemma ndigits_pow10_bounds:
  assumes "0 < n"
  shows "pow10 (int (ndigits (nat n)) - 1) \<le> of_int n" "of_int n < pow10 (int (ndigits (nat n)))"
proof -
  let ?k = "ndigits (nat n)"
  from ndigits_bounds [of "nat n"] assms
  have b: "10 ^ (?k - 1) \<le> nat n" "nat n < 10 ^ ?k" "0 < ?k" by auto
  from b(1) have "(10::rat) ^ (?k - 1) \<le> of_nat (nat n)" by (metis of_nat_le_iff of_nat_numeral of_nat_power)
  with b(3) assms show "pow10 (int ?k - 1) \<le> of_int n"
    by (simp add: power_int_def nat_diff_distrib)
  from b(2) have "of_nat (nat n) < (10::rat) ^ ?k" by (metis of_nat_less_iff of_nat_numeral of_nat_power)
  with assms show "of_int n < pow10 (int ?k)" by simp
qed

lemma adjusted_bounds:
  assumes "x \<noteq> 0"
  shows "pow10 (adjusted x) \<le> \<bar>x\<bar>" "\<bar>x\<bar> < pow10 (adjusted x + 1)"
proof -
  obtain n d where q: "quotient_of \<bar>x\<bar> = (n, d)" by force
  have d: "0 < d" using quotient_of_denom_pos [OF q] .
  have x: "\<bar>x\<bar> = of_int n / of_int d" using quotient_of_div [OF q] .
  with assms d have n: "0 < n"
    by (metis abs_eq_0 abs_ge_zero divide_less_0_iff linorder_not_le of_int_0_less_iff of_int_eq_0_iff
        order_le_less div_0 of_int_less_0_iff)
  define a where "a = int (ndigits (nat n))"
  define b where "b = int (ndigits (nat d))"
  have nb: "pow10 (a - 1) \<le> of_int n" "of_int n < pow10 a"
    using ndigits_pow10_bounds [OF n] by (simp_all add: a_def)
  have db: "pow10 (b - 1) \<le> of_int d" "of_int d < pow10 b"
    using ndigits_pow10_bounds [OF d] by (simp_all add: b_def)
  have dpos: "0 < (of_int d :: rat)" using d by simp
  have "pow10 (a - 1) / pow10 b \<le> \<bar>x\<bar>"
    unfolding x using nb(1) db(2) dpos n by (intro frac_le) auto
  then have lo: "pow10 (a - b - 1) \<le> \<bar>x\<bar>"
    by (metis pow10_diff diff_right_commute)
  have "\<bar>x\<bar> < pow10 a / pow10 (b - 1)"
    unfolding x using nb(2) db(1) dpos n by (intro frac_less) auto
  then have hi: "\<bar>x\<bar> < pow10 (a - b + 1)"
    by (simp add: pow10_diff [symmetric] algebra_simps)
  have adj: "adjusted x = (if pow10 (a - b) \<le> \<bar>x\<bar> then a - b else a - b - 1)"
    by (simp add: adjusted_def q a_def b_def Let_def)
  show "pow10 (adjusted x) \<le> \<bar>x\<bar>" using lo by (simp add: adj)
  show "\<bar>x\<bar> < pow10 (adjusted x + 1)" using hi by (auto simp: adj)
qed

lemma adjusted_eqI:
  assumes "pow10 k \<le> \<bar>x\<bar>" "\<bar>x\<bar> < pow10 (k + 1)"
  shows "adjusted x = k"
proof -
  have "x \<noteq> 0" using assms(1) pow10_pos [of k] by (auto simp del: pow10_pos simp: not_less [symmetric])
  note b = adjusted_bounds [OF this]
  from assms(1) b(2) have "pow10 k < pow10 (adjusted x + 1)" by linarith
  moreover from assms(2) b(1) have "pow10 (adjusted x) < pow10 (k + 1)" by linarith
  ultimately show ?thesis by simp
qed

lemma adjusted_minus [simp]: "adjusted (- x) = adjusted x"
  by (simp add: adjusted_def)

lemma adjusted_pow10 [simp]: "adjusted (pow10 k) = k"
  by (rule adjusted_eqI) simp_all

lemma adjusted_ge: "pow10 k \<le> x \<Longrightarrow> k \<le> adjusted x"
proof -
  assume k: "pow10 k \<le> x"
  then have "0 < x" using pow10_pos [of k] by linarith
  then have "pow10 k < pow10 (adjusted x + 1)" using k adjusted_bounds(2) [of x] by linarith
  then have "k < adjusted x + 1" by (simp only: pow10_less_iff)
  then show ?thesis by simp
qed

lemma adjusted_less: "0 < x \<Longrightarrow> x < pow10 k \<Longrightarrow> adjusted x < k"
proof -
  assume x: "0 < x" "x < pow10 k"
  then have "pow10 (adjusted x) < pow10 k" using adjusted_bounds(1) [of x] by linarith
  then show ?thesis by (simp only: pow10_less_iff)
qed

lemma adjusted_mono: "0 < x \<Longrightarrow> x \<le> y \<Longrightarrow> adjusted x \<le> adjusted y"
proof -
  assume "0 < x" "x \<le> y"
  then have "pow10 (adjusted x) < pow10 (adjusted y + 1)"
    using adjusted_bounds(1) [of x] adjusted_bounds(2) [of y] by linarith
  then have "adjusted x < adjusted y + 1" by (simp only: pow10_less_iff)
  then show "adjusted x \<le> adjusted y" by simp
qed

section \<open>Rounding to an integer\<close>

text \<open>The rounding modes the program passes to \<open>to_integral_value\<close>, and the context's own.\<close>

datatype rounding_mode = ROUND_DOWN | ROUND_FLOOR | ROUND_CEILING | ROUND_HALF_EVEN

definition round_half_even :: "dec \<Rightarrow> int" where
  "round_half_even x =
     (let f = \<lfloor>x\<rfloor>; r = x - of_int f
      in if r < 1/2 then f else if 1/2 < r then f + 1 else if even f then f else f + 1)"

fun to_integral :: "rounding_mode \<Rightarrow> dec \<Rightarrow> int" where
  "to_integral ROUND_DOWN x = (if 0 \<le> x then \<lfloor>x\<rfloor> else \<lceil>x\<rceil>)"
| "to_integral ROUND_FLOOR x = \<lfloor>x\<rfloor>"
| "to_integral ROUND_CEILING x = \<lceil>x\<rceil>"
| "to_integral ROUND_HALF_EVEN x = round_half_even x"

definition to_integral_value :: "rounding_mode \<Rightarrow> dec \<Rightarrow> dec" where
  "to_integral_value m x = of_int (to_integral m x)"

lemma round_half_even_of_int [simp]: "round_half_even (of_int n) = n"
  by (simp add: round_half_even_def)

lemma round_half_even_range: "\<lfloor>x\<rfloor> \<le> round_half_even x" "round_half_even x \<le> \<lfloor>x\<rfloor> + 1"
  by (simp_all add: round_half_even_def Let_def)

lemma round_half_even_mono:
  assumes "x \<le> y"
  shows "round_half_even x \<le> round_half_even y"
proof (cases "\<lfloor>x\<rfloor> = \<lfloor>y\<rfloor>")
  case True
  with assms show ?thesis by (simp add: round_half_even_def Let_def)
next
  case False
  with floor_mono [OF assms] have "\<lfloor>x\<rfloor> + 1 \<le> \<lfloor>y\<rfloor>" by linarith
  with round_half_even_range(2) [of x] round_half_even_range(1) [of y] show ?thesis by linarith
qed

lemma round_half_even_minus: "round_half_even (- x) = - round_half_even x"
proof (cases "x = of_int \<lfloor>x\<rfloor>")
  case True
  then show ?thesis by (metis of_int_minus round_half_even_of_int)
next
  case False
  then have f: "\<lfloor>- x\<rfloor> = - \<lfloor>x\<rfloor> - 1" by linarith
  show ?thesis using False by (auto simp: round_half_even_def Let_def f)
qed

lemma to_integral_of_int [simp]: "to_integral m (of_int n) = n"
  by (cases m) simp_all

lemma to_integral_value_of_int [simp]: "to_integral_value m (of_int n) = of_int n"
  by (simp add: to_integral_value_def)

lemma to_integral_mono: "x \<le> y \<Longrightarrow> to_integral m x \<le> to_integral m y"
proof (cases m)
  case ROUND_DOWN
  moreover assume "x \<le> y"
  moreover have "\<lceil>x\<rceil> \<le> \<lfloor>y\<rfloor>" if "\<not> 0 \<le> x" "0 \<le> y"
    using that by (metis ceiling_mono ceiling_zero floor_mono floor_zero le_cases order_trans)
  ultimately show ?thesis by (auto simp: floor_mono ceiling_mono)
qed (simp_all add: floor_mono ceiling_mono round_half_even_mono)

lemma to_integral_down_nonneg: "0 \<le> x \<Longrightarrow> to_integral ROUND_DOWN x = \<lfloor>x\<rfloor>"
  by simp

section \<open>The context rounding: 28 significant digits\<close>

definition ulp :: "dec \<Rightarrow> dec" where
  "ulp x = pow10 (adjusted x - 27)"

definition dec_round :: "dec \<Rightarrow> dec" where
  "dec_round x = (if x = 0 then 0 else of_int (round_half_even (x / ulp x)) * ulp x)"

lemma ulp_pos [simp]: "0 < ulp x"
  by (simp add: ulp_def)

lemma ulp_nonzero [simp]: "ulp x \<noteq> 0"
  using ulp_pos [of x] by linarith

lemma ulp_minus [simp]: "ulp (- x) = ulp x"
  by (simp add: ulp_def)

lemma dec_round_0 [simp]: "dec_round 0 = 0"
  by (simp add: dec_round_def)

text \<open>
  The same rounding on the integers of a reduced fraction. Evaluation uses it: a rounded value is
  then a coefficient and an exponent (\<open>scaled\<close>), not the expression it came from.
\<close>

definition scaled :: "int \<Rightarrow> int \<Rightarrow> dec" where
  "scaled m k = of_int m * pow10 k"

lemma pow10_nat: "0 \<le> k \<Longrightarrow> pow10 k = of_int (10 ^ nat k)" "k < 0 \<Longrightarrow> pow10 k = 1 / of_int (10 ^ nat (- k))"
  by (simp_all add: power_int_def inverse_eq_divide power_one_over)

lemma scaled_code [code abstract]:
  "quotient_of (scaled m k) =
     (if 0 \<le> k then (m * 10 ^ nat k, 1) else Rat.normalize (m, 10 ^ nat (- k)))"
proof (cases "0 \<le> k")
  case True
  then have "scaled m k = of_int (m * 10 ^ nat k)" by (simp add: scaled_def pow10_nat(1))
  then show ?thesis using True by (simp only: quotient_of_rat_of_int if_True)
next
  case False
  then have "scaled m k = of_int m / of_int (10 ^ nat (- k))" by (simp add: scaled_def pow10_nat(2))
  also have "\<dots> = Fract m (10 ^ nat (- k))" by (simp only: Fract_of_int_quotient)
  finally show ?thesis using False by (simp add: quotient_of_Fract)
qed

text \<open>Trailing zeros of the coefficient go into the exponent: the numbers stay small.\<close>

fun strip_zeros :: "(int \<times> int) list \<Rightarrow> int \<Rightarrow> int \<Rightarrow> dec" where
  "strip_zeros [] m k = scaled m k"
| "strip_zeros ((p, j) # pjs) m k =
     (if m mod p = 0 then strip_zeros pjs (m div p) (k + j) else strip_zeros pjs m k)"

definition zero_runs :: "(int \<times> int) list" where
  "zero_runs = [(10000000000000000, 16), (100000000, 8), (10000, 4), (100, 2), (10, 1)]"

lemma strip_zeros_scaled:
  "\<forall>(p, j) \<in> set pjs. of_int p = pow10 j \<Longrightarrow> strip_zeros pjs m k = scaled m k"
proof (induction pjs m k rule: strip_zeros.induct)
  case (2 p j pjs m k)
  have "m mod p = 0 \<Longrightarrow> of_int m = (of_int (m div p) * pow10 j :: rat)"
  proof -
    assume "m mod p = 0"
    then have "m = m div p * p" by auto
    then have "(of_int m :: rat) = of_int (m div p) * of_int p" by (metis of_int_mult)
    with 2(3) show ?thesis by simp
  qed
  then have "m mod p = 0 \<Longrightarrow> scaled (m div p) (k + j) = scaled m k"
    by (simp add: scaled_def pow10_add)
  with 2 show ?case by simp
qed simp

lemma strip_zero_runs: "strip_zeros zero_runs m k = scaled m k"
proof (rule strip_zeros_scaled)
  have "\<forall>(p, j) \<in> set (map (\<lambda>j. (10 ^ nat j, j)) js). of_int p = pow10 j" if "\<forall>j \<in> set js. 0 \<le> j" for js
    using that by (auto simp: pow10_nat(1))
  from this [of "[16, 8, 4, 2, 1]"]
  have "\<forall>(p, j) \<in> set (map (\<lambda>j. (10 ^ nat j, j)) [16, 8, 4, 2, 1]). of_int p = pow10 j" by simp
  moreover have "zero_runs = map (\<lambda>j. (10 ^ nat j, j)) [16, 8, 4, 2, 1]" by code_simp
  ultimately show "\<forall>(p, j) \<in> set zero_runs. of_int p = pow10 j" by (simp only:)
qed

lemma round_half_even_div:
  fixes n d :: int
  assumes "0 < d"
  shows "round_half_even (of_int n / of_int d) =
    (let q = n div d; r = 2 * (n mod d) in if r < d then q else if d < r then q + 1 else if even q then q else q + 1)"
proof -
  have floor: "\<lfloor>of_int n / of_int d :: rat\<rfloor> = n div d" by (simp add: floor_divide_of_int_eq)
  have "n = n div d * d + n mod d" by simp
  then have "(of_int n :: rat) = of_int (n div d) * of_int d + of_int (n mod d)"
    by (metis of_int_add of_int_mult)
  then have rest: "of_int n / of_int d - of_int (n div d) = (of_int (n mod d) / of_int d :: rat)"
    using assms by (simp add: field_simps)
  have half: "a / c < 1 / 2 \<longleftrightarrow> 2 * a < c" "1 / 2 < a / c \<longleftrightarrow> c < 2 * a" if "0 < c" for a c :: rat
    using that by (simp_all add: field_simps)
  have two: "2 * of_int (n mod d) = (of_int (2 * (n mod d)) :: rat)" by simp
  moreover have "of_int (n mod d) / of_int d < (1 / 2 :: rat) \<longleftrightarrow> 2 * (n mod d) < d"
    "(1 / 2 :: rat) < of_int (n mod d) / of_int d \<longleftrightarrow> d < 2 * (n mod d)"
    using half [of "of_int d" "of_int (n mod d)"] assms unfolding two of_int_less_iff by simp_all
  ultimately show ?thesis by (simp only: round_half_even_def floor Let_def rest)
qed

fun round_quotient :: "int \<times> int \<Rightarrow> dec" where
  "round_quotient (n, d) =
     (if n = 0 then 0
      else let e = int_digits \<bar>n\<bar> - int_digits d;
               above = (if 0 \<le> e then d * 10 ^ nat e \<le> \<bar>n\<bar> else d \<le> \<bar>n\<bar> * 10 ^ nat (- e));
               k = (if above then e else e - 1) - 27;
               num = (if k < 0 then n * 10 ^ nat (- k) else n);
               den = (if k < 0 then d else d * 10 ^ nat k);
               q = num div den; r = 2 * (num mod den)
           in strip_zeros zero_runs
                (if r < den then q else if den < r then q + 1 else if even q then q else q + 1) k)"

lemma dec_round_code [code]: "dec_round x = round_quotient (quotient_of x)"
proof -
  obtain n d where q: "quotient_of x = (n, d)" by (cases "quotient_of x")
  have d: "0 < d" and x: "x = of_int n / of_int d"
    using quotient_of_denom_pos [OF q] quotient_of_div [OF q] by auto
  have abs: "quotient_of \<bar>x\<bar> = (\<bar>n\<bar>, d)" by (simp add: rat_abs_code q)
  define e where "e = int_digits \<bar>n\<bar> - int_digits d"
  have ax: "\<bar>x\<bar> = of_int \<bar>n\<bar> / of_int d" using d by (simp add: x)
  have above: "pow10 e \<le> \<bar>x\<bar> \<longleftrightarrow> (if 0 \<le> e then d * 10 ^ nat e \<le> \<bar>n\<bar> else d \<le> \<bar>n\<bar> * 10 ^ nat (- e))"
  proof (cases "0 \<le> e")
    case True
    have "pow10 e \<le> \<bar>x\<bar> \<longleftrightarrow> of_int (d * 10 ^ nat e) \<le> (of_int \<bar>n\<bar> :: rat)"
      unfolding ax pow10_nat(1) [OF True] using d by (simp add: field_simps)
    then show ?thesis using True by (simp only: of_int_le_iff if_True)
  next
    case False
    have frac: "1 / p \<le> a / c \<longleftrightarrow> c \<le> a * p" if "0 < p" "0 < c" for a p c :: rat
      using that by (simp add: field_simps)
    have "pow10 e \<le> \<bar>x\<bar> \<longleftrightarrow> of_int d \<le> (of_int \<bar>n\<bar> * of_int (10 ^ nat (- e)) :: rat)"
      using False d unfolding ax by (subst pow10_nat(2)) (simp, rule frac, simp_all)
    then have "pow10 e \<le> \<bar>x\<bar> \<longleftrightarrow> of_int d \<le> (of_int (\<bar>n\<bar> * 10 ^ nat (- e)) :: rat)"
      by (simp only: of_int_mult)
    then show ?thesis using False by (simp only: of_int_le_iff if_False)
  qed
  define k where "k = (if (if 0 \<le> e then d * 10 ^ nat e \<le> \<bar>n\<bar> else d \<le> \<bar>n\<bar> * 10 ^ nat (- e)) then e else e - 1) - 27"
  have ulp: "ulp x = pow10 k"
    by (simp only: ulp_def adjusted_code abs prod.case Let_def e_def [symmetric] above k_def)
  define num den where "num = (if k < 0 then n * 10 ^ nat (- k) else n)" and "den = (if k < 0 then d else d * 10 ^ nat k)"
  have den: "0 < den" using d by (simp add: den_def)
  have "x / pow10 k = of_int num / of_int den"
    using d unfolding x num_def den_def by (cases "k < 0") (simp_all add: pow10_nat field_simps)
  then have "x / ulp x = of_int num / of_int den" unfolding ulp .
  then have "dec_round x = (if x = 0 then 0 else scaled (round_half_even (of_int num / of_int den)) k)"
    by (simp add: dec_round_def ulp scaled_def)
  moreover have "x = 0 \<longleftrightarrow> n = 0" using d by (simp add: x)
  ultimately show ?thesis
    unfolding q round_quotient.simps Let_def strip_zero_runs round_half_even_div [OF den, unfolded Let_def]
    by (simp only: num_def [symmetric] den_def [symmetric] k_def [symmetric] e_def [symmetric] Let_def)
qed

text \<open>Values with a coefficient of at most 28 digits are unchanged.\<close>

lemma dec_round_exact:
  assumes "\<bar>m\<bar> \<le> 10 ^ 28"
  shows "dec_round (of_int m * pow10 k) = of_int m * pow10 k"
proof -
  have lt: "dec_round (of_int m * pow10 k) = of_int m * pow10 k"
    if m: "\<bar>m\<bar> < 10 ^ 28" "m \<noteq> 0" for m k
  proof -
    let ?x = "of_int m * pow10 k :: rat"
    have "\<bar>?x\<bar> < pow10 28 * pow10 k"
      using m(1) by (simp add: abs_mult)
    then have "\<bar>?x\<bar> < pow10 (28 + k)" by (simp add: pow10_add)
    moreover have "?x \<noteq> 0" using m(2) by simp
    ultimately have "pow10 (adjusted ?x) < pow10 (28 + k)"
      using adjusted_bounds(1) [of ?x] by (rule_tac order_le_less_trans) auto
    then have "adjusted ?x < 28 + k" by (simp only: pow10_less_iff)
    then have "0 \<le> k - (adjusted ?x - 27)" by linarith
    then obtain j where "k - (adjusted ?x - 27) = int j" by (rule nonneg_int_cases)
    then have j: "pow10 (k - (adjusted ?x - 27)) = of_int (10 ^ j)" by simp
    have "?x / ulp ?x = of_int m * pow10 (k - (adjusted ?x - 27))"
      unfolding ulp_def pow10_diff by simp
    then have "?x / ulp ?x = of_int (m * 10 ^ j)" unfolding j by simp
    then have "dec_round ?x = of_int (m * 10 ^ j) * ulp ?x"
      using \<open>?x \<noteq> 0\<close> unfolding dec_round_def by (simp only: if_False round_half_even_of_int)
    also have "\<dots> = ?x / ulp ?x * ulp ?x" using \<open>?x / ulp ?x = of_int (m * 10 ^ j)\<close> by simp
    finally show ?thesis by simp
  qed
  consider "m = 0" | "m \<noteq> 0" "\<bar>m\<bar> < 10 ^ 28" | "m = 10 ^ 28" | "m = - (10 ^ 28)"
    using assms by linarith
  then show ?thesis
  proof cases
    case 3
    then have "of_int m * pow10 k = of_int 1 * pow10 (k + 28)" by (simp add: pow10_add)
    then show ?thesis using lt [of 1 "k + 28"] by simp
  next
    case 4
    then have "of_int m * pow10 k = of_int (- 1) * pow10 (k + 28)" by (simp add: pow10_add)
    then show ?thesis using lt [of "- 1" "k + 28"] by simp
  qed (use lt in simp_all)
qed

lemma dec_round_pow10 [simp]: "dec_round (pow10 k) = pow10 k"
  using dec_round_exact [of 1 k] by simp

lemma dec_round_1 [simp]: "dec_round 1 = 1"
  using dec_round_pow10 [of 0] by simp

lemma dec_round_of_int: "\<bar>m\<bar> \<le> 10 ^ 28 \<Longrightarrow> dec_round (of_int m) = of_int m"
  using dec_round_exact [of m 0] by simp

lemma scaled_bounds:
  assumes "0 < x"
  shows "pow10 27 \<le> x / ulp x" "x / ulp x < pow10 28"
proof -
  have b: "pow10 (adjusted x) \<le> x" "x < pow10 (adjusted x + 1)"
    using adjusted_bounds [of x] assms by simp_all
  have e: "pow10 (adjusted x) = pow10 27 * ulp x" "pow10 (adjusted x + 1) = pow10 28 * ulp x"
    unfolding ulp_def by (simp_all only: pow10_add [symmetric]) simp_all
  show "pow10 27 \<le> x / ulp x" using b(1) unfolding e by (simp add: pos_le_divide_eq)
  show "x / ulp x < pow10 28" using b(2) unfolding e by (simp add: pos_divide_less_eq)
qed

lemma coefficient_bounds:
  assumes "0 < x"
  shows "10 ^ 27 \<le> round_half_even (x / ulp x)" "round_half_even (x / ulp x) \<le> 10 ^ 28"
proof -
  have "of_int (10 ^ 27) \<le> x / ulp x" "x / ulp x \<le> of_int (10 ^ 28)"
    using scaled_bounds [OF assms] by simp_all
  from round_half_even_mono [OF this(1)] round_half_even_mono [OF this(2)]
  show "10 ^ 27 \<le> round_half_even (x / ulp x)" "round_half_even (x / ulp x) \<le> 10 ^ 28"
    by (simp_all only: round_half_even_of_int)
qed

lemma coefficient_abs: "0 < x \<Longrightarrow> \<bar>round_half_even (x / ulp x)\<bar> \<le> 10 ^ 28"
proof -
  assume x: "0 < x"
  have "0 \<le> round_half_even (x / ulp x)"
    by (rule order_trans [OF _ coefficient_bounds(1) [OF x]]) simp
  with coefficient_bounds(2) [OF x] show ?thesis by (simp only: abs_of_nonneg)
qed

lemma dec_round_minus: "dec_round (- x) = - dec_round x"
  by (simp add: dec_round_def round_half_even_minus)

text \<open>A rounded positive value stays between the powers of ten around it.\<close>

lemma dec_round_bounds:
  assumes "0 < x"
  shows "pow10 (adjusted x) \<le> dec_round x" "dec_round x \<le> pow10 (adjusted x + 1)"
proof -
  have e: "pow10 (adjusted x) = of_int (10 ^ 27) * ulp x" "pow10 (adjusted x + 1) = of_int (10 ^ 28) * ulp x"
    unfolding ulp_def using pow10_add [of 27 "adjusted x - 27"] pow10_add [of 28 "adjusted x - 27"]
    by (simp_all add: add.commute)
  have r: "dec_round x = of_int (round_half_even (x / ulp x)) * ulp x"
    using assms by (simp add: dec_round_def)
  show "pow10 (adjusted x) \<le> dec_round x"
    unfolding e r using coefficient_bounds(1) [OF assms]
    by (intro mult_right_mono) (simp_all only: of_int_le_iff ulp_pos less_imp_le)
  show "dec_round x \<le> pow10 (adjusted x + 1)"
    unfolding e r using coefficient_bounds(2) [OF assms]
    by (intro mult_right_mono) (simp_all only: of_int_le_iff ulp_pos less_imp_le)
qed

lemma dec_round_mono_pos:
  assumes "0 < x" "x \<le> y"
  shows "dec_round x \<le> dec_round y"
proof (cases "adjusted x = adjusted y")
  case True
  then have u: "ulp y = ulp x" by (simp add: ulp_def)
  have "x / ulp x \<le> y / ulp x" by (intro divide_right_mono less_imp_le [OF ulp_pos] assms(2))
  then have "round_half_even (x / ulp x) \<le> round_half_even (y / ulp x)" by (rule round_half_even_mono)
  with assms show ?thesis by (simp add: dec_round_def u)
next
  case False
  with adjusted_mono [OF assms] have "adjusted x + 1 \<le> adjusted y" by linarith
  then have "pow10 (adjusted x + 1) \<le> pow10 (adjusted y)" by (simp only: pow10_le_iff)
  moreover have "dec_round x \<le> pow10 (adjusted x + 1)" using assms(1) by (rule dec_round_bounds)
  moreover have "pow10 (adjusted y) \<le> dec_round y" using assms by (intro dec_round_bounds) simp
  ultimately show ?thesis by linarith
qed

lemma dec_round_pos: "0 < x \<Longrightarrow> 0 < dec_round x"
  using dec_round_bounds(1) [of x] pow10_pos [of "adjusted x"] by linarith

lemma dec_round_neg: "x < 0 \<Longrightarrow> dec_round x < 0"
  using dec_round_pos [of "- x"] by (simp add: dec_round_minus)

lemma dec_round_eq_0 [simp]: "dec_round x = 0 \<longleftrightarrow> x = 0"
  using dec_round_pos [of x] dec_round_neg [of x] by (cases x "0::rat" rule: linorder_cases) auto

lemma dec_round_mono:
  assumes "x \<le> y"
  shows "dec_round x \<le> dec_round y"
proof -
  consider "0 < x" | "y < 0" | "x \<le> 0" "0 \<le> y" using assms by linarith
  then show ?thesis
  proof cases
    case 2
    with assms show ?thesis
      using dec_round_mono_pos [of "- y" "- x"] by (simp add: dec_round_minus)
  next
    case 3
    then show ?thesis
      using dec_round_pos [of y] dec_round_neg [of x]
      by (cases "x = 0"; cases "y = 0") auto
  qed (use assms dec_round_mono_pos in blast)
qed

lemma dec_round_idem_pos: "0 < x \<Longrightarrow> dec_round (dec_round x) = dec_round x"
proof -
  assume x: "0 < x"
  let ?m = "round_half_even (x / ulp x)"
  have "\<bar>?m\<bar> \<le> 10 ^ 28" using x by (rule coefficient_abs)
  from dec_round_exact [OF this, of "adjusted x - 27"] x show ?thesis
    by (simp add: dec_round_def [of x] ulp_def)
qed

lemma dec_round_idem [simp]: "dec_round (dec_round x) = dec_round x"
proof (cases x "0::rat" rule: linorder_cases)
  case less
  then have "dec_round (dec_round (- x)) = dec_round (- x)" by (intro dec_round_idem_pos) simp
  then show ?thesis by (simp add: dec_round_minus)
qed (simp_all add: dec_round_idem_pos)

interpretation ctx: rounding dec_round
  by unfold_locales (simp_all add: dec_round_mono dec_round_minus)

text \<open>Rounding commutes with a shift of the decimal point.\<close>

lemma adjusted_scale: "x \<noteq> 0 \<Longrightarrow> adjusted (x * pow10 k) = adjusted x + k"
proof (rule adjusted_eqI)
  assume x: "x \<noteq> 0"
  show "pow10 (adjusted x + k) \<le> \<bar>x * pow10 k\<bar>"
    using adjusted_bounds(1) [OF x] by (simp add: pow10_add abs_mult abs_of_pos mult_right_mono)
  have "\<bar>x\<bar> * pow10 k < pow10 (adjusted x + 1) * pow10 k"
    by (rule mult_strict_right_mono [OF adjusted_bounds(2) [OF x]]) simp
  then show "\<bar>x * pow10 k\<bar> < pow10 (adjusted x + k + 1)"
    by (simp add: pow10_add abs_mult abs_of_pos mult_ac)
qed

lemma ulp_scale: "x \<noteq> 0 \<Longrightarrow> ulp (x * pow10 k) = ulp x * pow10 k"
proof -
  assume "x \<noteq> 0"
  then have "ulp (x * pow10 k) = pow10 ((adjusted x - 27) + k)"
    unfolding ulp_def by (simp add: adjusted_scale algebra_simps)
  then show ?thesis unfolding ulp_def by (simp only: pow10_add)
qed

lemma dec_round_scale: "dec_round (x * pow10 k) = dec_round x * pow10 k"
  by (cases "x = 0") (simp_all add: dec_round_def ulp_scale)

text \<open>The relative error of one rounding is at most half a unit of the 28th digit.\<close>

lemma round_half_even_error: "\<bar>of_int (round_half_even x) - x\<bar> \<le> 1/2"
  by (auto simp: round_half_even_def Let_def abs_if) linarith+

lemma dec_round_error:
  assumes "x \<noteq> 0"
  shows "\<bar>dec_round x - x\<bar> \<le> ulp x / 2"
proof -
  let ?m = "of_int (round_half_even (x / ulp x)) :: rat"
  have "dec_round x - x = (?m - x / ulp x) * ulp x"
    using assms by (simp add: dec_round_def left_diff_distrib)
  then have "\<bar>dec_round x - x\<bar> = \<bar>?m - x / ulp x\<bar> * ulp x"
    by (simp add: abs_mult abs_of_pos)
  also have "\<dots> \<le> 1/2 * ulp x"
    by (intro mult_right_mono round_half_even_error) (simp add: less_imp_le)
  finally show ?thesis by simp
qed

section \<open>The operations\<close>

text \<open>
  \<open>rep x\<close>: \<open>x\<close> is a value of at most 28 significant digits, so one that an arithmetic
  operation can return. Unary minus and \<open>abs\<close> round in Python as well.
\<close>

definition rep :: "dec \<Rightarrow> bool" where
  "rep x \<longleftrightarrow> dec_round x = x"

definition dadd :: "dec \<Rightarrow> dec \<Rightarrow> dec" where
  "dadd x y = dec_round (x + y)"

definition dsub :: "dec \<Rightarrow> dec \<Rightarrow> dec" where
  "dsub x y = dec_round (x - y)"

definition dmul :: "dec \<Rightarrow> dec \<Rightarrow> dec" where
  "dmul x y = dec_round (x * y)"

text \<open>Division by zero raises in Python; \<open>ddiv\<close> is used where the code has excluded it.\<close>

definition ddiv :: "dec \<Rightarrow> dec \<Rightarrow> dec" where
  "ddiv x y = dec_round (x / y)"

definition dneg :: "dec \<Rightarrow> dec" where
  "dneg x = dec_round (- x)"

definition dabs :: "dec \<Rightarrow> dec" where
  "dabs x = dec_round \<bar>x\<bar>"

definition dsum :: "dec list \<Rightarrow> dec" where
  "dsum xs = foldl dadd 0 xs"

lemma rep_dec_round [simp]: "rep (dec_round x)"
  by (simp add: rep_def)

lemma rep_ops [simp]:
  "rep (dadd x y)" "rep (dsub x y)" "rep (dmul x y)" "rep (ddiv x y)" "rep (dneg x)" "rep (dabs x)"
  by (simp_all add: dadd_def dsub_def dmul_def ddiv_def dneg_def dabs_def)

lemma rep_0 [simp]: "rep 0"
  by (simp add: rep_def)

lemma rep_pow10 [simp]: "rep (pow10 k)"
  by (simp add: rep_def)

lemma rep_of_int: "\<bar>m\<bar> \<le> 10 ^ 28 \<Longrightarrow> rep (of_int m)"
  by (simp add: rep_def dec_round_of_int)

lemma rep_minus [simp]: "rep (- x) = rep x"
  by (simp add: rep_def dec_round_minus)

lemma rep_abs [simp]: "rep \<bar>x\<bar> = rep x"
  by (cases "0 \<le> x") (simp_all add: abs_if)

lemma rep_mult_pow10 [simp]: "rep (x * pow10 k) = rep x"
  by (simp add: rep_def dec_round_scale)

lemma rep_divide_pow10 [simp]: "rep (x / pow10 k) = rep x"
  using rep_mult_pow10 [of x "- k"] by (simp add: power_int_minus divide_inverse)

lemma rep_decimal: "\<bar>m\<bar> \<le> 10 ^ 28 \<Longrightarrow> rep (of_int m / 10 ^ k)"
  using rep_divide_pow10 [of "of_int m" "int k"] by (simp add: rep_of_int)

lemma dabs_rep: "rep x \<Longrightarrow> dabs x = \<bar>x\<bar>"
  by (simp add: dabs_def rep_def ctx.rnd_abs)

lemma dneg_rep: "rep x \<Longrightarrow> dneg x = - x"
  by (simp add: dneg_def rep_def dec_round_minus)

lemma dabs_ge_0 [simp]: "0 \<le> dabs x"
  by (simp add: dabs_def ctx.rnd_nonneg_iff)

lemma dabs_eq_0 [simp]: "dabs x = 0 \<longleftrightarrow> x = 0"
  by (simp add: dabs_def)

lemma dneg_eq_0 [simp]: "dneg x = 0 \<longleftrightarrow> x = 0"
  by (simp add: dneg_def)

lemma dmul_pos: "0 < x \<Longrightarrow> 0 < y \<Longrightarrow> 0 < dmul x y"
  by (simp add: dmul_def ctx.rnd_pos_iff)

lemma dmul_nonneg: "0 \<le> x \<Longrightarrow> 0 \<le> y \<Longrightarrow> 0 \<le> dmul x y"
  by (simp add: dmul_def ctx.rnd_nonneg_iff)

lemma ddiv_pos: "0 < x \<Longrightarrow> 0 < y \<Longrightarrow> 0 < ddiv x y"
  by (simp add: ddiv_def ctx.rnd_pos_iff)

lemma ddiv_nonneg: "0 \<le> x \<Longrightarrow> 0 < y \<Longrightarrow> 0 \<le> ddiv x y"
  by (simp add: ddiv_def ctx.rnd_nonneg_iff)

lemma dsub_le_0_iff: "dsub x y \<le> 0 \<longleftrightarrow> x \<le> y"
  by (simp add: dsub_def ctx.rnd_nonpos_iff)

lemma dsub_eq_0_iff [simp]: "dsub x y = 0 \<longleftrightarrow> x = y"
  by (simp add: dsub_def)

lemma dsub_pos_iff: "0 < dsub x y \<longleftrightarrow> y < x"
  by (simp add: dsub_def ctx.rnd_pos_iff)

lemma dsub_neg_iff: "dsub x y < 0 \<longleftrightarrow> x < y"
  by (simp add: dsub_def ctx.rnd_neg_iff)

lemma dadd_0 [simp]: "rep x \<Longrightarrow> dadd 0 x = x" "rep x \<Longrightarrow> dadd x 0 = x"
  by (simp_all add: dadd_def rep_def)

lemmas dec_ops = dadd_def dsub_def dmul_def ddiv_def dneg_def dabs_def

text \<open>
  Evaluation on numerals: a value with at most 20 decimals below \<open>10 ^ 8\<close> is not rounded.
\<close>

lemma dec_round_small:
  assumes "x * 10 ^ 20 = of_int \<lfloor>x * 10 ^ 20\<rfloor>" "\<bar>x\<bar> \<le> 10 ^ 8"
  shows "dec_round x = x"
proof -
  let ?m = "\<lfloor>x * 10 ^ 20\<rfloor>"
  have "\<bar>x\<bar> * 10 ^ 20 \<le> 10 ^ 8 * 10 ^ 20" using assms(2) by (rule mult_right_mono) simp
  then have "\<bar>x * 10 ^ 20\<bar> \<le> 10 ^ 28" by (simp add: abs_mult)
  then have "\<bar>of_int ?m :: rat\<bar> \<le> 10 ^ 28" using assms(1) by argo
  then have "(of_int \<bar>?m\<bar> :: rat) \<le> of_int (10 ^ 28)" by simp
  then have m: "\<bar>?m\<bar> \<le> 10 ^ 28" by (rule of_int_le_iff [THEN iffD1])
  have "x = (x * 10 ^ 20) * pow10 (- 20)" by (simp add: power_int_minus)
  then have "x = of_int ?m * pow10 (- 20)" using assms(1) by argo
  with dec_round_exact [OF m, of "- 20"] show ?thesis by simp
qed

end
