(* ===== verification/Precision.thy ===== *)
theory Precision
  imports Decimals
begin

text \<open>
  \<^verbatim>\<open>paper_engine/precision.py\<close>: Hyperliquid's price and size increments. Sizes round
  down to the lot; a fill price rounds in the adverse direction; a limit price rounds so
  that it does not widen its band. \<open>valid_price\<close> is the venue's rule (at most five significant
  figures and at most \<open>max_decimals\<close> decimals, integers always allowed), stated on its own;
  the theorems show that \<open>round_to_grid\<close> returns the nearest valid price in its direction.
\<close>

section \<open>Operations\<close>

datatype side = BUY | SELL

definition perp_max_price_decimals :: "int \<Rightarrow> int result" where
  "perp_max_price_decimals sz_decimals =
     (if sz_decimals < 0 \<or> 6 < sz_decimals
      then Inl (ValueError ''sz_decimals must be an integer from 0 through 6.'')
      else Inr (6 - sz_decimals))"

definition size_increment :: "int \<Rightarrow> dec result" where
  "size_increment sz_decimals =
     (if sz_decimals < 0 \<or> 18 < sz_decimals
      then Inl (ValueError ''sz_decimals must be an integer from 0 through 18.'')
      else Inr (pow10 (- sz_decimals)))"

definition floor_size :: "dec \<Rightarrow> dec \<Rightarrow> dec result" where
  "floor_size quantity increment =
     (if quantity < 0 then Inl (ValueError ''quantity must be a finite non-negative decimal.'')
      else if increment \<le> 0 then Inl (ValueError ''increment must be a finite positive decimal.'')
      else Inr (dmul (to_integral_value ROUND_DOWN (ddiv quantity increment)) increment))"

definition price_quantum :: "dec \<Rightarrow> int \<Rightarrow> dec result" where
  "price_quantum price max_decimals =
     (if price \<le> 0 then Inl (ValueError ''price must be a finite positive decimal.'')
      else if max_decimals < 0 \<or> 18 < max_decimals
      then Inl (ValueError ''max_decimals must be an integer from 0 through 18.'')
      else (let sig_quantum = pow10 (adjusted price - (5 - 1));
                decimal_quantum = (if max_decimals = 0 then 1 else pow10 (- max_decimals));
                quantum = (if sig_quantum > decimal_quantum then sig_quantum else decimal_quantum)
            in Inr (if quantum > 1 then 1 else quantum)))"

definition grid_step :: "rounding_mode \<Rightarrow> dec \<Rightarrow> dec \<Rightarrow> dec" where
  "grid_step mode price quantum = dmul (to_integral_value mode (ddiv price quantum)) quantum"

section \<open>The grid around a price\<close>

text \<open>The quantum is a power of ten; \<open>grid_exp\<close> is its exponent.\<close>

definition grid_exp :: "int \<Rightarrow> dec \<Rightarrow> int" where
  "grid_exp max_decimals price = min 0 (max (adjusted price - 4) (- max_decimals))"

lemma price_quantum_Inr:
  assumes "0 < p" "0 \<le> md" "md \<le> 18"
  shows "price_quantum p md = Inr (pow10 (grid_exp md p))"
proof -
  have one: "(1::dec) = pow10 0" by simp
  show ?thesis
    using assms by (auto simp: price_quantum_def grid_exp_def Let_def one min_def max_def simp del: power_int_0_right)
qed

lemma price_quantum_Inr_iff:
  "price_quantum p md = Inr q \<longleftrightarrow> 0 < p \<and> 0 \<le> md \<and> md \<le> 18 \<and> q = pow10 (grid_exp md p)"
  using price_quantum_Inr [of p md] by (auto simp: price_quantum_def split: if_splits)

lemma grid_exp_le_0 [simp]: "grid_exp md p \<le> 0"
  by (simp add: grid_exp_def)

lemma grid_step_eq:
  "grid_step m p (pow10 k) = dec_round (of_int (to_integral m (dec_round p * pow10 (- k))) * pow10 k)"
proof -
  have "p / pow10 k = p * pow10 (- k)" by (simp add: power_int_minus divide_inverse)
  then show ?thesis by (simp add: grid_step_def dmul_def ddiv_def to_integral_value_def dec_round_scale)
qed

text \<open>At five significant figures or fewer the scaled price is below \<open>10 ^ 5\<close>.\<close>

lemma scaled_price_le:
  assumes "0 < p" "adjusted p \<le> k + 4"
  shows "dec_round p * pow10 (- k) \<le> 10 ^ 5"
proof -
  have "dec_round p \<le> pow10 (adjusted p + 1)" using assms(1) by (rule dec_round_bounds)
  also have "\<dots> \<le> pow10 (k + 5)" using assms(2) by (simp only: pow10_le_iff)
  finally have "dec_round p * pow10 (- k) \<le> pow10 (k + 5) * pow10 (- k)"
    by (rule mult_right_mono) simp
  also have "\<dots> = pow10 5" by (simp add: pow10_add [symmetric])
  finally show ?thesis by simp
qed

lemma to_integral_ge: "of_int lo \<le> x \<Longrightarrow> lo \<le> to_integral m x"
  using to_integral_mono [of "of_int lo" x m] by (simp only: to_integral_of_int)

lemma to_integral_le: "x \<le> of_int hi \<Longrightarrow> to_integral m x \<le> hi"
  using to_integral_mono [of x "of_int hi" m] by (simp only: to_integral_of_int)

lemma grid_step_small:
  assumes "0 < p" "adjusted p \<le> k + 4"
  shows "\<exists>n. 0 \<le> n \<and> n \<le> 10 ^ 5 \<and> n = to_integral m (dec_round p * pow10 (- k)) \<and>
    grid_step m p (pow10 k) = of_int n * pow10 k"
proof -
  let ?y = "dec_round p * pow10 (- k)"
  have y: "of_int 0 \<le> ?y" "?y \<le> of_int (10 ^ 5)"
    using scaled_price_le [OF assms] dec_round_pos [OF assms(1)] by simp_all
  note n = to_integral_ge [OF y(1), of m] to_integral_le [OF y(2), of m]
  have "\<bar>to_integral m ?y\<bar> \<le> 10 ^ 28" using n by simp
  then have "grid_step m p (pow10 k) = of_int (to_integral m ?y) * pow10 k"
    by (simp add: grid_step_eq dec_round_exact)
  with n show ?thesis by blast
qed

lemma grid_exp_large: "0 \<le> md \<Longrightarrow> 4 \<le> adjusted p \<Longrightarrow> grid_exp md p = 0"
  by (simp add: grid_exp_def)

lemma grid_step_large:
  assumes "0 < p" "4 \<le> adjusted p"
  shows "10 ^ 4 \<le> grid_step m p 1"
proof -
  have "pow10 4 \<le> pow10 (adjusted p)" using assms(2) by (simp only: pow10_le_iff)
  then have "of_int (10 ^ 4) \<le> dec_round p" using dec_round_bounds(1) [OF assms(1)] by simp
  then have "10 ^ 4 \<le> to_integral m (dec_round p)" by (rule to_integral_ge)
  then have "pow10 4 \<le> of_int (to_integral m (dec_round p))"
    using pow10_le_of_int [of 4 "to_integral m (dec_round p)"] by simp
  then have "pow10 4 \<le> dec_round (of_int (to_integral m (dec_round p)))"
    by (rule ctx.rnd_ge_rep [OF dec_round_pow10])
  then show ?thesis using grid_step_eq [of m p 0] by simp
qed

text \<open>
  Rounding changes the grid only when it reaches the next power of ten, which the coarser
  grid leaves alone: the second pass of \<open>_round_to_grid\<close> returns its argument.
\<close>

lemma grid_step_crossing:
  assumes p: "0 < p" and md: "0 \<le> md" and r: "r = grid_step m p (pow10 (grid_exp md p))" "0 < r"
    and cross: "grid_exp md r \<noteq> grid_exp md p"
  shows "grid_step m r (pow10 (grid_exp md r)) = r"
proof -
  let ?k = "grid_exp md p"
  have small: "adjusted p < 4"
  proof (rule ccontr)
    assume "\<not> adjusted p < 4"
    then have a: "4 \<le> adjusted p" by simp
    from grid_exp_large [OF md this] have "?k = 0" .
    with r(1) grid_step_large [OF p a, of m] have "pow10 4 \<le> r" by simp
    then have "4 \<le> adjusted r" by (rule adjusted_ge)
    from grid_exp_large [OF md this] have "grid_exp md r = 0" .
    with cross \<open>?k = 0\<close> show False by simp
  qed
  then have k: "?k = max (adjusted p - 4) (- md)" using md by (simp add: grid_exp_def)
  then have "adjusted p \<le> ?k + 4" by simp
  from grid_step_small [OF p this, of m] r(1) obtain n where
    n: "0 \<le> n" "n \<le> 10 ^ 5" "n = to_integral m (dec_round p * pow10 (- ?k))" "r = of_int n * pow10 ?k"
    by auto
  with r(2) have npos: "0 < n" by (simp add: zero_less_mult_iff)
  have "n = 10 ^ 5"
  proof (rule ccontr)
    assume "n \<noteq> 10 ^ 5"
    with n(2) have "n < 10 ^ 5" by simp
    then have "of_int n < pow10 5" using of_int_less_pow10 [of 5 n] by simp
    then have "r < pow10 5 * pow10 ?k" unfolding n(4) by (rule mult_strict_right_mono) simp
    then have "r < pow10 (5 + ?k)" by (simp only: pow10_add)
    with r(2) have hi: "adjusted r < 5 + ?k" by (rule adjusted_less)
    have "grid_exp md r = ?k"
    proof (cases "- md < adjusted p - 4")
      case True
      then have ka: "?k = adjusted p - 4" using k by simp
      have "pow10 4 * pow10 ?k \<le> dec_round p"
        using dec_round_bounds(1) [OF p] unfolding ka pow10_add [symmetric] by simp
      then have "pow10 4 * pow10 ?k * pow10 (- ?k) \<le> dec_round p * pow10 (- ?k)"
        by (rule mult_right_mono) simp
      then have "of_int (10 ^ 4) \<le> dec_round p * pow10 (- ?k)" unfolding pow10_cancel by simp
      then have "10 ^ 4 \<le> n" unfolding n(3) by (rule to_integral_ge)
      then have "pow10 4 \<le> of_int n" using pow10_le_of_int [of 4 n] by simp
      then have "pow10 4 * pow10 ?k \<le> r" unfolding n(4) by (rule mult_right_mono) simp
      then have "pow10 (4 + ?k) \<le> r" by (simp only: pow10_add)
      then have "4 + ?k \<le> adjusted r" by (rule adjusted_ge)
      with hi True ka md show ?thesis by (simp add: grid_exp_def)
    next
      case False
      with k have "?k = - md" by simp
      with hi md show ?thesis by (simp add: grid_exp_def)
    qed
    with cross show False by simp
  qed
  then have r5: "r = pow10 (5 + ?k)" using n(4) by (simp add: pow10_add)
  then have adj: "adjusted r = 5 + ?k" by (simp only: adjusted_pow10)
  let ?j = "grid_exp md r"
  have j: "?j \<le> adjusted r" using adj k grid_exp_le_0 [of md r] small by (auto simp: grid_exp_def)
  then obtain i where i: "adjusted r - ?j = int i" by (metis diff_ge_0_iff_ge nonneg_int_cases)
  have "r * pow10 (- ?j) = pow10 (adjusted r + - ?j)" unfolding pow10_add by (simp add: r5 adj)
  then have sc: "r * pow10 (- ?j) = of_int (10 ^ i)" using i by simp
  have "dec_round r = r" unfolding r5 by (rule dec_round_pow10)
  have "grid_step m r (pow10 ?j) = dec_round (r * pow10 (- ?j) * pow10 ?j)"
    unfolding grid_step_eq \<open>dec_round r = r\<close> sc to_integral_of_int ..
  then show ?thesis unfolding pow10_cancel \<open>dec_round r = r\<close> .
qed

section \<open>Rounding to the grid\<close>

text \<open>
  \<open>_round_to_grid\<close> calls itself while rounding changes the grid. The measure is 1 for a price
  that rounding moves and 0 for one it keeps: a crossing always lands on a kept price.
\<close>

function round_to_grid :: "rounding_mode \<Rightarrow> int \<Rightarrow> dec \<Rightarrow> dec result" where
  "round_to_grid mode max_decimals price =
     (case price_quantum price max_decimals of
        Inl e \<Rightarrow> Inl e
      | Inr quantum \<Rightarrow>
          let rounded = grid_step mode price quantum
          in if rounded \<le> 0 then Inl (ValueError ''price rounded to a non-positive value.'')
             else (case price_quantum rounded max_decimals of
                     Inl e \<Rightarrow> Inl e
                   | Inr quantum' \<Rightarrow>
                       if quantum' = quantum then Inr rounded
                       else round_to_grid mode max_decimals rounded))"
  by pat_completeness auto
termination
proof (relation "measure (\<lambda>(m, md, p).
    if grid_step m p (pow10 (grid_exp md p)) = p then 0 else 1 :: nat)", goal_cases)
  case 1
  show ?case by simp
next
  case (2 m md p q r q')
  then have p: "0 < p" "0 \<le> md" and q: "q = pow10 (grid_exp md p)" "q' = pow10 (grid_exp md r)"
    by (auto simp: price_quantum_Inr_iff)
  with 2 have r: "r = grid_step m p (pow10 (grid_exp md p))" "0 < r" "grid_exp md r \<noteq> grid_exp md p"
    by auto
  from grid_step_crossing [OF p r] have "grid_step m r (pow10 (grid_exp md r)) = r" .
  moreover have "grid_step m p (pow10 (grid_exp md p)) \<noteq> p" using r(1,3) by auto
  ultimately show ?case by simp
qed

declare round_to_grid.simps [simp del]

definition adverse_price :: "dec \<Rightarrow> side \<Rightarrow> int \<Rightarrow> dec result" where
  "adverse_price price sd max_decimals =
     round_to_grid (if sd = BUY then ROUND_CEILING else ROUND_FLOOR) max_decimals price"

definition protective_price :: "dec \<Rightarrow> side \<Rightarrow> int \<Rightarrow> dec result" where
  "protective_price price sd max_decimals =
     round_to_grid (if sd = BUY then ROUND_FLOOR else ROUND_CEILING) max_decimals price"

text \<open>The second pass never moves the price, so the result is that of the first.\<close>

lemma round_to_grid_eq:
  assumes "0 < p" "0 \<le> md" "md \<le> 18"
  shows "round_to_grid m md p =
    (let r = grid_step m p (pow10 (grid_exp md p))
     in if r \<le> 0 then Inl (ValueError ''price rounded to a non-positive value.'') else Inr r)"
proof -
  let ?r = "grid_step m p (pow10 (grid_exp md p))"
  show ?thesis
  proof (cases "?r \<le> 0")
    case True
    then show ?thesis using assms by (simp add: round_to_grid.simps [of m md p] price_quantum_Inr)
  next
    case False
    then have r: "0 < ?r" by simp
    show ?thesis
    proof (cases "grid_exp md ?r = grid_exp md p")
      case True
      with r assms show ?thesis
        by (simp add: round_to_grid.simps [of m md p] price_quantum_Inr Let_def)
    next
      case neq: False
      from grid_step_crossing [OF assms(1,2) refl r neq]
      have keeps: "grid_step m ?r (pow10 (grid_exp md ?r)) = ?r" .
      have "round_to_grid m md p = round_to_grid m md ?r"
        using r neq assms
        by (simp add: round_to_grid.simps [of m md p] price_quantum_Inr Let_def)
      also have "\<dots> = Inr ?r"
        using r assms keeps
        by (simp add: round_to_grid.simps [of m md ?r] price_quantum_Inr Let_def)
      finally show ?thesis using r by (simp add: Let_def)
    qed
  qed
qed

lemma round_to_grid_Inr_iff:
  "round_to_grid m md p = Inr r \<longleftrightarrow>
     0 < p \<and> 0 \<le> md \<and> md \<le> 18 \<and> 0 < r \<and> r = grid_step m p (pow10 (grid_exp md p))"
proof (cases "0 < p \<and> 0 \<le> md \<and> md \<le> 18")
  case True
  then show ?thesis by (auto simp: round_to_grid_eq Let_def)
next
  case False
  then show ?thesis by (auto simp: round_to_grid.simps [of m md p] price_quantum_def)
qed

text \<open>One pass is enough: the equation evaluation uses.\<close>

lemma round_to_grid_code [code]:
  "round_to_grid m md p =
     (case price_quantum p md of
        Inl e \<Rightarrow> Inl e
      | Inr q \<Rightarrow> (let r = grid_step m p q
          in if r \<le> 0 then Inl (ValueError ''price rounded to a non-positive value.'') else Inr r))"
proof (cases "0 < p \<and> 0 \<le> md \<and> md \<le> 18")
  case True
  then show ?thesis by (simp add: round_to_grid_eq price_quantum_Inr Let_def)
next
  case False
  then show ?thesis by (auto simp: round_to_grid.simps [of m md p] price_quantum_def)
qed

section \<open>The venue's price rule\<close>

text \<open>
  A price is valid when it is an integer, or has at most \<open>max_decimals\<close> decimals and at most
  five significant figures.
\<close>

definition is_int :: "dec \<Rightarrow> bool" where
  "is_int x \<longleftrightarrow> of_int \<lfloor>x\<rfloor> = x"

definition valid_price :: "int \<Rightarrow> dec \<Rightarrow> bool" where
  "valid_price max_decimals v \<longleftrightarrow>
     0 < v \<and> (is_int v \<or>
       is_int (v * pow10 max_decimals) \<and> is_int (v * pow10 (4 - adjusted v)))"

lemma is_int_of_int [simp]: "is_int (of_int n)"
  by (simp add: is_int_def)

lemma is_intE:
  assumes "is_int x" obtains n where "x = of_int n"
  using assms unfolding is_int_def by metis

lemma is_int_shift: "is_int x \<Longrightarrow> 0 \<le> k \<Longrightarrow> is_int (x * pow10 k)"
  by (metis is_intE is_int_of_int of_int_mult pow10_nonneg_int)

lemma valid_price_scaled:
  assumes "valid_price md v" "0 \<le> md"
  shows "is_int (v * pow10 (- grid_exp md v))"
proof (cases "is_int v")
  case True
  then show ?thesis by (simp add: is_int_shift)
next
  case False
  with assms(1) have v: "is_int (v * pow10 md)" "is_int (v * pow10 (4 - adjusted v))"
    by (auto simp: valid_price_def)
  have "\<not> 0 \<le> adjusted v - 4"
  proof
    assume "0 \<le> adjusted v - 4"
    from is_int_shift [OF v(2) this] have "is_int v"
      unfolding mult.assoc pow10_add [symmetric] by simp
    with False show False by simp
  qed
  with assms(2) have "- grid_exp md v = md \<or> - grid_exp md v = 4 - adjusted v"
    by (auto simp: grid_exp_def)
  with v show ?thesis by auto
qed

text \<open>The scaled grid: multiples of \<open>10 ^ k\<close> below five figures are valid.\<close>

lemma valid_price_multiple:
  assumes "0 < n" "v = of_int n * pow10 (grid_exp md p)" "0 < p" "adjusted p \<le> grid_exp md p + 4"
    "n \<le> 10 ^ 5" "0 \<le> md"
  shows "valid_price md v"
proof -
  let ?k = "grid_exp md p"
  have v: "0 < v" using assms(1,2) by simp
  show ?thesis
  proof (cases "n = 10 ^ 5")
    case True
    then have v5: "v = pow10 (5 + ?k)" using assms(2) by (simp add: pow10_add)
    then have "adjusted v = 5 + ?k" by (simp only: adjusted_pow10)
    then have "v * pow10 (4 - adjusted v) = of_int (10 ^ 4)"
      unfolding v5 by (simp add: pow10_add [symmetric])
    moreover have "is_int (v * pow10 md)"
    proof -
      have "- md \<le> ?k" using assms(6) by (simp add: grid_exp_def)
      then have "v * pow10 md = of_int (10 ^ nat (5 + ?k + md))"
        unfolding v5 pow10_add [symmetric] by (subst pow10_nonneg_int) simp_all
      then show ?thesis by (simp only: is_int_of_int)
    qed
    ultimately show ?thesis unfolding valid_price_def using v by (metis is_int_of_int)
  next
    case False
    with assms(5) have "of_int n < pow10 5" using of_int_less_pow10 [of 5 n] by simp
    then have "v < pow10 5 * pow10 ?k" unfolding assms(2) by (rule mult_strict_right_mono) simp
    then have "v < pow10 (5 + ?k)" by (simp only: pow10_add)
    with v have a: "adjusted v < 5 + ?k" by (rule adjusted_less)
    have "v * pow10 (- ?k) = of_int n" unfolding assms(2) by (rule pow10_cancel)
    then have vk: "is_int (v * pow10 (- ?k))" by simp
    have "is_int (v * pow10 (- ?k) * pow10 (4 - adjusted v + ?k))"
      using a by (intro is_int_shift [OF vk]) simp
    then have "is_int (v * pow10 (4 - adjusted v))" unfolding mult.assoc pow10_add [symmetric] by simp
    moreover have "is_int (v * pow10 (- ?k) * pow10 (md + ?k))"
      using assms(6) by (intro is_int_shift [OF vk]) (simp add: grid_exp_def)
    then have "is_int (v * pow10 md)" unfolding mult.assoc pow10_add [symmetric] by simp
    ultimately show ?thesis using v by (simp add: valid_price_def)
  qed
qed

lemma rep_large_is_int:
  assumes "rep p" "pow10 28 \<le> p"
  shows "is_int p"
proof -
  have p: "0 < p" using assms(2) pow10_pos [of 28] by linarith
  have a: "28 \<le> adjusted p" using assms(2) by (rule adjusted_ge)
  have "p = of_int (round_half_even (p / ulp p)) * ulp p"
    using assms(1) p by (simp add: rep_def dec_round_def)
  then have "p = of_int (round_half_even (p / ulp p)) * pow10 (adjusted p - 27)"
    by (simp only: ulp_def)
  moreover have "is_int (of_int (round_half_even (p / ulp p)) * pow10 (adjusted p - 27))"
    using a by (intro is_int_shift) simp_all
  ultimately show ?thesis by (simp only:)
qed

lemma grid_step_exact:
  assumes "rep p" "0 < p" "0 \<le> md"
  shows "grid_step m p (pow10 (grid_exp md p)) =
    of_int (to_integral m (p * pow10 (- grid_exp md p))) * pow10 (grid_exp md p)"
proof (cases "adjusted p \<le> grid_exp md p + 4")
  case True
  from grid_step_small [OF assms(2) True, of m] assms(1) show ?thesis by (auto simp: rep_def)
next
  case False
  then have k: "grid_exp md p = 0" using assms(3) by (auto simp: grid_exp_def)
  have "dec_round (of_int (to_integral m p)) = of_int (to_integral m p)"
  proof (cases "p < pow10 28")
    case True
    have "of_int 0 \<le> p" "p \<le> of_int (10 ^ 28)" using assms(2) True by simp_all
    from to_integral_ge [OF this(1), of m] to_integral_le [OF this(2), of m]
    show ?thesis by (intro dec_round_of_int) (simp only: abs_of_nonneg)
  next
    case False
    then obtain n where "p = of_int n" using rep_large_is_int [OF assms(1)] by (auto elim: is_intE)
    with assms(1) show ?thesis by (simp add: rep_def)
  qed
  then show ?thesis using assms(1) by (simp add: k grid_step_eq [of m p 0, simplified] rep_def)
qed

lemma grid_exp_mono: "adjusted p \<le> adjusted v \<Longrightarrow> grid_exp md p \<le> grid_exp md v"
  by (auto simp: grid_exp_def)

text \<open>The two directions, as facts about the result of one rounding.\<close>

lemma grid_valid:
  assumes "rep p" "0 < p" "0 \<le> md" and r: "r = grid_step m p (pow10 (grid_exp md p))" "0 < r"
  shows "valid_price md r"
proof (cases "adjusted p \<le> grid_exp md p + 4")
  case True
  from grid_step_small [OF assms(2) True, of m] r obtain n where
    "n \<le> 10 ^ 5" "r = of_int n * pow10 (grid_exp md p)" by auto
  with valid_price_multiple [of n r md p] True r(2) assms(2,3) show ?thesis
    by (simp add: zero_less_mult_iff)
next
  case False
  then have "grid_exp md p = 0" using assms(3) by (auto simp: grid_exp_def)
  with grid_step_exact [OF assms(1-3), of m] r show ?thesis by (simp add: valid_price_def)
qed

lemma scaled_le_iff: "x * pow10 k \<le> y * pow10 k \<longleftrightarrow> x \<le> y"
  by simp

lemma grid_ceiling_least:
  assumes "rep p" "0 < p" "0 \<le> md" and r: "r = grid_step ROUND_CEILING p (pow10 (grid_exp md p))"
  shows "p \<le> r" "valid_price md v \<Longrightarrow> p \<le> v \<Longrightarrow> r \<le> v"
proof -
  let ?k = "grid_exp md p"
  have re: "r = of_int \<lceil>p * pow10 (- ?k)\<rceil> * pow10 ?k"
    using grid_step_exact [OF assms(1-3), of ROUND_CEILING] r by simp
  have "p * pow10 (- ?k) * pow10 ?k \<le> r" unfolding re by (rule mult_right_mono) simp_all
  then show "p \<le> r" unfolding pow10_cancel .
  assume v: "valid_price md v" "p \<le> v"
  then have "?k \<le> grid_exp md v" using adjusted_mono [OF assms(2)] by (intro grid_exp_mono) simp
  then have "is_int (v * pow10 (- grid_exp md v) * pow10 (grid_exp md v - ?k))"
    by (intro is_int_shift [OF valid_price_scaled [OF v(1) assms(3)]]) simp
  then obtain n where n: "v * pow10 (- ?k) = of_int n"
    unfolding mult.assoc pow10_add [symmetric] by (auto elim: is_intE)
  have "p * pow10 (- ?k) \<le> of_int n" unfolding n [symmetric] using v(2) by simp
  then have "\<lceil>p * pow10 (- ?k)\<rceil> \<le> n" by (simp add: ceiling_le_iff)
  then have "r \<le> of_int n * pow10 ?k" unfolding re by (intro mult_right_mono) simp_all
  then show "r \<le> v" unfolding n [symmetric] pow10_cancel .
qed

lemma valid_price_min:
  assumes "valid_price md v" "0 \<le> md"
  shows "pow10 (- md) \<le> v"
proof -
  have "is_int (v * pow10 md)"
    using assms is_int_shift [of v md] by (auto simp: valid_price_def)
  moreover have "0 < v * pow10 md" using assms(1) by (simp add: valid_price_def)
  ultimately have "1 \<le> v * pow10 md" by (auto elim!: is_intE)
  then have "1 * pow10 (- md) \<le> v * pow10 md * pow10 (- md)" by (rule mult_right_mono) simp
  then show ?thesis unfolding pow10_cancel by simp
qed

lemma grid_floor_greatest:
  assumes "rep p" "0 < p" "0 \<le> md" and r: "r = grid_step ROUND_FLOOR p (pow10 (grid_exp md p))"
  shows "r \<le> p" "valid_price md v \<Longrightarrow> v \<le> p \<Longrightarrow> v \<le> r"
proof -
  let ?k = "grid_exp md p"
  have re: "r = of_int \<lfloor>p * pow10 (- ?k)\<rfloor> * pow10 ?k"
    using grid_step_exact [OF assms(1-3), of ROUND_FLOOR] r by simp
  have "r \<le> p * pow10 (- ?k) * pow10 ?k" unfolding re by (rule mult_right_mono) simp_all
  then show "r \<le> p" unfolding pow10_cancel .
  assume v: "valid_price md v" "v \<le> p"
  have v0: "0 < v" using v(1) by (simp add: valid_price_def)
  have av: "adjusted v \<le> adjusted p" using adjusted_mono [OF v0 v(2)] .
  have below: "of_int n * pow10 ?k \<le> r" if "of_int n * pow10 ?k \<le> p" for n
  proof -
    have "of_int n * pow10 ?k * pow10 (- ?k) \<le> p * pow10 (- ?k)" using that by simp
    then have "n \<le> \<lfloor>p * pow10 (- ?k)\<rfloor>" unfolding pow10_cancel by (simp add: le_floor_iff)
    then show ?thesis unfolding re by (intro mult_right_mono) simp_all
  qed
  show "v \<le> r"
  proof (cases "adjusted v = adjusted p")
    case True
    then have "grid_exp md v = ?k" by (simp add: grid_exp_def)
    with valid_price_scaled [OF v(1) assms(3)] obtain n where n: "v * pow10 (- ?k) = of_int n"
      by (auto elim: is_intE)
    have "of_int n * pow10 ?k = v" unfolding n [symmetric] by (rule pow10_cancel)
    with below [of n] v(2) show ?thesis by simp
  next
    case False
    with av have lt: "adjusted v + 1 \<le> adjusted p" by simp
    have "?k \<le> adjusted p"
    proof (rule ccontr)
      assume "\<not> ?k \<le> adjusted p"
      then have "?k = - md" "adjusted v + 1 \<le> - md" using lt assms(3) by (auto simp: grid_exp_def)
      then have "v < pow10 (- md)"
        using adjusted_bounds(2) [of v] v0 pow10_le_iff [of "adjusted v + 1" "- md"] by linarith
      with valid_price_min [OF v(1) assms(3)] show False by simp
    qed
    then have e: "of_int (10 ^ nat (adjusted p - ?k)) * pow10 ?k = pow10 (adjusted p)"
      by (subst pow10_nonneg_int [symmetric]) (simp_all add: pow10_add [symmetric])
    have "v < pow10 (adjusted v + 1)" using adjusted_bounds(2) [of v] v0 by simp
    also have "\<dots> \<le> pow10 (adjusted p)" using lt by (simp only: pow10_le_iff)
    also have "\<dots> \<le> r" unfolding e [symmetric]
      by (rule below) (use adjusted_bounds(1) [of p] assms(2) e in simp)
    finally show ?thesis by simp
  qed
qed

section \<open>Prices\<close>

text \<open>
  What a client of the price grid relies on: one rounding that never goes below its argument
  and one that never goes above it, both returning valid prices and moving no further than
  needed. \<open>up\<close> and \<open>down\<close> are the two directions on representable prices.
\<close>

locale price_rounding =
  fixes up down :: "dec \<Rightarrow> dec result"
    and valid :: "dec \<Rightarrow> bool"
  assumes up_ge: "rep p \<Longrightarrow> up p = Inr r \<Longrightarrow> p \<le> r \<and> valid r"
    and up_least: "rep p \<Longrightarrow> up p = Inr r \<Longrightarrow> valid v \<Longrightarrow> p \<le> v \<Longrightarrow> r \<le> v"
    and down_le: "rep p \<Longrightarrow> down p = Inr r \<Longrightarrow> r \<le> p \<and> valid r"
    and down_greatest: "rep p \<Longrightarrow> down p = Inr r \<Longrightarrow> valid v \<Longrightarrow> v \<le> p \<Longrightarrow> v \<le> r"
begin

lemma valid_fixed: "rep v \<Longrightarrow> valid v \<Longrightarrow> up v = Inr r \<Longrightarrow> down v = Inr r' \<Longrightarrow> r = v \<and> r' = v"
  using up_ge [of v r] up_least [of v r v] down_le [of v r'] down_greatest [of v r' v] by auto

lemma bracket: "rep p \<Longrightarrow> up p = Inr r \<Longrightarrow> down p = Inr r' \<Longrightarrow> r' \<le> p \<and> p \<le> r"
  using up_ge [of p r] down_le [of p r'] by simp

lemma no_valid_between:
  "rep p \<Longrightarrow> up p = Inr r \<Longrightarrow> down p = Inr r' \<Longrightarrow> valid v \<Longrightarrow> r' < v \<Longrightarrow> r \<le> v"
  using up_least [of p r v] down_greatest [of p r' v] by (meson le_cases not_less)

end

interpretation grid: price_rounding
  "round_to_grid ROUND_CEILING md" "round_to_grid ROUND_FLOOR md" "valid_price md" for md
  by unfold_locales
    (auto simp: round_to_grid_Inr_iff intro: grid_valid grid_ceiling_least grid_floor_greatest)

lemma round_up_total:
  assumes "rep p" "0 < p" "0 \<le> md" "md \<le> 18"
  shows "\<exists>r. round_to_grid ROUND_CEILING md p = Inr r"
proof -
  have "p \<le> grid_step ROUND_CEILING p (pow10 (grid_exp md p))"
    using grid_ceiling_least(1) [OF assms(1-3) refl] .
  with assms show ?thesis by (simp add: round_to_grid_eq Let_def)
qed

lemma round_to_grid_rep: "round_to_grid m md p = Inr r \<Longrightarrow> rep r"
  by (auto simp: round_to_grid_Inr_iff grid_step_def)

text \<open>
  C17: the adverse price of a representable positive price never improves the fill, obeys the
  venue's price rule, and is the closest valid price in that direction.
\<close>

theorem adverse_price_nearest:
  assumes "rep p" and "adverse_price p sd md = Inr r"
  shows "valid_price md r \<and>
    (case sd of BUY \<Rightarrow> p \<le> r \<and> (\<forall>v. valid_price md v \<and> p \<le> v \<longrightarrow> r \<le> v)
              | SELL \<Rightarrow> r \<le> p \<and> (\<forall>v. valid_price md v \<and> v \<le> p \<longrightarrow> v \<le> r))"
  using assms grid.up_ge [of p md r] grid.up_least [of p md r]
    grid.down_le [of p md r] grid.down_greatest [of p md r]
  by (cases sd) (auto simp: adverse_price_def)

theorem adverse_price_nearest_witness:
  "adverse_price (5000111 / 100) BUY 1 = Inr 50002 \<and> valid_price 1 50002 \<and> 5000111 / 100 \<le> (50002::dec)"
proof -
  have "rep (5000111 / 100)" using rep_decimal [of 5000111 2] by simp
  moreover have "adverse_price (5000111 / 100) BUY 1 = Inr 50002" by code_simp
  ultimately show ?thesis using adverse_price_nearest [of "5000111 / 100" BUY 1 50002] by simp
qed

text \<open>
  a protective limit never widens its band: a BUY limit is at most the unrounded price, a
  SELL limit at least, and the limit is the closest valid price there.
\<close>

theorem protective_price_nearest:
  assumes "rep p" and "protective_price p sd md = Inr r"
  shows "valid_price md r \<and>
    (case sd of BUY \<Rightarrow> r \<le> p \<and> (\<forall>v. valid_price md v \<and> v \<le> p \<longrightarrow> v \<le> r)
              | SELL \<Rightarrow> p \<le> r \<and> (\<forall>v. valid_price md v \<and> p \<le> v \<longrightarrow> r \<le> v))"
  using assms grid.up_ge [of p md r] grid.up_least [of p md r]
    grid.down_le [of p md r] grid.down_greatest [of p md r]
  by (cases sd) (auto simp: protective_price_def)

theorem protective_price_nearest_witness:
  "protective_price (5000111 / 100) BUY 1 = Inr 50001 \<and> valid_price 1 50001 \<and> 50001 \<le> (5000111 / 100::dec)"
proof -
  have "rep (5000111 / 100)" using rep_decimal [of 5000111 2] by simp
  moreover have "protective_price (5000111 / 100) BUY 1 = Inr 50001" by code_simp
  ultimately show ?thesis using protective_price_nearest [of "5000111 / 100" BUY 1 50001] by simp
qed

section \<open>Sizes\<close>

definition on_lot :: "dec \<Rightarrow> dec \<Rightarrow> bool" where
  "on_lot increment q \<longleftrightarrow> is_int (q / increment)"

lemma size_increment_Inr: "0 \<le> sz \<Longrightarrow> sz \<le> 18 \<Longrightarrow> size_increment sz = Inr (pow10 (- sz))"
  by (simp add: size_increment_def)

lemma floor_size_pow10:
  "0 \<le> q \<Longrightarrow> floor_size q (pow10 k) =
    Inr (dec_round (of_int \<lfloor>dec_round q * pow10 (- k)\<rfloor> * pow10 k))"
proof -
  assume q: "0 \<le> q"
  have "q / pow10 k = q * pow10 (- k)" by (simp add: power_int_minus divide_inverse)
  moreover have "0 \<le> dec_round q * pow10 (- k)" using q by (simp add: ctx.rnd_nonneg_iff)
  ultimately show ?thesis
    using q by (simp add: not_le floor_size_def dmul_def ddiv_def to_integral_value_def dec_round_scale)
qed

lemma floor_size_rep: "floor_size q inc = Inr r \<Longrightarrow> rep r"
  by (auto simp: floor_size_def split: if_splits)

lemma floor_size_nonneg: "floor_size q inc = Inr r \<Longrightarrow> 0 \<le> r"
  by (auto simp: floor_size_def dmul_def ddiv_def to_integral_value_def ctx.rnd_nonneg_iff
      split: if_splits)

lemma dec_round_rel_error: "\<bar>dec_round x - x\<bar> \<le> \<bar>x\<bar> / (2 * 10 ^ 27)"
proof (cases "x = 0")
  case False
  have "ulp x = pow10 (adjusted x) / 10 ^ 27" unfolding ulp_def pow10_diff by simp
  then have "ulp x \<le> \<bar>x\<bar> / 10 ^ 27"
    using adjusted_bounds(1) [OF False] by (simp add: divide_right_mono)
  with dec_round_error [OF False] show ?thesis by simp
qed simp

lemma dec_round_upper: "0 \<le> x \<Longrightarrow> dec_round x \<le> x * (1 + 1 / (2 * 10 ^ 27))"
  using dec_round_rel_error [of x] by (simp add: algebra_simps abs_if split: if_splits)

text \<open>The code reads a size through the context first: only its rounding to 28 digits matters.\<close>

lemma floor_size_context:
  "0 \<le> q \<Longrightarrow> floor_size q (pow10 k) = floor_size (dec_round q) (pow10 k)"
  by (simp add: floor_size_pow10 ctx.rnd_nonneg_iff)

text \<open>
  The engine's lots are powers of ten. A size never rounds up past a representable bound that
  is itself on the lot, whatever the number of digits of the size.
\<close>

lemma on_lot_pow10: "on_lot (pow10 k) w \<longleftrightarrow> is_int (w * pow10 (- k))"
  by (simp add: on_lot_def power_int_minus divide_inverse)

lemma floor_size_le_lot:
  assumes r: "floor_size q (pow10 k) = Inr r" and w: "rep w" "on_lot (pow10 k) w" and le: "q \<le> w"
  shows "r \<le> w"
proof -
  from w(2) obtain n where n: "w * pow10 (- k) = of_int n" by (auto simp: on_lot_pow10 elim: is_intE)
  from r have q: "0 \<le> q" by (auto simp: floor_size_def split: if_splits)
  have "dec_round q * pow10 (- k) \<le> w * pow10 (- k)"
    using w(1) le by (intro mult_right_mono ctx.rnd_le_rep) (simp_all add: rep_def)
  then have "of_int \<lfloor>dec_round q * pow10 (- k)\<rfloor> \<le> w * pow10 (- k)"
    using of_int_floor_le order_trans by blast
  then have "of_int \<lfloor>dec_round q * pow10 (- k)\<rfloor> * pow10 k \<le> w * pow10 (- k) * pow10 k"
    by (rule mult_right_mono) simp
  then have "of_int \<lfloor>dec_round q * pow10 (- k)\<rfloor> * pow10 k \<le> w" unfolding pow10_cancel .
  then have "dec_round (of_int \<lfloor>dec_round q * pow10 (- k)\<rfloor> * pow10 k) \<le> w"
    using w(1) by (intro ctx.rnd_le_rep) (simp add: rep_def)
  with r show ?thesis by (simp add: floor_size_pow10 [OF q])
qed

lemma floor_size_exact:
  assumes "rep q" "0 \<le> q"
  shows "floor_size q (pow10 k) = Inr (of_int \<lfloor>q * pow10 (- k)\<rfloor> * pow10 k)"
proof -
  let ?y = "q * pow10 (- k)"
  have "dec_round (of_int \<lfloor>?y\<rfloor> * pow10 k) = of_int \<lfloor>?y\<rfloor> * pow10 k"
  proof (cases "?y < pow10 28")
    case True
    then have "\<lfloor>?y\<rfloor> \<le> 10 ^ 28" "0 \<le> \<lfloor>?y\<rfloor>" using assms(2) by (simp_all add: floor_le_iff)
    then show ?thesis by (intro dec_round_exact) (simp only: abs_of_nonneg)
  next
    case False
    then have "is_int ?y" using assms(1) by (intro rep_large_is_int) simp_all
    then have "of_int \<lfloor>?y\<rfloor> = ?y" by (simp only: is_int_def)
    then have "of_int \<lfloor>?y\<rfloor> * pow10 k = q" by (simp only: pow10_cancel)
    then show ?thesis using assms(1) by (simp only: rep_def)
  qed
  with assms show ?thesis by (simp add: floor_size_pow10 rep_def)
qed

lemma floor_size_on_lot:
  assumes "rep q" "floor_size q (pow10 k) = Inr r"
  shows "on_lot (pow10 k) r"
proof -
  have "0 \<le> q" using assms(2) by (auto simp: floor_size_def split: if_splits)
  with assms have "r = of_int \<lfloor>q * pow10 (- k)\<rfloor> * pow10 k" by (simp add: floor_size_exact)
  then have "r * pow10 (- k) = of_int \<lfloor>q * pow10 (- k)\<rfloor>" by (simp only: pow10_cancel)
  then show ?thesis by (simp add: on_lot_pow10)
qed

lemma floor_size_is_largest:
  assumes "rep q" and "0 \<le> sz" and "size_increment sz = Inr inc" and "floor_size q inc = Inr r"
  shows "on_lot inc r \<and> r \<le> q \<and> (\<forall>v. on_lot inc v \<and> v \<le> q \<longrightarrow> v \<le> r)"
proof -
  let ?k = "- sz"
  from assms(2,3) have inc: "inc = pow10 ?k" by (auto simp: size_increment_def split: if_splits)
  have q: "0 \<le> q" using assms(4) by (auto simp: floor_size_def split: if_splits)
  have r: "r = of_int \<lfloor>q * pow10 (- ?k)\<rfloor> * pow10 ?k"
    using assms(4) unfolding inc by (simp add: floor_size_exact [OF assms(1) q])
  have "r \<le> q * pow10 (- ?k) * pow10 ?k" unfolding r by (rule mult_right_mono) simp_all
  then have le: "r \<le> q" unfolding pow10_cancel .
  have "v \<le> r" if v: "on_lot inc v" "v \<le> q" for v
  proof -
    from v(1) obtain n where n: "v * pow10 (- ?k) = of_int n"
      unfolding inc on_lot_pow10 by (auto elim: is_intE)
    have "of_int n \<le> q * pow10 (- ?k)" unfolding n [symmetric] using v(2) by (rule mult_right_mono) simp
    then have "n \<le> \<lfloor>q * pow10 (- ?k)\<rfloor>" by (simp add: le_floor_iff)
    then have "of_int n * pow10 ?k \<le> r" unfolding r by (intro mult_right_mono) simp_all
    then show ?thesis unfolding n [symmetric] pow10_cancel .
  qed
  with le show ?thesis using floor_size_on_lot [OF assms(1)] assms(4) unfolding inc by blast
qed



text \<open>
  C19: the exact reach of that promise, for a size of any number of digits. The code divides in
  the 28-digit context, so what is rounded down is the size read to 28 digits: the result is the
  largest multiple of the lot not above that reading. It is above the size itself exactly when
  the reading steps over a multiple of the lot, and then by at most one part in \<open>2 * 10 ^ 27\<close>.
\<close>

theorem floor_size_exceeds_iff:
  assumes "size_increment sz = Inr inc" and "floor_size x inc = Inr s"
  shows "on_lot inc s \<and> s \<le> dec_round x \<and> (\<forall>m. on_lot inc m \<and> m \<le> dec_round x \<longrightarrow> m \<le> s)
    \<and> (x < s \<longleftrightarrow> (\<exists>m. on_lot inc m \<and> x < m \<and> m \<le> dec_round x))
    \<and> s \<le> x * (1 + 1 / (2 * 10 ^ 27))"
proof -
  from assms(1) have inc: "inc = pow10 (- sz)" "0 \<le> sz" by (auto simp: size_increment_def split: if_splits)
  have x: "0 \<le> x" using assms(2) by (auto simp: floor_size_def split: if_splits)
  have s: "floor_size (dec_round x) inc = Inr s"
    using assms(2) unfolding inc(1) floor_size_context [OF x] .
  note largest = floor_size_is_largest [OF _ inc(2) assms(1) s]
  moreover have "s \<le> x * (1 + 1 / (2 * 10 ^ 27))"
    using largest dec_round_upper [OF x] by (simp add: rep_def)
  ultimately show ?thesis by (auto simp: rep_def intro: less_le_trans)
qed

lemma dec_round_30_nines: "dec_round (1 - 1 / 10 ^ 30) = 1"
proof -
  let ?x = "1 - 1 / 10 ^ 30 :: dec"
  have "adjusted ?x = - 1" by (rule adjusted_eqI) (simp_all add: power_int_minus)
  then have "ulp ?x = 1 / 10 ^ 28" unfolding ulp_def by (simp only:) (simp add: power_int_minus)
  then have "dec_round ?x = of_int (round_half_even (?x / (1 / 10 ^ 28))) * (1 / 10 ^ 28)"
    unfolding dec_round_def by (simp only:) simp
  also have "round_half_even (?x / (1 / 10 ^ 28)) = 10 ^ 28"
    by (simp add: round_half_even_def Let_def)
  finally show ?thesis by simp
qed

text \<open>A size of thirty nines after the point, at a lot of 1: the result is 1, more than the size.\<close>

theorem floor_size_exceeds_iff_witness:
  "floor_size (1 - 1 / 10 ^ 30) 1 = Inr 1
    \<and> on_lot 1 1 \<and> (1 :: dec) \<le> dec_round (1 - 1 / 10 ^ 30)
    \<and> (\<exists>m. on_lot 1 m \<and> 1 - 1 / 10 ^ 30 < m \<and> m \<le> dec_round (1 - 1 / 10 ^ 30))"
proof -
  have f: "floor_size (1 - 1 / 10 ^ 30) 1 = Inr 1"
    using floor_size_pow10 [of "1 - 1 / 10 ^ 30" 0] dec_round_30_nines by simp
  have "size_increment 0 = Inr 1" by code_simp
  from floor_size_exceeds_iff [OF this f] f show ?thesis by auto
qed

end
