(* ===== verification/Execution.thy ===== *)
theory Execution
  imports Precision
begin

text \<open>
  \<^verbatim>\<open>paper_engine/execution.py\<close>: the price of one aggressive fill against a touch
  (\<open>quote_taker_fill\<close>), the linear-perpetual cash ledger it moves (\<open>apply_fill\<close>), and the
  mark-to-market value of a position. The ledger equation is proved for exact arithmetic and
  the cash column is bounded for the rounded one.
\<close>

section \<open>State and operations\<close>

datatype fill_source = FromBbo | FromTrade

record fill_quote =
  fq_side :: side
  fq_quantity :: dec
  fq_price :: dec
  fq_fee_usdc :: dec
  fq_source :: fill_source

record position_state =
  ps_cash_usdc :: dec
  ps_position_quantity :: dec
  ps_average_entry_price :: dec
  ps_realized_pnl_usdc :: dec
  ps_fees_usdc :: dec

definition slipped_price :: "side \<Rightarrow> dec \<Rightarrow> dec \<Rightarrow> dec" where
  "slipped_price sd touch_price slippage =
     (if sd = BUY then dmul touch_price (dadd 1 slippage) else dmul touch_price (dsub 1 slippage))"

definition quote_taker_fill ::
  "side \<Rightarrow> dec \<Rightarrow> dec option \<Rightarrow> dec option \<Rightarrow> dec \<Rightarrow> dec \<Rightarrow> dec \<Rightarrow> int \<Rightarrow> fill_source
    \<Rightarrow> fill_quote option result" where
  "quote_taker_fill sd quantity touch_price touch_size slippage_fraction taker_fee_rate
      size_inc max_price_decimals source =
     (if quantity \<le> 0 then Inl (ValueError ''quantity must be a finite positive decimal.'')
      else case touch_price of
        None \<Rightarrow> Inr None
      | Some tp \<Rightarrow> (case touch_size of
          None \<Rightarrow> Inr None
        | Some ts \<Rightarrow>
            if tp \<le> 0 then Inr None
            else if ts \<le> 0 then Inr None
            else if slippage_fraction < 0
              then Inl (ValueError ''slippage_fraction must be a finite non-negative decimal.'')
            else if taker_fee_rate < 0
              then Inl (ValueError ''taker_fee_rate must be a finite non-negative decimal.'')
            else if slipped_price sd tp slippage_fraction \<le> 0 then Inr None
            else res_bind (adverse_price (slipped_price sd tp slippage_fraction) sd max_price_decimals)
              (\<lambda>price. res_bind (floor_size (min quantity ts) size_inc)
                (\<lambda>filled.
                  if filled \<le> 0 then Inr None
                  else Inr (Some \<lparr>fq_side = sd, fq_quantity = filled, fq_price = price,
                    fq_fee_usdc = dmul (dmul price filled) taker_fee_rate,
                    fq_source = source\<rparr>)))))"

definition same_direction :: "dec \<Rightarrow> dec \<Rightarrow> bool" where
  "same_direction left right \<longleftrightarrow> (left > 0 \<and> right > 0) \<or> (left < 0 \<and> right < 0)"

text \<open>
  The ledger arithmetic is written over the rounding \<open>r\<close>: \<open>apply_fill\<close> is the code's, with the
  context rounding; \<open>apply_fill_exact\<close> is the same ledger without rounding.
\<close>

definition closed_pnl_with :: "(dec \<Rightarrow> dec) \<Rightarrow> dec \<Rightarrow> dec \<Rightarrow> dec \<Rightarrow> bool \<Rightarrow> dec" where
  "closed_pnl_with r closed_quantity fill_price average_entry long_position =
     r (r (closed_quantity * r (fill_price - average_entry)) * (if long_position then 1 else - 1))"

definition apply_fill_with :: "(dec \<Rightarrow> dec) \<Rightarrow> position_state \<Rightarrow> fill_quote \<Rightarrow> position_state result" where
  "apply_fill_with r st fl =
     (let signed = (if fq_side fl = BUY then fq_quantity fl else r (- fq_quantity fl));
          cash = (if fq_side fl = BUY
                  then r (r (ps_cash_usdc st - r (fq_price fl * fq_quantity fl)) - fq_fee_usdc fl)
                  else r (r (ps_cash_usdc st + r (fq_price fl * fq_quantity fl)) - fq_fee_usdc fl));
          old = ps_position_quantity st;
          new = r (old + signed);
          realized = ps_realized_pnl_usdc st;
          average = ps_average_entry_price st;
          finish = (\<lambda>realized average. Inr \<lparr>ps_cash_usdc = cash, ps_position_quantity = new,
            ps_average_entry_price = (if new = 0 then 0 else average),
            ps_realized_pnl_usdc = realized,
            ps_fees_usdc = r (ps_fees_usdc st + fq_fee_usdc fl)\<rparr>)
      in if old = 0 \<or> same_direction old signed then
           (let new_abs = r \<bar>new\<bar> in
            if new_abs = 0 then Inl ZeroDivisionError
            else finish realized
              (r (r (r (r \<bar>old\<bar> * average) + r (fq_quantity fl * fq_price fl)) / new_abs)))
         else if new = 0 \<or> same_direction old new then
           finish (r (realized + closed_pnl_with r (fq_quantity fl) (fq_price fl) average (old > 0))) average
         else
           finish (r (realized + closed_pnl_with r (r \<bar>old\<bar>) (fq_price fl) average (old > 0)))
             (fq_price fl))"

definition closed_pnl :: "dec \<Rightarrow> dec \<Rightarrow> dec \<Rightarrow> bool \<Rightarrow> dec" where
  "closed_pnl = closed_pnl_with dec_round"

definition apply_fill :: "position_state \<Rightarrow> fill_quote \<Rightarrow> position_state result" where
  "apply_fill = apply_fill_with dec_round"

definition apply_fill_exact :: "position_state \<Rightarrow> fill_quote \<Rightarrow> position_state result" where
  "apply_fill_exact = apply_fill_with (\<lambda>x. x)"

definition unrealized_pnl :: "dec \<Rightarrow> dec \<Rightarrow> dec option \<Rightarrow> dec option" where
  "unrealized_pnl position_quantity average_entry_price mark_price =
     (if position_quantity = 0 then Some 0
      else case mark_price of
        None \<Rightarrow> None
      | Some mark \<Rightarrow>
          if mark \<le> 0 then None
          else Some (dmul position_quantity (dsub mark average_entry_price)))"

section \<open>The quote\<close>

text \<open>Everything a quote promises, on inputs of any number of digits.\<close>

lemma quote_taker_fill_Some:
  assumes "quote_taker_fill sd qty tp ts slip fee inc md src = Inr (Some q)"
  obtains p z where "tp = Some p" "ts = Some z" "0 < p" "0 < z" "0 < qty" "0 \<le> slip" "0 \<le> fee"
    "adverse_price (slipped_price sd p slip) sd md = Inr (fq_price q)"
    "floor_size (min qty z) inc = Inr (fq_quantity q)" "0 < fq_quantity q"
    "fq_fee_usdc q = dmul (dmul (fq_price q) (fq_quantity q)) fee" "fq_side q = sd" "fq_source q = src"
proof -
  from assms have "0 < qty" by (auto simp: quote_taker_fill_def split: if_splits)
  from assms obtain p z where pz: "tp = Some p" "ts = Some z"
    by (auto simp: quote_taker_fill_def split: if_splits option.splits)
  from assms have "0 < p" "0 < z" "0 \<le> slip" "0 \<le> fee"
    by (auto simp: quote_taker_fill_def pz split: if_splits)
  moreover from assms this \<open>0 < qty\<close> obtain price filled where
    "adverse_price (slipped_price sd p slip) sd md = Inr price"
    "floor_size (min qty z) inc = Inr filled" "0 < filled"
    "q = \<lparr>fq_side = sd, fq_quantity = filled, fq_price = price,
      fq_fee_usdc = dmul (dmul price filled) fee, fq_source = src\<rparr>"
    by (auto simp: quote_taker_fill_def pz res_bind_Inr_iff not_le split: if_splits)
  ultimately show ?thesis using that pz \<open>0 < qty\<close> by simp
qed

lemma quote_quantity_rep:
  "quote_taker_fill sd qty tp ts slip fee inc md src = Inr (Some q) \<Longrightarrow> rep (fq_quantity q)"
  by (erule quote_taker_fill_Some) (simp add: floor_size_rep)

lemma adverse_price_rep: "adverse_price p sd md = Inr r \<Longrightarrow> rep r"
  by (simp add: adverse_price_def round_to_grid_rep)

lemma adverse_price_pos: "adverse_price p sd md = Inr r \<Longrightarrow> 0 < r"
  by (simp add: adverse_price_def round_to_grid_Inr_iff)

lemma quote_price_pos:
  "quote_taker_fill sd qty tp ts slip fee inc md src = Inr (Some q) \<Longrightarrow> 0 < fq_price q \<and> rep (fq_price q)"
  by (erule quote_taker_fill_Some) (simp add: adverse_price_pos adverse_price_rep)

lemma slipped_price_rep [simp]: "rep (slipped_price sd p s)"
  by (simp add: slipped_price_def)

lemma slipped_price_adverse:
  assumes "0 < p" "0 \<le> s"
  shows "case sd of BUY \<Rightarrow> dec_round p \<le> slipped_price sd p s | SELL \<Rightarrow> slipped_price sd p s \<le> dec_round p"
proof (cases sd)
  case BUY
  have "1 \<le> dadd 1 s" unfolding dadd_def using assms(2) by (intro ctx.rnd_ge_rep) simp_all
  then have "p * 1 \<le> p * dadd 1 s" using assms(1) by (intro mult_left_mono) simp_all
  then show ?thesis using BUY unfolding slipped_price_def dmul_def by (simp add: dec_round_mono)
next
  case SELL
  have "dsub 1 s \<le> 1" unfolding dsub_def using assms(2) by (intro ctx.rnd_le_rep) simp_all
  then have "p * dsub 1 s \<le> p * 1" using assms(1) by (intro mult_left_mono) simp_all
  then show ?thesis using SELL unfolding slipped_price_def dmul_def by (simp add: dec_round_mono)
qed

text \<open>
  C15: a simulated fill is never better than the touch it is priced against, obeys the venue's
  price rule, takes no more than the displayed size or the order, and pays the taker fee. The
  touch and the sizes are compared as the 28-digit context reads them (\<open>dec_round\<close>), which is
  what the code computes with; for values of at most 28 digits the reading is the value itself,
  and the last three conjuncts say the same of the values.
\<close>

theorem quote_never_better_than_touch:
  assumes "quote_taker_fill sd qty (Some p) (Some z) slip fee inc md src = Inr (Some q)"
    and "size_increment sz = Inr inc"
  shows "fq_side q = sd \<and> valid_price md (fq_price q)
    \<and> (case sd of BUY \<Rightarrow> dec_round p \<le> fq_price q | SELL \<Rightarrow> fq_price q \<le> dec_round p)
    \<and> on_lot inc (fq_quantity q) \<and> 0 < fq_quantity q
    \<and> fq_quantity q \<le> dec_round qty \<and> fq_quantity q \<le> dec_round z
    \<and> fq_fee_usdc q = dmul (dmul (fq_price q) (fq_quantity q)) fee \<and> 0 \<le> fq_fee_usdc q
    \<and> (rep p \<longrightarrow> (case sd of BUY \<Rightarrow> p \<le> fq_price q | SELL \<Rightarrow> fq_price q \<le> p))
    \<and> (rep qty \<longrightarrow> fq_quantity q \<le> qty) \<and> (rep z \<longrightarrow> fq_quantity q \<le> z)"
proof -
  from assms(1) have q: "0 < p" "0 \<le> slip" "0 \<le> fee"
    "adverse_price (slipped_price sd p slip) sd md = Inr (fq_price q)"
    "floor_size (min qty z) inc = Inr (fq_quantity q)" "0 < fq_quantity q" "fq_side q = sd"
    "fq_fee_usdc q = dmul (dmul (fq_price q) (fq_quantity q)) fee"
    by (auto elim: quote_taker_fill_Some)
  let ?s = "slipped_price sd p slip"
  have price: "valid_price md (fq_price q)"
    "case sd of BUY \<Rightarrow> ?s \<le> fq_price q | SELL \<Rightarrow> fq_price q \<le> ?s"
    using q(4) grid.up_ge [of ?s md] grid.down_le [of ?s md]
    by (cases sd; simp add: adverse_price_def)+
  have touch: "case sd of BUY \<Rightarrow> dec_round p \<le> fq_price q | SELL \<Rightarrow> fq_price q \<le> dec_round p"
    using price(2) slipped_price_adverse [OF q(1,2), of sd] by (cases sd) auto
  have inc: "inc = pow10 (- sz)" "0 \<le> sz" using assms(2) by (auto simp: size_increment_def split: if_splits)
  have m: "0 \<le> min qty z" using q(5) by (auto simp: floor_size_def split: if_splits)
  have "floor_size (dec_round (min qty z)) inc = Inr (fq_quantity q)"
    using q(5) unfolding inc(1) floor_size_context [OF m] .
  from floor_size_is_largest [OF _ inc(2) assms(2) this]
  have lot: "on_lot inc (fq_quantity q)" "fq_quantity q \<le> dec_round (min qty z)"
    by (simp_all add: rep_def)
  have "fq_quantity q \<le> dec_round qty" "fq_quantity q \<le> dec_round z"
    using lot(2) dec_round_mono [of "min qty z"] by (meson min.cobounded1 min.cobounded2 order_trans)+
  moreover have "0 < fq_price q" using q(4) by (rule adverse_price_pos)
  ultimately show ?thesis
    using price(1) touch lot(1) q(3,6-8) by (cases sd) (auto simp: dmul_nonneg rep_def)
qed

theorem quote_never_better_than_touch_witness:
  "\<exists>q. quote_taker_fill BUY (15 / 100) (Some 50000) (Some (1 / 10)) (1 / 1000) (45 / 100000) (1 / 100000) 1 FromBbo
      = Inr (Some q) \<and> 50000 \<le> fq_price q \<and> fq_quantity q \<le> 1 / 10"
proof -
  let ?q = "\<lparr>fq_side = BUY, fq_quantity = 1 / 10, fq_price = 50050, fq_fee_usdc = 900900 / 400000,
    fq_source = FromBbo\<rparr>"
  have q: "quote_taker_fill BUY (15 / 100) (Some 50000) (Some (1 / 10)) (1 / 1000) (45 / 100000)
      (1 / 100000) 1 FromBbo = Inr (Some ?q)" by code_simp
  have i: "size_increment 5 = Inr (1 / 100000)" by code_simp
  have "rep 50000" "rep (1 / 10)" using rep_decimal [of 50000 0] rep_decimal [of 1 1] by simp_all
  then show ?thesis
    using q quote_never_better_than_touch [OF q i] by auto
qed

section \<open>The ledger\<close>

text \<open>Without rounding, cash plus the position at its average entry moves only by realized PnL and fees.\<close>

definition book_value :: "position_state \<Rightarrow> dec" where
  "book_value st = ps_cash_usdc st + ps_position_quantity st * ps_average_entry_price st
     - ps_realized_pnl_usdc st + ps_fees_usdc st"

definition signed_quantity :: "fill_quote \<Rightarrow> dec" where
  "signed_quantity fl = (if fq_side fl = BUY then fq_quantity fl else - fq_quantity fl)"

lemma same_direction_iff: "same_direction a b \<longleftrightarrow> 0 < a * b"
  by (auto simp: same_direction_def zero_less_mult_iff)

lemma same_direction_add: "same_direction a b \<Longrightarrow> \<bar>a + b\<bar> = \<bar>a\<bar> + \<bar>b\<bar> \<and> a + b \<noteq> 0"
  by (auto simp: same_direction_def)

lemma apply_fill_exact_cases:
  assumes "apply_fill_exact st fl = Inr t"
  shows "ps_cash_usdc t = ps_cash_usdc st - fq_price fl * signed_quantity fl - fq_fee_usdc fl"
    and "ps_fees_usdc t = ps_fees_usdc st + fq_fee_usdc fl"
    and "ps_position_quantity t = ps_position_quantity st + signed_quantity fl"
  using assms
  by (auto simp: apply_fill_exact_def apply_fill_with_def signed_quantity_def Let_def split: if_splits)

text \<open>
  C16: the ledger equation. Cash plus the position valued at its average entry, minus realized
  PnL, plus fees, is the same before and after a fill in every branch: opening, adding,
  reducing, closing and flipping.
\<close>

theorem apply_fill_exact_conserves:
  assumes "0 < fq_quantity fl" and "apply_fill_exact st fl = Inr t"
  shows "book_value t = book_value st"
proof -
  let ?old = "ps_position_quantity st" and ?avg = "ps_average_entry_price st"
  let ?s = "signed_quantity fl" and ?p = "fq_price fl"
  note c = apply_fill_exact_cases [OF assms(2)]
  have q: "\<bar>?s\<bar> = fq_quantity fl" using assms(1) by (simp add: signed_quantity_def)
  consider (add) "?old = 0 \<or> same_direction ?old ?s"
    | (reduce) "\<not> (?old = 0 \<or> same_direction ?old ?s)" "?old + ?s = 0 \<or> same_direction ?old (?old + ?s)"
    | (flip) "\<not> (?old = 0 \<or> same_direction ?old ?s)" "\<not> (?old + ?s = 0 \<or> same_direction ?old (?old + ?s))"
    by blast
  then have "ps_position_quantity t * ps_average_entry_price t - ps_realized_pnl_usdc t
      = ?old * ?avg - ps_realized_pnl_usdc st + ?s * ?p"
  proof cases
    case add
    let ?g = "sgn (?old + ?s)"
    from add have nz: "?old + ?s \<noteq> 0"
      using same_direction_add [of ?old ?s] assms(1) by (auto simp: signed_quantity_def)
    from assms(2) add nz have t: "ps_realized_pnl_usdc t = ps_realized_pnl_usdc st"
      "ps_average_entry_price t = (\<bar>?old\<bar> * ?avg + fq_quantity fl * ?p) / \<bar>?old + ?s\<bar>"
      by (auto simp: apply_fill_exact_def apply_fill_with_def signed_quantity_def Let_def split: if_splits)
    have old: "?g * \<bar>?old\<bar> = ?old" using add assms(1)
      by (auto simp: same_direction_def sgn_if abs_if)
    have new: "?g * fq_quantity fl = ?s" using add assms(1)
      by (auto simp: same_direction_def sgn_if abs_if signed_quantity_def split: if_splits)
    have "(?old + ?s) / \<bar>?old + ?s\<bar> = ?g" using nz by (simp add: divide_eq_eq mult_sgn_abs)
    then have "(?old + ?s) * ps_average_entry_price t = ?g * (\<bar>?old\<bar> * ?avg + fq_quantity fl * ?p)"
      unfolding t(2) by (metis times_divide_eq_left times_divide_eq_right)
    also have "\<dots> = ?old * ?avg + ?s * ?p"
      unfolding distrib_left mult.assoc [symmetric] old new ..
    finally show ?thesis by (simp add: c(3) t(1))
  next
    case reduce
    with assms(2) have t: "ps_realized_pnl_usdc t = ps_realized_pnl_usdc st +
        \<bar>?s\<bar> * (?p - ?avg) * (if 0 < ?old then 1 else - 1)"
      "ps_average_entry_price t = (if ?old + ?s = 0 then 0 else ?avg)"
      unfolding q
      by (auto simp: apply_fill_exact_def apply_fill_with_def closed_pnl_with_def signed_quantity_def
          Let_def split: if_splits)
    have "\<bar>?s\<bar> * (if 0 < ?old then 1 else - 1) = - ?s"
      using reduce by (auto simp: same_direction_def abs_if split: if_splits)
    then have e: "ps_realized_pnl_usdc t = ps_realized_pnl_usdc st - ?s * (?p - ?avg)"
      unfolding t(1) by (metis (no_types, opaque_lifting) add_uminus_conv_diff minus_mult_left mult.assoc mult.commute)
    have "ps_position_quantity t * ps_average_entry_price t = (?old + ?s) * ?avg"
      unfolding c(3) t(2) by simp
    with e show ?thesis by (simp add: algebra_simps)
  next
    case flip
    with assms(2) have t: "ps_realized_pnl_usdc t = ps_realized_pnl_usdc st +
        \<bar>?old\<bar> * (?p - ?avg) * (if 0 < ?old then 1 else - 1)"
      "ps_average_entry_price t = ?p"
      by (auto simp: apply_fill_exact_def apply_fill_with_def closed_pnl_with_def signed_quantity_def
          Let_def split: if_splits)
    have "\<bar>?old\<bar> * (if 0 < ?old then 1 else - 1) = ?old" by (simp add: abs_if)
    then have "ps_realized_pnl_usdc t = ps_realized_pnl_usdc st + ?old * (?p - ?avg)"
      unfolding t(1) by (metis mult.assoc mult.commute)
    then show ?thesis unfolding c(3) t(2) by (simp add: algebra_simps)
  qed
  then show ?thesis by (simp add: book_value_def c(1,2) algebra_simps)
qed

definition example_fill :: fill_quote where
  "example_fill = \<lparr>fq_side = SELL, fq_quantity = 3, fq_price = 110, fq_fee_usdc = 1, fq_source = FromBbo\<rparr>"

definition example_long :: position_state where
  "example_long = \<lparr>ps_cash_usdc = 1000, ps_position_quantity = 5, ps_average_entry_price = 100,
     ps_realized_pnl_usdc = 0, ps_fees_usdc = 0\<rparr>"

theorem apply_fill_exact_conserves_witness:
  "\<exists>t. apply_fill_exact example_long example_fill = Inr t \<and> book_value t = book_value example_long
     \<and> ps_realized_pnl_usdc t = 30"
proof -
  have p: "0 < fq_quantity example_fill" by code_simp
  have e: "apply_fill_exact example_long example_fill = Inr \<lparr>ps_cash_usdc = 1329, ps_position_quantity = 2,
      ps_average_entry_price = 100, ps_realized_pnl_usdc = 30, ps_fees_usdc = 1\<rparr>" by code_simp
  then show ?thesis using apply_fill_exact_conserves [OF p e] by simp
qed

text \<open>The rounded ledger: what each branch returns.\<close>

lemma apply_fill_quantity:
  "apply_fill st fl = Inr t \<Longrightarrow>
    ps_position_quantity t = dadd (ps_position_quantity st)
      (if fq_side fl = BUY then fq_quantity fl else dneg (fq_quantity fl))"
  by (auto simp: apply_fill_def apply_fill_with_def dadd_def dneg_def Let_def split: if_splits)

lemma apply_fill_fees:
  "apply_fill st fl = Inr t \<Longrightarrow> ps_fees_usdc t = dadd (ps_fees_usdc st) (fq_fee_usdc fl)"
  by (auto simp: apply_fill_def apply_fill_with_def dadd_def Let_def split: if_splits)

lemma apply_fill_flat_average:
  "apply_fill st fl = Inr t \<Longrightarrow> ps_position_quantity t = 0 \<Longrightarrow> ps_average_entry_price t = 0"
  by (auto simp: apply_fill_def apply_fill_with_def Let_def split: if_splits)

text \<open>A fill of positive size never divides by zero: the only error of \<open>apply_fill\<close> cannot happen.\<close>

lemma apply_fill_total:
  assumes "0 < fq_quantity fl"
  shows "\<exists>t. apply_fill st fl = Inr t"
proof -
  let ?old = "ps_position_quantity st"
  let ?s = "if fq_side fl = BUY then fq_quantity fl else dec_round (- fq_quantity fl)"
  have s: "?s \<noteq> 0" using assms by (simp add: dec_round_minus)
  have "dec_round \<bar>dec_round (?old + ?s)\<bar> \<noteq> 0" if "?old = 0 \<or> same_direction ?old ?s"
    using that s by (auto simp: same_direction_def)
  then show ?thesis by (auto simp: apply_fill_def apply_fill_with_def Let_def)
qed

text \<open>A reducing fill shrinks the position towards zero, keeps its side and its average entry.\<close>

lemma signed_add_reduces:
  assumes "rep old" "0 < q" "q \<le> \<bar>old\<bar>" "(sd = BUY) \<noteq> (0 < old)"
  defines "new \<equiv> dadd old (if sd = BUY then q else dneg q)"
  shows "\<bar>new\<bar> \<le> \<bar>old\<bar>" "new = 0 \<or> same_direction old new"
proof -
  have "dec_round q \<le> \<bar>old\<bar>" using assms(1,3) by (intro ctx.rnd_le_rep) (simp_all add: rep_def [symmetric])
  moreover have "0 < dec_round q" using assms(2) by (simp add: ctx.rnd_pos_iff)
  ultimately have d: "\<bar>old + (if sd = BUY then q else dneg q)\<bar> \<le> \<bar>old\<bar>"
    "0 \<le> old * (old + (if sd = BUY then q else dneg q))"
    using assms(2-4) by (auto simp: dneg_def dec_round_minus abs_if zero_le_mult_iff split: if_splits)
  show "\<bar>new\<bar> \<le> \<bar>old\<bar>"
    unfolding new_def dadd_def using d(1) assms(1)
    by (intro ctx.rnd_abs_le_rep) (simp_all add: rep_def [symmetric])
  have "old \<noteq> 0" using assms(2,3) by auto
  then show "new = 0 \<or> same_direction old new"
    unfolding new_def dadd_def same_direction_def
    using d(2) by (auto simp: ctx.rnd_pos_iff ctx.rnd_neg_iff zero_le_mult_iff)
qed

lemma apply_fill_reducing:
  assumes "rep (ps_position_quantity st)" and "0 < fq_quantity fl"
    and "fq_quantity fl \<le> \<bar>ps_position_quantity st\<bar>"
    and "(fq_side fl = BUY) \<noteq> (0 < ps_position_quantity st)"
  shows "\<exists>t. apply_fill st fl = Inr t
    \<and> \<bar>ps_position_quantity t\<bar> \<le> \<bar>ps_position_quantity st\<bar>
    \<and> (ps_position_quantity t = 0 \<or> same_direction (ps_position_quantity st) (ps_position_quantity t))
    \<and> ps_average_entry_price t = (if ps_position_quantity t = 0 then 0 else ps_average_entry_price st)"
proof -
  obtain t where t: "apply_fill st fl = Inr t" using apply_fill_total [OF assms(2)] by blast
  note r = signed_add_reduces [OF assms(1-4), folded apply_fill_quantity [OF t]]
  have nz: "ps_position_quantity st \<noteq> 0" using assms(2,3) by auto
  have opp: "\<not> same_direction (ps_position_quantity st)
      (if fq_side fl = BUY then fq_quantity fl else dec_round (- fq_quantity fl))"
    using assms(2,4) by (auto simp: same_direction_def dec_round_minus ctx.rnd_pos_iff ctx.rnd_neg_iff)
  have "ps_average_entry_price t = (if ps_position_quantity t = 0 then 0 else ps_average_entry_price st)"
    using t r(2) nz opp unfolding apply_fill_def
    by (auto simp: apply_fill_with_def Let_def split: if_splits)
  with t r show ?thesis by blast
qed

text \<open>
  a reduce-only fill (opposite side, at most the open quantity) never increases or flips
  the position, and keeps the average entry until the position is flat.
\<close>

theorem apply_fill_reduces:
  assumes "rep (ps_position_quantity st)" and "0 < fq_quantity fl"
    and "fq_quantity fl \<le> \<bar>ps_position_quantity st\<bar>"
    and "(fq_side fl = BUY) \<noteq> (0 < ps_position_quantity st)"
  shows "\<exists>t. apply_fill st fl = Inr t
    \<and> \<bar>ps_position_quantity t\<bar> \<le> \<bar>ps_position_quantity st\<bar>
    \<and> (ps_position_quantity t = 0 \<or> same_direction (ps_position_quantity st) (ps_position_quantity t))
    \<and> ps_average_entry_price t = (if ps_position_quantity t = 0 then 0 else ps_average_entry_price st)"
  using assms by (rule apply_fill_reducing)

theorem apply_fill_reduces_witness:
  "\<exists>t. apply_fill example_long example_fill = Inr t \<and> \<bar>ps_position_quantity t\<bar> \<le> 5"
proof -
  have "rep (ps_position_quantity example_long)"
    using rep_decimal [of 5 0] by (simp add: example_long_def)
  then show ?thesis using apply_fill_reduces [of example_long example_fill]
    by (auto simp: example_fill_def example_long_def)
qed

text \<open>Realized PnL of a reducing fill has the sign of the move in the position's favour.\<close>

lemma closed_pnl_sign:
  assumes "0 < q"
  shows "0 \<le> closed_pnl q p avg long \<longleftrightarrow> (if long then avg \<le> p else p \<le> avg)"
  using assms
  by (auto simp: closed_pnl_def closed_pnl_with_def ctx.rnd_nonneg_iff ctx.rnd_nonpos_iff
      dec_round_minus zero_le_mult_iff mult_le_0_iff)

end
