(* ===== verification/PaperRisk.thy ===== *)
theory PaperRisk
  imports Execution
begin

text \<open>
  \<^verbatim>\<open>paper_risk.py\<close> and \<^verbatim>\<open>local_mode.py\<close>: risk-based sizing, the truth about the
  signed position an order is decided against, and the hard portfolio limits. Values whose
  Python type is fixed by the dataclasses have that type here, so the \<open>type(x) is not T\<close>
  guards have no counterpart; every other guard is a branch.
\<close>

section \<open>Trading mode\<close>

text \<open>\<open>raw_mode: object | None\<close>: nothing, a built-in string, or any other object.\<close>

datatype raw_mode = ModeNone | ModeText string | ModeOther

definition require_local_paper_mode :: "raw_mode \<Rightarrow> string result" where
  "require_local_paper_mode raw =
     (case raw of
        ModeNone \<Rightarrow> Inr ''PAPER''
      | ModeText s \<Rightarrow> if s = ''PAPER'' then Inr ''PAPER'' else Inl UnsafeTradingModeError
      | ModeOther \<Rightarrow> Inl UnsafeTradingModeError)"

definition require_paper_trading_mode :: "raw_mode \<Rightarrow> string result" where
  "require_paper_trading_mode trading_mode = require_local_paper_mode trading_mode"

lemma require_local_paper_mode_Inr: "require_local_paper_mode raw = Inr m \<Longrightarrow> m = ''PAPER''"
  by (auto simp: require_local_paper_mode_def split: raw_mode.splits if_splits)

section \<open>Data\<close>

record position_key =
  pk_environment :: string
  pk_account_id :: string
  pk_venue_id :: string
  pk_instrument_id :: string
  pk_strategy_id :: string

record signed_position =
  sp_key :: position_key
  sp_quantity :: "dec option"
  sp_version :: "string option"
  sp_pending_order_quantity :: "dec option"
  sp_reconciled :: bool

record risk_limits =
  rl_risk_per_trade_fraction :: dec
  rl_max_simultaneous_positions :: int
  rl_daily_loss_fraction :: dec
  rl_weekly_loss_fraction :: dec
  rl_drawdown_kill_fraction :: dec
  rl_max_paper_leverage :: dec
  rl_max_gross_exposure_fraction :: dec
  rl_max_net_exposure_fraction :: dec
  rl_max_asset_concentration_fraction :: dec
  rl_max_strategy_concentration_fraction :: dec
  rl_max_venue_concentration_fraction :: dec

definition DEFAULT_PAPER_RISK_LIMITS :: risk_limits where
  "DEFAULT_PAPER_RISK_LIMITS = \<lparr>
     rl_risk_per_trade_fraction = 25/10000,
     rl_max_simultaneous_positions = 3,
     rl_daily_loss_fraction = 1/100,
     rl_weekly_loss_fraction = 3/100,
     rl_drawdown_kill_fraction = 7/100,
     rl_max_paper_leverage = 1,
     rl_max_gross_exposure_fraction = 1,
     rl_max_net_exposure_fraction = 1,
     rl_max_asset_concentration_fraction = 50/100,
     rl_max_strategy_concentration_fraction = 50/100,
     rl_max_venue_concentration_fraction = 1\<rparr>"

record portfolio_snapshot =
  sn_equity_usdc :: dec
  sn_peak_equity_usdc :: dec
  sn_daily_pnl_usdc :: dec
  sn_weekly_pnl_usdc :: dec
  sn_open_position_count :: int
  sn_gross_exposure_usdc :: dec
  sn_net_exposure_usdc :: dec
  sn_asset_exposure_usdc :: dec
  sn_strategy_exposure_usdc :: dec
  sn_venue_exposure_usdc :: dec
  sn_position :: "signed_position option"

record order_intent =
  oi_side :: side
  oi_quantity :: dec
  oi_price :: dec
  oi_reduce_only :: bool
  oi_stop_distance_fraction :: dec
  oi_volatility_multiple :: dec
  oi_asset_id :: string
  oi_strategy_id :: string
  oi_venue_id :: string
  oi_position_key :: "position_key option"
  oi_position_version :: "string option"

datatype risk_reason =
    REASON_RISK_BASED_SIZE
  | REASON_MAX_LEVERAGE
  | REASON_MAX_GROSS
  | REASON_MAX_NET
  | REASON_MAX_POSITIONS
  | REASON_ASSET_CONCENTRATION
  | REASON_STRATEGY_CONCENTRATION
  | REASON_VENUE_CONCENTRATION
  | REASON_DAILY_LOSS
  | REASON_WEEKLY_LOSS
  | REASON_DRAWDOWN_KILL
  | REASON_AVERAGING_DOWN
  | REASON_REDUCE_ONLY_FLAT
  | REASON_POSITION_IDENTITY
  | REASON_POSITION_UNKNOWN
  | REASON_POSITION_CHANGED
  | REASON_POSITION_PENDING
  | REASON_POSITION_CONFLICT
  | REASON_REDUCE_ONLY_DIRECTION
  | REASON_REDUCE_ONLY_OVERSIZE

fun reason_text :: "risk_reason \<Rightarrow> string" where
  "reason_text REASON_RISK_BASED_SIZE =
     ''entry notional exceeds risk-based size (risk budget / stop distance)''"
| "reason_text REASON_MAX_LEVERAGE = ''projected gross leverage exceeds the paper maximum''"
| "reason_text REASON_MAX_GROSS = ''projected gross exposure exceeds the portfolio notional cap''"
| "reason_text REASON_MAX_NET = ''projected net exposure exceeds the portfolio net cap''"
| "reason_text REASON_MAX_POSITIONS =
     ''projected open position count exceeds the simultaneous-position cap''"
| "reason_text REASON_ASSET_CONCENTRATION = ''projected asset concentration exceeds the portfolio cap''"
| "reason_text REASON_STRATEGY_CONCENTRATION =
     ''projected strategy concentration exceeds the portfolio cap''"
| "reason_text REASON_VENUE_CONCENTRATION = ''projected venue concentration exceeds the portfolio cap''"
| "reason_text REASON_DAILY_LOSS = ''daily loss guard is already breached; new entries are blocked''"
| "reason_text REASON_WEEKLY_LOSS = ''weekly loss guard is already breached; new entries are blocked''"
| "reason_text REASON_DRAWDOWN_KILL =
     ''portfolio drawdown kill threshold is already breached; new entries are blocked''"
| "reason_text REASON_AVERAGING_DOWN =
     ''averaging down is not permitted outside a predeclared reduce-only exit''"
| "reason_text REASON_REDUCE_ONLY_FLAT = ''reduce-only order requires an open position in the asset''"
| "reason_text REASON_POSITION_IDENTITY = ''order and signed position identities do not match''"
| "reason_text REASON_POSITION_UNKNOWN =
     ''signed position or pending-order truth is unavailable or unreconciled''"
| "reason_text REASON_POSITION_CHANGED = ''position version changed; reconcile and decide again''"
| "reason_text REASON_POSITION_PENDING =
     ''outstanding orders must settle or cancel and reconcile first''"
| "reason_text REASON_POSITION_CONFLICT = ''signed asset position conflicts with portfolio exposure''"
| "reason_text REASON_REDUCE_ONLY_DIRECTION =
     ''reduce-only order must oppose the signed asset position''"
| "reason_text REASON_REDUCE_ONLY_OVERSIZE =
     ''reduce-only quantity exceeds the signed asset position''"

record risk_decision =
  rd_approved :: bool
  rd_reasons :: "risk_reason list"
  rd_sized_notional_usdc :: dec
  rd_proposed_notional_usdc :: dec
  rd_account_risk_budget_usdc :: dec
  rd_effective_stop_distance_fraction :: dec
  rd_projected_gross_exposure_usdc :: dec
  rd_projected_net_exposure_usdc :: dec
  rd_projected_leverage :: dec
  rd_projected_open_position_count :: int
  rd_limits :: risk_limits

section \<open>Validation and sizing\<close>

definition require_positive_decimal :: "dec \<Rightarrow> string \<Rightarrow> dec result" where
  "require_positive_decimal value field_name =
     (if value \<le> 0 then Inl (ValueError field_name) else Inr value)"

definition require_non_negative_decimal :: "dec \<Rightarrow> string \<Rightarrow> dec result" where
  "require_non_negative_decimal value field_name =
     (if value < 0 then Inl (ValueError field_name) else Inr value)"

definition account_risk_budget_usdc :: "dec \<Rightarrow> dec \<Rightarrow> dec result" where
  "account_risk_budget_usdc equity_usdc risk_per_trade_fraction =
     res_bind (require_positive_decimal equity_usdc ''equity_usdc'') (\<lambda>_.
     res_bind (require_positive_decimal risk_per_trade_fraction ''risk_per_trade_fraction'') (\<lambda>_.
       if risk_per_trade_fraction \<ge> 1
       then Inl (ValueError ''risk_per_trade_fraction must be a fraction in (0, 1).'')
       else Inr (dmul equity_usdc risk_per_trade_fraction)))"

definition effective_stop_distance_fraction :: "dec \<Rightarrow> dec \<Rightarrow> dec result" where
  "effective_stop_distance_fraction stop_distance_fraction volatility_multiple =
     res_bind (require_positive_decimal stop_distance_fraction ''stop_distance_fraction'') (\<lambda>_.
     res_bind (require_positive_decimal volatility_multiple ''volatility_multiple'') (\<lambda>_.
       if volatility_multiple < 1
       then Inl (ValueError ''volatility_multiple must be >= 1; sizing must not increase automatically.'')
       else Inr (dmul stop_distance_fraction volatility_multiple)))"

definition size_paper_notional_usdc :: "dec \<Rightarrow> dec \<Rightarrow> dec \<Rightarrow> dec \<Rightarrow> dec result" where
  "size_paper_notional_usdc equity_usdc stop_distance_fraction risk_per_trade_fraction
      volatility_multiple =
     res_bind (account_risk_budget_usdc equity_usdc risk_per_trade_fraction) (\<lambda>budget.
     res_bind (effective_stop_distance_fraction stop_distance_fraction volatility_multiple) (\<lambda>stop.
       Inr (ddiv budget stop)))"

definition size_paper_quantity :: "dec \<Rightarrow> dec \<Rightarrow> dec \<Rightarrow> dec result" where
  "size_paper_quantity notional_usdc price increment =
     res_bind (require_non_negative_decimal notional_usdc ''notional_usdc'') (\<lambda>_.
     res_bind (require_positive_decimal price ''price'') (\<lambda>_.
     res_bind (require_positive_decimal increment ''increment'') (\<lambda>_.
       Inr (dmul (to_integral_value ROUND_DOWN (ddiv (ddiv notional_usdc price) increment)) increment))))"

text \<open>Non-empty printable text without outer whitespace.\<close>

definition clean_text :: "string \<Rightarrow> bool" where
  "clean_text s \<longleftrightarrow> s \<noteq> [] \<and> s = strip s \<and> list_all py_printable s"

definition validate_position_key :: "position_key \<Rightarrow> unit result" where
  "validate_position_key key =
     res_bind (require_local_paper_mode (ModeText (pk_environment key))) (\<lambda>_.
       checks [(clean_text (pk_account_id key), ValueError ''account_id''),
               (clean_text (pk_venue_id key), ValueError ''venue_id''),
               (clean_text (pk_instrument_id key), ValueError ''instrument_id''),
               (clean_text (pk_strategy_id key), ValueError ''strategy_id'')])"

definition paper_snapshot_for_bounded_book ::
  "dec \<Rightarrow> dec \<Rightarrow> dec \<Rightarrow> dec \<Rightarrow> dec \<Rightarrow> dec option \<Rightarrow> signed_position option
    \<Rightarrow> portfolio_snapshot result" where
  "paper_snapshot_for_bounded_book equity_usdc price current_position daily_pnl_usdc
      weekly_pnl_usdc peak_equity_usdc position =
     res_bind (require_positive_decimal equity_usdc ''equity_usdc'') (\<lambda>_.
     res_bind (require_positive_decimal price ''price'') (\<lambda>_.
     if (case position of None \<Rightarrow> False
         | Some pos \<Rightarrow> (case sp_quantity pos of None \<Rightarrow> False | Some q \<Rightarrow> q \<noteq> current_position))
     then Inl (ValueError ''signed position conflicts with the bounded book quantity.'')
     else (let peak = (case peak_equity_usdc of None \<Rightarrow> equity_usdc | Some p \<Rightarrow> p) in
       res_bind (require_positive_decimal peak ''peak_equity_usdc'') (\<lambda>_.
       if peak < equity_usdc
       then Inl (ValueError ''peak_equity_usdc is below current equity; portfolio state is inconsistent.'')
       else (let exposure = dmul (dabs current_position) price in Inr \<lparr>
         sn_equity_usdc = equity_usdc,
         sn_peak_equity_usdc = peak,
         sn_daily_pnl_usdc = daily_pnl_usdc,
         sn_weekly_pnl_usdc = weekly_pnl_usdc,
         sn_open_position_count = (if current_position = 0 then 0 else 1),
         sn_gross_exposure_usdc = exposure,
         sn_net_exposure_usdc = dmul current_position price,
         sn_asset_exposure_usdc = exposure,
         sn_strategy_exposure_usdc = exposure,
         sn_venue_exposure_usdc = exposure,
         sn_position = position\<rparr>)))))"

definition version_ok :: "string option \<Rightarrow> bool" where
  "version_ok token = (case token of None \<Rightarrow> True | Some t \<Rightarrow> clean_text t)"

definition paper_position_rejection_reasons ::
  "signed_position option \<Rightarrow> position_key option \<Rightarrow> string option \<Rightarrow> side \<Rightarrow> dec \<Rightarrow> bool \<Rightarrow> raw_mode
    \<Rightarrow> risk_reason list result" where
  "paper_position_rejection_reasons position key version sd quantity reduce_only trading_mode =
     res_bind (require_local_paper_mode trading_mode) (\<lambda>_.
     res_bind (require_positive_decimal quantity ''quantity'') (\<lambda>_.
     res_bind (case key of None \<Rightarrow> Inr () | Some k \<Rightarrow> validate_position_key k) (\<lambda>_.
     case position of
       None \<Rightarrow> Inr [REASON_POSITION_UNKNOWN]
     | Some pos \<Rightarrow>
         res_bind (validate_position_key (sp_key pos)) (\<lambda>_.
         res_bind (case sp_pending_order_quantity pos of None \<Rightarrow> Inr 0
                   | Some pending \<Rightarrow> require_non_negative_decimal pending ''pending_order_quantity'') (\<lambda>_.
         res_bind (checks [(version_ok (sp_version pos), ValueError ''position version''),
                           (version_ok version, ValueError ''intent position version'')]) (\<lambda>_.
         if key = None \<or> key \<noteq> Some (sp_key pos) then Inr [REASON_POSITION_IDENTITY]
         else (case (sp_quantity pos, sp_pending_order_quantity pos, sp_version pos) of
             (Some held, Some pending, Some current) \<Rightarrow>
               if \<not> sp_reconciled pos then Inr [REASON_POSITION_UNKNOWN]
               else if version = None \<or> version \<noteq> Some current then Inr [REASON_POSITION_CHANGED]
               else if pending > 0 then Inr [REASON_POSITION_PENDING]
               else if reduce_only then
                 (if held = 0 then Inr [REASON_REDUCE_ONLY_FLAT]
                  else if (sd = BUY) = (held > 0) then Inr [REASON_REDUCE_ONLY_DIRECTION]
                  else if quantity > dabs held then Inr [REASON_REDUCE_ONLY_OVERSIZE]
                  else Inr [])
               else Inr []
           | _ \<Rightarrow> Inr [REASON_POSITION_UNKNOWN])))))))"

definition risk_signed_quantity :: "side \<Rightarrow> dec \<Rightarrow> dec" where
  "risk_signed_quantity sd quantity = (if sd = BUY then quantity else dneg quantity)"

definition validate_intent :: "order_intent \<Rightarrow> unit result" where
  "validate_intent intent =
     checks [(0 < oi_quantity intent, ValueError ''quantity''),
             (0 < oi_price intent, ValueError ''price''),
             (0 < oi_stop_distance_fraction intent, ValueError ''stop_distance_fraction''),
             (0 < oi_volatility_multiple intent, ValueError ''volatility_multiple''),
             (\<not> oi_volatility_multiple intent < 1,
               ValueError ''volatility_multiple must be >= 1; sizing must not increase automatically.''),
             (oi_asset_id intent \<noteq> [], ValueError ''asset_id must be non-empty text.''),
             (oi_strategy_id intent \<noteq> [], ValueError ''strategy_id must be non-empty text.''),
             (oi_venue_id intent \<noteq> [], ValueError ''venue_id must be non-empty text.'')]"

definition validate_snapshot :: "portfolio_snapshot \<Rightarrow> unit result" where
  "validate_snapshot snapshot =
     checks [(0 < sn_equity_usdc snapshot, ValueError ''equity_usdc''),
             (0 < sn_peak_equity_usdc snapshot, ValueError ''peak_equity_usdc''),
             (\<not> sn_peak_equity_usdc snapshot < sn_equity_usdc snapshot,
               ValueError ''peak_equity_usdc is below current equity; portfolio state is inconsistent.''),
             (0 \<le> sn_open_position_count snapshot,
               ValueError ''open_position_count must be a non-negative integer.''),
             (0 \<le> sn_gross_exposure_usdc snapshot, ValueError ''gross_exposure_usdc''),
             (0 \<le> sn_asset_exposure_usdc snapshot, ValueError ''asset_exposure_usdc''),
             (0 \<le> sn_strategy_exposure_usdc snapshot, ValueError ''strategy_exposure_usdc''),
             (0 \<le> sn_venue_exposure_usdc snapshot, ValueError ''venue_exposure_usdc'')]"

definition validate_limits :: "risk_limits \<Rightarrow> unit result" where
  "validate_limits limits =
     res_bind (account_risk_budget_usdc 1 (rl_risk_per_trade_fraction limits)) (\<lambda>_.
       checks [(1 \<le> rl_max_simultaneous_positions limits,
                 ValueError ''max_simultaneous_positions must be a positive integer.''),
               (0 < rl_daily_loss_fraction limits, ValueError ''daily_loss_fraction''),
               (0 < rl_weekly_loss_fraction limits, ValueError ''weekly_loss_fraction''),
               (0 < rl_drawdown_kill_fraction limits, ValueError ''drawdown_kill_fraction''),
               (0 < rl_max_paper_leverage limits, ValueError ''max_paper_leverage''),
               (0 < rl_max_gross_exposure_fraction limits, ValueError ''max_gross_exposure_fraction''),
               (0 < rl_max_net_exposure_fraction limits, ValueError ''max_net_exposure_fraction''),
               (0 < rl_max_asset_concentration_fraction limits,
                 ValueError ''max_asset_concentration_fraction''),
               (0 < rl_max_strategy_concentration_fraction limits,
                 ValueError ''max_strategy_concentration_fraction''),
               (0 < rl_max_venue_concentration_fraction limits,
                 ValueError ''max_venue_concentration_fraction'')])"

section \<open>The decision\<close>

text \<open>The snapshot contradicts itself or the signed position.\<close>

definition position_conflict :: "portfolio_snapshot \<Rightarrow> dec \<Rightarrow> bool" where
  "position_conflict snapshot held \<longleftrightarrow>
     (held = 0) \<noteq> (sn_asset_exposure_usdc snapshot = 0)
     \<or> sn_asset_exposure_usdc snapshot > sn_gross_exposure_usdc snapshot
     \<or> sn_asset_exposure_usdc snapshot > sn_strategy_exposure_usdc snapshot
     \<or> sn_asset_exposure_usdc snapshot > sn_venue_exposure_usdc snapshot
     \<or> sn_strategy_exposure_usdc snapshot > sn_gross_exposure_usdc snapshot
     \<or> sn_venue_exposure_usdc snapshot > sn_gross_exposure_usdc snapshot
     \<or> dabs (sn_net_exposure_usdc snapshot) > sn_gross_exposure_usdc snapshot
     \<or> (held \<noteq> 0 \<and> sn_open_position_count snapshot = 0)
     \<or> (held \<noteq> 0 \<and>
         dabs (dsub (sn_net_exposure_usdc snapshot)
           (if held > 0 then sn_asset_exposure_usdc snapshot else dneg (sn_asset_exposure_usdc snapshot)))
         > dsub (sn_gross_exposure_usdc snapshot) (sn_asset_exposure_usdc snapshot))
     \<or> (held \<noteq> 0 \<and>
         (sn_open_position_count snapshot = 1)
           \<noteq> (sn_gross_exposure_usdc snapshot = sn_asset_exposure_usdc snapshot))"

definition identity_mismatch :: "order_intent \<Rightarrow> bool" where
  "identity_mismatch intent =
     (case oi_position_key intent of
        None \<Rightarrow> False
      | Some k \<Rightarrow> oi_asset_id intent \<noteq> pk_instrument_id k \<or> oi_venue_id intent \<noteq> pk_venue_id k
          \<or> oi_strategy_id intent \<noteq> pk_strategy_id k)"

definition held_quantity :: "portfolio_snapshot \<Rightarrow> dec option" where
  "held_quantity snapshot = Option.bind (sn_position snapshot) sp_quantity"

record projection =
  pj_gross :: dec
  pj_net :: dec
  pj_asset :: dec
  pj_strategy :: dec
  pj_venue :: dec
  pj_count :: int

definition project_reduction :: "portfolio_snapshot \<Rightarrow> order_intent \<Rightarrow> risk_reason list \<Rightarrow> projection" where
  "project_reduction snapshot intent reasons =
     (let current = \<lparr>pj_gross = sn_gross_exposure_usdc snapshot, pj_net = sn_net_exposure_usdc snapshot,
            pj_asset = sn_asset_exposure_usdc snapshot, pj_strategy = sn_strategy_exposure_usdc snapshot,
            pj_venue = sn_venue_exposure_usdc snapshot, pj_count = sn_open_position_count snapshot\<rparr>
      in case held_quantity snapshot of
           None \<Rightarrow> current
         | Some held \<Rightarrow>
             if reasons \<noteq> [] then current
             else (let reduction =
                 (if oi_quantity intent = dabs held then sn_asset_exposure_usdc snapshot
                  else ddiv (dmul (sn_asset_exposure_usdc snapshot) (oi_quantity intent)) (dabs held))
               in \<lparr>pj_gross = dsub (pj_gross current) reduction,
                   pj_net = dsub (pj_net current) (if held > 0 then reduction else dneg reduction),
                   pj_asset = dsub (pj_asset current) reduction,
                   pj_strategy = dsub (pj_strategy current) reduction,
                   pj_venue = dsub (pj_venue current) reduction,
                   pj_count = pj_count current - (if oi_quantity intent = dabs held then 1 else 0)\<rparr>))"

definition project_entry :: "portfolio_snapshot \<Rightarrow> order_intent \<Rightarrow> projection" where
  "project_entry snapshot intent =
     (let proposed = dmul (oi_quantity intent) (oi_price intent);
          signed_delta = risk_signed_quantity (oi_side intent) (oi_quantity intent)
      in \<lparr>pj_gross = dadd (sn_gross_exposure_usdc snapshot) proposed,
          pj_net = dadd (sn_net_exposure_usdc snapshot) (dmul signed_delta (oi_price intent)),
          pj_asset = dadd (sn_asset_exposure_usdc snapshot) proposed,
          pj_strategy = dadd (sn_strategy_exposure_usdc snapshot) proposed,
          pj_venue = dadd (sn_venue_exposure_usdc snapshot) proposed,
          pj_count = sn_open_position_count snapshot
            + (if sn_asset_exposure_usdc snapshot = 0 then 1 else 0)\<rparr>)"

text \<open>The twelve entry gates, each with the reason it appends when it fails.\<close>

definition entry_gates ::
  "portfolio_snapshot \<Rightarrow> order_intent \<Rightarrow> risk_limits \<Rightarrow> projection \<Rightarrow> dec \<Rightarrow> (bool \<times> risk_reason) list" where
  "entry_gates snapshot intent limits pj sized_notional =
     (let equity = sn_equity_usdc snapshot;
          drawdown = ddiv (dsub (sn_peak_equity_usdc snapshot) equity) (sn_peak_equity_usdc snapshot)
      in [(dmul (oi_quantity intent) (oi_price intent) > sized_notional, REASON_RISK_BASED_SIZE),
          (ddiv (pj_gross pj) equity > rl_max_paper_leverage limits, REASON_MAX_LEVERAGE),
          (pj_gross pj > dmul equity (rl_max_gross_exposure_fraction limits), REASON_MAX_GROSS),
          (dabs (pj_net pj) > dmul equity (rl_max_net_exposure_fraction limits), REASON_MAX_NET),
          (pj_count pj > rl_max_simultaneous_positions limits, REASON_MAX_POSITIONS),
          (pj_asset pj > dmul equity (rl_max_asset_concentration_fraction limits),
            REASON_ASSET_CONCENTRATION),
          (pj_strategy pj > dmul equity (rl_max_strategy_concentration_fraction limits),
            REASON_STRATEGY_CONCENTRATION),
          (pj_venue pj > dmul equity (rl_max_venue_concentration_fraction limits),
            REASON_VENUE_CONCENTRATION),
          (sn_daily_pnl_usdc snapshot \<le> dneg (dmul equity (rl_daily_loss_fraction limits)),
            REASON_DAILY_LOSS),
          (sn_weekly_pnl_usdc snapshot \<le> dneg (dmul equity (rl_weekly_loss_fraction limits)),
            REASON_WEEKLY_LOSS),
          (drawdown \<ge> rl_drawdown_kill_fraction limits, REASON_DRAWDOWN_KILL),
          (sn_asset_exposure_usdc snapshot > 0, REASON_AVERAGING_DOWN)])"

definition failed_gates :: "(bool \<times> risk_reason) list \<Rightarrow> risk_reason list" where
  "failed_gates gates = map snd (filter fst gates)"

definition truth_reasons :: "portfolio_snapshot \<Rightarrow> order_intent \<Rightarrow> raw_mode \<Rightarrow> risk_reason list result" where
  "truth_reasons snapshot intent trading_mode =
     res_bind (paper_position_rejection_reasons (sn_position snapshot) (oi_position_key intent)
       (oi_position_version intent) (oi_side intent) (oi_quantity intent) (oi_reduce_only intent)
       trading_mode) (\<lambda>reasons.
     Inr (reasons
       @ (if identity_mismatch intent then [REASON_POSITION_IDENTITY] else [])
       @ (case held_quantity snapshot of
            None \<Rightarrow> []
          | Some held \<Rightarrow> if position_conflict snapshot held then [REASON_POSITION_CONFLICT] else [])))"

definition evaluate_paper_hard_limits ::
  "portfolio_snapshot \<Rightarrow> order_intent \<Rightarrow> risk_limits \<Rightarrow> raw_mode \<Rightarrow> risk_decision result" where
  "evaluate_paper_hard_limits snapshot intent limits trading_mode =
     res_bind (require_local_paper_mode trading_mode) (\<lambda>_.
     res_bind (validate_snapshot snapshot) (\<lambda>_.
     res_bind (validate_intent intent) (\<lambda>_.
     res_bind (validate_limits limits) (\<lambda>_.
     res_bind (truth_reasons snapshot intent trading_mode) (\<lambda>reasons.
     (let pj = (if oi_reduce_only intent then project_reduction snapshot intent reasons
                else project_entry snapshot intent)
      in res_bind (account_risk_budget_usdc (sn_equity_usdc snapshot)
             (rl_risk_per_trade_fraction limits)) (\<lambda>budget.
         res_bind (effective_stop_distance_fraction (oi_stop_distance_fraction intent)
             (oi_volatility_multiple intent)) (\<lambda>stop.
         (let sized_notional = ddiv budget stop;
              reasons' = reasons @ (if oi_reduce_only intent then []
                else failed_gates (entry_gates snapshot intent limits pj sized_notional))
          in Inr \<lparr>rd_approved = (reasons' = []), rd_reasons = reasons',
               rd_sized_notional_usdc = sized_notional,
               rd_proposed_notional_usdc = dmul (oi_quantity intent) (oi_price intent),
               rd_account_risk_budget_usdc = budget,
               rd_effective_stop_distance_fraction = stop,
               rd_projected_gross_exposure_usdc = pj_gross pj,
               rd_projected_net_exposure_usdc = pj_net pj,
               rd_projected_leverage = ddiv (pj_gross pj) (sn_equity_usdc snapshot),
               rd_projected_open_position_count = pj_count pj,
               rd_limits = limits\<rparr>)))))))))"

section \<open>What an approval means\<close>

lemma failed_gates_Nil: "failed_gates gs = [] \<longleftrightarrow> (\<forall>g \<in> set gs. \<not> fst g)"
  by (auto simp: failed_gates_def filter_empty_conv)

lemma evaluate_Inr:
  assumes "evaluate_paper_hard_limits sn oi lm mode = Inr d"
  obtains reasons pj where
    "require_local_paper_mode mode = Inr ''PAPER''"
    "validate_snapshot sn = Inr ()" "validate_intent oi = Inr ()" "validate_limits lm = Inr ()"
    "truth_reasons sn oi mode = Inr reasons"
    "account_risk_budget_usdc (sn_equity_usdc sn) (rl_risk_per_trade_fraction lm)
       = Inr (rd_account_risk_budget_usdc d)"
    "effective_stop_distance_fraction (oi_stop_distance_fraction oi) (oi_volatility_multiple oi)
       = Inr (rd_effective_stop_distance_fraction d)"
    "rd_sized_notional_usdc d
       = ddiv (rd_account_risk_budget_usdc d) (rd_effective_stop_distance_fraction d)"
    "pj = (if oi_reduce_only oi then project_reduction sn oi reasons else project_entry sn oi)"
    "rd_reasons d = reasons @ (if oi_reduce_only oi then []
       else failed_gates (entry_gates sn oi lm pj (rd_sized_notional_usdc d)))"
    "rd_approved d \<longleftrightarrow> rd_reasons d = []"
proof -
  from assms obtain reasons budget stop where *:
    "require_local_paper_mode mode = Inr ''PAPER''"
    "validate_snapshot sn = Inr ()" "validate_intent oi = Inr ()" "validate_limits lm = Inr ()"
    "truth_reasons sn oi mode = Inr reasons"
    "account_risk_budget_usdc (sn_equity_usdc sn) (rl_risk_per_trade_fraction lm) = Inr budget"
    "effective_stop_distance_fraction (oi_stop_distance_fraction oi) (oi_volatility_multiple oi)
       = Inr stop"
    and d: "rd_account_risk_budget_usdc d = budget" "rd_effective_stop_distance_fraction d = stop"
    "rd_sized_notional_usdc d = ddiv budget stop"
    "rd_reasons d = reasons @ (if oi_reduce_only oi then []
       else failed_gates (entry_gates sn oi lm
         (if oi_reduce_only oi then project_reduction sn oi reasons else project_entry sn oi)
         (ddiv budget stop)))"
    "rd_approved d \<longleftrightarrow> rd_reasons d = []"
    unfolding evaluate_paper_hard_limits_def res_bind_Inr_iff Let_def
    using require_local_paper_mode_Inr by fastforce
  show ?thesis by (rule that [OF *(1-5) _ _ _ refl]) (simp_all only: * d)
qed

lemma position_reasons_Nil:
  assumes "paper_position_rejection_reasons position key version sd quantity reduce mode = Inr []"
  obtains pos held current where "position = Some pos" "key = Some (sp_key pos)"
    "sp_quantity pos = Some held" "sp_pending_order_quantity pos = Some 0" "sp_version pos = Some current"
    "sp_reconciled pos" "version = Some current" "0 < quantity"
    "reduce \<Longrightarrow> held \<noteq> 0 \<and> (sd = BUY) \<noteq> (held > 0) \<and> quantity \<le> dabs held"
proof -
  have req: "require_non_negative_decimal x f = Inr y \<longleftrightarrow> 0 \<le> x \<and> y = x" for x y f
    by (auto simp: require_non_negative_decimal_def)
  show ?thesis
    using assms that
    by (auto simp: paper_position_rejection_reasons_def res_bind_Inr_iff require_positive_decimal_def req
        not_le not_less split: if_splits option.splits)
qed

lemma truth_reasons_Nil:
  assumes "truth_reasons sn oi mode = Inr []"
  shows "paper_position_rejection_reasons (sn_position sn) (oi_position_key oi)
      (oi_position_version oi) (oi_side oi) (oi_quantity oi) (oi_reduce_only oi) mode = Inr []"
    and "\<not> identity_mismatch oi"
    and "held_quantity sn = Some held \<Longrightarrow> \<not> position_conflict sn held"
  using assms by (auto simp: truth_reasons_def res_bind_Inr_iff split: if_splits option.splits)

lemma approved_entry:
  assumes "evaluate_paper_hard_limits sn oi lm mode = Inr d" and "rd_approved d"
    and "\<not> oi_reduce_only oi"
  defines "pj \<equiv> project_entry sn oi"
  shows "\<exists>pos current. sn_position sn = Some pos \<and> oi_position_key oi = Some (sp_key pos)
      \<and> sp_quantity pos = Some 0 \<and> sp_pending_order_quantity pos = Some 0 \<and> sp_reconciled pos
      \<and> sp_version pos = Some current \<and> oi_position_version oi = Some current"
    and "dmul (oi_quantity oi) (oi_price oi) \<le> rd_sized_notional_usdc d
      \<and> ddiv (pj_gross pj) (sn_equity_usdc sn) \<le> rl_max_paper_leverage lm
      \<and> pj_gross pj \<le> dmul (sn_equity_usdc sn) (rl_max_gross_exposure_fraction lm)
      \<and> dabs (pj_net pj) \<le> dmul (sn_equity_usdc sn) (rl_max_net_exposure_fraction lm)
      \<and> pj_count pj \<le> rl_max_simultaneous_positions lm
      \<and> pj_asset pj \<le> dmul (sn_equity_usdc sn) (rl_max_asset_concentration_fraction lm)
      \<and> pj_strategy pj \<le> dmul (sn_equity_usdc sn) (rl_max_strategy_concentration_fraction lm)
      \<and> pj_venue pj \<le> dmul (sn_equity_usdc sn) (rl_max_venue_concentration_fraction lm)
      \<and> dneg (dmul (sn_equity_usdc sn) (rl_daily_loss_fraction lm)) < sn_daily_pnl_usdc sn
      \<and> dneg (dmul (sn_equity_usdc sn) (rl_weekly_loss_fraction lm)) < sn_weekly_pnl_usdc sn
      \<and> ddiv (dsub (sn_peak_equity_usdc sn) (sn_equity_usdc sn)) (sn_peak_equity_usdc sn)
          < rl_drawdown_kill_fraction lm
      \<and> sn_asset_exposure_usdc sn = 0"
proof -
  from assms(1) obtain reasons where v: "validate_snapshot sn = Inr ()"
    and t: "truth_reasons sn oi mode = Inr reasons"
    and r: "rd_reasons d = reasons @ failed_gates (entry_gates sn oi lm pj (rd_sized_notional_usdc d))"
    and a: "rd_approved d \<longleftrightarrow> rd_reasons d = []"
    using assms(3) unfolding pj_def by (elim evaluate_Inr) auto
  from a r assms(2) have t0: "truth_reasons sn oi mode = Inr []"
    and g: "failed_gates (entry_gates sn oi lm pj (rd_sized_notional_usdc d)) = []"
    using t by auto
  have exposure: "0 \<le> sn_asset_exposure_usdc sn" using v unfolding validate_snapshot_def checks_Inr_iff by simp
  then show limits: "dmul (oi_quantity oi) (oi_price oi) \<le> rd_sized_notional_usdc d
      \<and> ddiv (pj_gross pj) (sn_equity_usdc sn) \<le> rl_max_paper_leverage lm
      \<and> pj_gross pj \<le> dmul (sn_equity_usdc sn) (rl_max_gross_exposure_fraction lm)
      \<and> dabs (pj_net pj) \<le> dmul (sn_equity_usdc sn) (rl_max_net_exposure_fraction lm)
      \<and> pj_count pj \<le> rl_max_simultaneous_positions lm
      \<and> pj_asset pj \<le> dmul (sn_equity_usdc sn) (rl_max_asset_concentration_fraction lm)
      \<and> pj_strategy pj \<le> dmul (sn_equity_usdc sn) (rl_max_strategy_concentration_fraction lm)
      \<and> pj_venue pj \<le> dmul (sn_equity_usdc sn) (rl_max_venue_concentration_fraction lm)
      \<and> dneg (dmul (sn_equity_usdc sn) (rl_daily_loss_fraction lm)) < sn_daily_pnl_usdc sn
      \<and> dneg (dmul (sn_equity_usdc sn) (rl_weekly_loss_fraction lm)) < sn_weekly_pnl_usdc sn
      \<and> ddiv (dsub (sn_peak_equity_usdc sn) (sn_equity_usdc sn)) (sn_peak_equity_usdc sn)
          < rl_drawdown_kill_fraction lm
      \<and> sn_asset_exposure_usdc sn = 0"
    using g by (auto simp: failed_gates_Nil entry_gates_def Let_def not_less not_le)
  note truth = truth_reasons_Nil [OF t0]
  from truth(1) obtain pos held current where pos: "sn_position sn = Some pos"
    "oi_position_key oi = Some (sp_key pos)" "sp_quantity pos = Some held"
    "sp_pending_order_quantity pos = Some 0" "sp_version pos = Some current" "sp_reconciled pos"
    "oi_position_version oi = Some current"
    by (rule position_reasons_Nil) blast
  from pos(1,3) have "\<not> position_conflict sn held" by (intro truth(3)) (simp add: held_quantity_def)
  with limits have "held = 0" by (auto simp: position_conflict_def)
  with pos show "\<exists>pos current. sn_position sn = Some pos \<and> oi_position_key oi = Some (sp_key pos)
      \<and> sp_quantity pos = Some 0 \<and> sp_pending_order_quantity pos = Some 0 \<and> sp_reconciled pos
      \<and> sp_version pos = Some current \<and> oi_position_version oi = Some current" by blast
qed

text \<open>
  C12: an approved entry starts from a flat, reconciled position with nothing pending, under the
  exact key and version of the decision, and every portfolio limit holds for the projected book.
\<close>

theorem approved_entry_within_limits:
  assumes "evaluate_paper_hard_limits sn oi lm mode = Inr d" and "rd_approved d"
    and "\<not> oi_reduce_only oi"
  shows "(\<exists>pos current. sn_position sn = Some pos \<and> oi_position_key oi = Some (sp_key pos)
      \<and> sp_quantity pos = Some 0 \<and> sp_pending_order_quantity pos = Some 0 \<and> sp_reconciled pos
      \<and> sp_version pos = Some current \<and> oi_position_version oi = Some current)
      \<and> dmul (oi_quantity oi) (oi_price oi) \<le> rd_sized_notional_usdc d
      \<and> ddiv (pj_gross (project_entry sn oi)) (sn_equity_usdc sn) \<le> rl_max_paper_leverage lm
      \<and> pj_gross (project_entry sn oi) \<le> dmul (sn_equity_usdc sn) (rl_max_gross_exposure_fraction lm)
      \<and> dabs (pj_net (project_entry sn oi)) \<le> dmul (sn_equity_usdc sn) (rl_max_net_exposure_fraction lm)
      \<and> pj_count (project_entry sn oi) \<le> rl_max_simultaneous_positions lm
      \<and> pj_asset (project_entry sn oi) \<le> dmul (sn_equity_usdc sn) (rl_max_asset_concentration_fraction lm)
      \<and> pj_strategy (project_entry sn oi) \<le> dmul (sn_equity_usdc sn) (rl_max_strategy_concentration_fraction lm)
      \<and> pj_venue (project_entry sn oi) \<le> dmul (sn_equity_usdc sn) (rl_max_venue_concentration_fraction lm)
      \<and> dneg (dmul (sn_equity_usdc sn) (rl_daily_loss_fraction lm)) < sn_daily_pnl_usdc sn
      \<and> dneg (dmul (sn_equity_usdc sn) (rl_weekly_loss_fraction lm)) < sn_weekly_pnl_usdc sn
      \<and> ddiv (dsub (sn_peak_equity_usdc sn) (sn_equity_usdc sn)) (sn_peak_equity_usdc sn)
          < rl_drawdown_kill_fraction lm
      \<and> sn_asset_exposure_usdc sn = 0"
  using approved_entry [OF assms] by blast

text \<open>
  C13: an approved reduce-only order is decided on a reconciled position: the one the order names
  by its exact key and version, with nothing pending. That position is open, the order opposes it
  and is no larger than it.
\<close>

theorem approved_reduction_opposes:
  assumes "evaluate_paper_hard_limits sn oi lm mode = Inr d" and "rd_approved d"
    and "oi_reduce_only oi"
  shows "\<exists>pos held current. sn_position sn = Some pos \<and> oi_position_key oi = Some (sp_key pos)
    \<and> sp_reconciled pos \<and> sp_pending_order_quantity pos = Some 0
    \<and> sp_version pos = Some current \<and> oi_position_version oi = Some current
    \<and> sp_quantity pos = Some held \<and> held \<noteq> 0 \<and> (oi_side oi = BUY) \<noteq> (held > 0)
    \<and> 0 < oi_quantity oi \<and> oi_quantity oi \<le> dabs held"
proof -
  from assms have "truth_reasons sn oi mode = Inr []" by (elim evaluate_Inr) auto
  from truth_reasons_Nil(1) [OF this] show ?thesis
    by (rule position_reasons_Nil) (use assms(3) in auto)
qed

lemma position_conflict_update [simp]:
  "position_conflict (sn\<lparr>sn_daily_pnl_usdc := x\<rparr>) held = position_conflict sn held"
  "position_conflict (sn\<lparr>sn_weekly_pnl_usdc := x\<rparr>) held = position_conflict sn held"
  "position_conflict (sn\<lparr>sn_peak_equity_usdc := x\<rparr>) held = position_conflict sn held"
  by (simp_all add: position_conflict_def)

text \<open>
  loss limits never block an exit. The decision on a reduce-only order does not depend on
  the daily or weekly PnL, the peak equity, or the configured limits.
\<close>

theorem reduction_ignores_loss_limits:
  assumes "evaluate_paper_hard_limits sn oi lm mode = Inr d" and "oi_reduce_only oi"
    and "evaluate_paper_hard_limits
      (sn\<lparr>sn_daily_pnl_usdc := daily, sn_weekly_pnl_usdc := weekly, sn_peak_equity_usdc := peak\<rparr>)
      oi lm' mode = Inr d'"
  shows "rd_approved d' = rd_approved d \<and> rd_reasons d' = rd_reasons d"
proof -
  let ?sn = "sn\<lparr>sn_daily_pnl_usdc := daily, sn_weekly_pnl_usdc := weekly, sn_peak_equity_usdc := peak\<rparr>"
  have "truth_reasons ?sn oi mode = truth_reasons sn oi mode"
    by (simp add: truth_reasons_def held_quantity_def cong: option.case_cong)
  with assms show ?thesis by (elim evaluate_Inr) auto
qed

section \<open>Sizing\<close>

lemma size_paper_quantity_Inr:
  "size_paper_quantity notional price inc = Inr s \<longleftrightarrow>
     0 \<le> notional \<and> 0 < price \<and> 0 < inc \<and> floor_size (ddiv notional price) inc = Inr s"
  by (auto simp: size_paper_quantity_def require_non_negative_decimal_def require_positive_decimal_def
      floor_size_def not_le ddiv_def ctx.rnd_nonneg_iff zero_le_divide_iff ctx.rnd_neg_iff
      divide_less_0_iff)

text \<open>
  C20: the risk-based size. It is a multiple of the lot, it is not above the rounded quotient of
  the notional and the price, and its value at the sizing price is the sized notional up to one
  part in \<open>2 * 10 ^ 27\<close>: the size itself never rounds up.
\<close>

theorem size_paper_quantity_within_notional:
  assumes "size_paper_quantity notional price inc = Inr s" and "0 \<le> sz"
    and "size_increment sz = Inr inc"
  shows "on_lot inc s \<and> 0 \<le> s \<and> s \<le> ddiv notional price
    \<and> s * price \<le> notional * (1 + 1 / (2 * 10 ^ 27))"
proof -
  from assms(1) have n: "0 \<le> notional" "0 < price" "floor_size (ddiv notional price) inc = Inr s"
    by (simp_all add: size_paper_quantity_Inr)
  from floor_size_is_largest [OF _ assms(2,3) n(3)]
  have s: "on_lot inc s" "s \<le> ddiv notional price" by simp_all
  have "ddiv notional price \<le> notional / price * (1 + 1 / (2 * 10 ^ 27))"
    unfolding ddiv_def using n by (intro dec_round_upper) simp
  with s(2) have "s \<le> notional / price * (1 + 1 / (2 * 10 ^ 27))" by linarith
  then have "s * price \<le> notional / price * (1 + 1 / (2 * 10 ^ 27)) * price"
    using n(2) by (intro mult_right_mono) simp_all
  also have "\<dots> = notional * (1 + 1 / (2 * 10 ^ 27))" using n(2) by simp
  finally show ?thesis using s floor_size_nonneg [OF n(3)] by simp
qed

text \<open>
  widening the stop (a higher volatility multiple) never raises the sized notional, and
  less equity never does.
\<close>

theorem size_paper_notional_monotone:
  assumes "size_paper_notional_usdc equity stop rf vol = Inr n"
    and "size_paper_notional_usdc equity' stop rf vol' = Inr n'"
    and "vol \<le> vol'" and "equity' \<le> equity"
  shows "n' \<le> n"
proof -
  from assms(1) have e: "0 < equity" "0 < rf" "0 < stop" "0 < vol"
    and n: "n = ddiv (dmul equity rf) (dmul stop vol)"
    by (auto simp: size_paper_notional_usdc_def account_risk_budget_usdc_def
        effective_stop_distance_fraction_def require_positive_decimal_def res_bind_Inr_iff split: if_splits)
  from assms(2) have e': "0 < equity'" "0 < vol'"
    and n': "n' = ddiv (dmul equity' rf) (dmul stop vol')"
    by (auto simp: size_paper_notional_usdc_def account_risk_budget_usdc_def
        effective_stop_distance_fraction_def require_positive_decimal_def res_bind_Inr_iff split: if_splits)
  have "dmul equity' rf \<le> dmul equity rf"
    unfolding dmul_def using assms(4) e by (intro dec_round_mono mult_right_mono) simp_all
  moreover have "dmul stop vol \<le> dmul stop vol'"
    unfolding dmul_def using assms(3) e by (intro dec_round_mono mult_left_mono) simp_all
  ultimately show ?thesis
    unfolding n n' ddiv_def using e e' by (intro dec_round_mono frac_le) (simp_all add: dmul_pos less_imp_le)
qed

section \<open>The bounded book\<close>

lemma bounded_book_fields:
  assumes "paper_snapshot_for_bounded_book equity price held daily weekly peak position = Inr sn"
  shows "sn_asset_exposure_usdc sn = dmul (dabs held) price"
    and "sn_equity_usdc sn = equity" and "sn_position sn = position" and "0 < price" and "0 < equity"
  using assms
  by (auto simp: paper_snapshot_for_bounded_book_def res_bind_Inr_iff require_positive_decimal_def Let_def
      split: if_splits)

text \<open>
  the single-instrument snapshot the engine builds is never contradictory: the conflict
  check of the risk gate cannot fire on it.
\<close>

theorem bounded_book_no_conflict:
  assumes "paper_snapshot_for_bounded_book equity price held daily weekly peak position = Inr sn"
    and "rep held"
  shows "validate_snapshot sn = Inr () \<and> \<not> position_conflict sn held"
proof -
  have p: "0 < price" using bounded_book_fields(4) [OF assms(1)] .
  have sn: "sn = \<lparr>sn_equity_usdc = equity, sn_peak_equity_usdc = (case peak of None \<Rightarrow> equity | Some q \<Rightarrow> q),
      sn_daily_pnl_usdc = daily, sn_weekly_pnl_usdc = weekly,
      sn_open_position_count = (if held = 0 then 0 else 1),
      sn_gross_exposure_usdc = dmul (dabs held) price, sn_net_exposure_usdc = dmul held price,
      sn_asset_exposure_usdc = dmul (dabs held) price, sn_strategy_exposure_usdc = dmul (dabs held) price,
      sn_venue_exposure_usdc = dmul (dabs held) price, sn_position = position\<rparr>"
    and valid: "0 < equity" "0 < (case peak of None \<Rightarrow> equity | Some q \<Rightarrow> q)"
      "equity \<le> (case peak of None \<Rightarrow> equity | Some q \<Rightarrow> q)"
    using assms(1)
    by (auto simp: paper_snapshot_for_bounded_book_def res_bind_Inr_iff require_positive_decimal_def Let_def
        split: if_splits)
  have net: "dmul held price = (if 0 < held then dmul (dabs held) price else - dmul (dabs held) price)"
    using assms(2) by (auto simp: dabs_rep dmul_def dec_round_minus)
  have pos: "0 \<le> dmul (dabs held) price" using p by (intro dmul_nonneg) simp_all
  have "dabs (dmul held price) = dmul (dabs held) price"
    using net pos by (simp add: dabs_rep abs_if)
  moreover have "dabs (dsub (dmul held price)
      (if held > 0 then dmul (dabs held) price else dneg (dmul (dabs held) price))) = 0"
    using net by (simp add: dneg_rep)
  moreover have "dmul (dabs held) price = 0 \<longleftrightarrow> held = 0"
    using p by (simp add: dmul_def)
  ultimately have "\<not> position_conflict sn held"
    unfolding position_conflict_def sn by (simp add: dsub_def dabs_rep)
  moreover have "validate_snapshot sn = Inr ()"
    unfolding validate_snapshot_def checks_Inr_iff sn using valid pos by (simp add: not_less)
  ultimately show ?thesis by blast
qed

section \<open>Examples\<close>

text \<open>A flat book and a long one, with an entry and an exit, for the witnesses.\<close>

definition example_key :: position_key where
  "example_key = \<lparr>pk_environment = ''PAPER'', pk_account_id = ''native-paper:run-1'',
     pk_venue_id = ''hyperliquid'', pk_instrument_id = ''BTC'', pk_strategy_id = ''toy''\<rparr>"

definition example_snapshot :: "dec \<Rightarrow> portfolio_snapshot" where
  "example_snapshot held = projr (paper_snapshot_for_bounded_book 10000 50000 held 0 0 (Some 10000)
     (Some \<lparr>sp_key = example_key, sp_quantity = Some held, sp_version = Some ''v1'',
        sp_pending_order_quantity = Some 0, sp_reconciled = True\<rparr>))"

definition example_intent :: "side \<Rightarrow> dec \<Rightarrow> bool \<Rightarrow> order_intent" where
  "example_intent sd quantity reduce_only = \<lparr>oi_side = sd, oi_quantity = quantity, oi_price = 50000,
     oi_reduce_only = reduce_only, oi_stop_distance_fraction = 1 / 100, oi_volatility_multiple = 1,
     oi_asset_id = ''BTC'', oi_strategy_id = ''toy'', oi_venue_id = ''hyperliquid'',
     oi_position_key = Some example_key, oi_position_version = Some ''v1''\<rparr>"

definition example_decision :: "dec \<Rightarrow> order_intent \<Rightarrow> risk_decision result" where
  "example_decision held intent =
     evaluate_paper_hard_limits (example_snapshot held) intent DEFAULT_PAPER_RISK_LIMITS (ModeText ''PAPER'')"

theorem approved_entry_within_limits_witness:
  "\<exists>d. example_decision 0 (example_intent BUY (1 / 20) False) = Inr d \<and> rd_approved d
     \<and> dmul (1 / 20) 50000 \<le> rd_sized_notional_usdc d"
proof -
  have "case example_decision 0 (example_intent BUY (1 / 20) False) of Inl _ \<Rightarrow> False | Inr d \<Rightarrow> rd_approved d"
    by code_simp
  then obtain d where d: "example_decision 0 (example_intent BUY (1 / 20) False) = Inr d" "rd_approved d"
    by (auto split: sum.splits)
  have i: "oi_quantity (example_intent BUY (1 / 20) False) = 1 / 20"
    "oi_price (example_intent BUY (1 / 20) False) = 50000" "\<not> oi_reduce_only (example_intent BUY (1 / 20) False)"
    by (simp_all add: example_intent_def)
  from approved_entry_within_limits [OF d(1) [unfolded example_decision_def] d(2) i(3)] d show ?thesis
    unfolding i by blast
qed

theorem approved_reduction_opposes_witness:
  "\<exists>d pos held. example_decision (1 / 20) (example_intent SELL (1 / 20) True) = Inr d \<and> rd_approved d
     \<and> sn_position (example_snapshot (1 / 20)) = Some pos \<and> sp_reconciled pos
     \<and> sp_quantity pos = Some held \<and> 0 < held"
proof -
  have "case example_decision (1 / 20) (example_intent SELL (1 / 20) True) of
      Inl _ \<Rightarrow> False | Inr d \<Rightarrow> rd_approved d" by code_simp
  then obtain d where d: "example_decision (1 / 20) (example_intent SELL (1 / 20) True) = Inr d" "rd_approved d"
    by (auto split: sum.splits)
  have i: "oi_reduce_only (example_intent SELL (1 / 20) True)" by (simp add: example_intent_def)
  from approved_reduction_opposes [OF d(1) [unfolded example_decision_def] d(2) i] d show ?thesis
    by (auto simp: example_intent_def)
qed

theorem reduction_ignores_loss_limits_witness:
  "\<exists>d d'. example_decision (1 / 20) (example_intent SELL (1 / 20) True) = Inr d
     \<and> evaluate_paper_hard_limits ((example_snapshot (1 / 20))\<lparr>sn_daily_pnl_usdc := - 9000,
         sn_weekly_pnl_usdc := - 9000, sn_peak_equity_usdc := 90000\<rparr>)
         (example_intent SELL (1 / 20) True) DEFAULT_PAPER_RISK_LIMITS (ModeText ''PAPER'') = Inr d'
     \<and> rd_approved d' = rd_approved d"
proof -
  let ?i = "example_intent SELL (1 / 20) True"
  let ?sn = "(example_snapshot (1 / 20))\<lparr>sn_daily_pnl_usdc := - 9000, sn_weekly_pnl_usdc := - 9000,
    sn_peak_equity_usdc := 90000\<rparr>"
  have "\<not> isl (example_decision (1 / 20) ?i)" by code_simp
  then obtain d where d: "example_decision (1 / 20) ?i = Inr d" by (auto simp: isl_def) (metis sum.exhaust)
  have "\<not> isl (evaluate_paper_hard_limits ?sn ?i DEFAULT_PAPER_RISK_LIMITS (ModeText ''PAPER''))" by code_simp
  then obtain d' where d': "evaluate_paper_hard_limits ?sn ?i DEFAULT_PAPER_RISK_LIMITS (ModeText ''PAPER'') = Inr d'"
    by (auto simp: isl_def) (metis sum.exhaust)
  have "oi_reduce_only ?i" by (simp add: example_intent_def)
  from reduction_ignores_loss_limits [OF d [unfolded example_decision_def] this d'] d d' show ?thesis by blast
qed

theorem size_paper_quantity_within_notional_witness:
  "size_paper_quantity 24999 500000 (1 / 100000) = Inr (4999 / 100000)
    \<and> size_increment 5 = Inr (1 / 100000) \<and> on_lot (1 / 100000) (4999 / 100000)
    \<and> 4999 / 100000 \<le> ddiv 24999 500000
    \<and> 4999 / 100000 * 500000 \<le> 24999 * (1 + 1 / (2 * 10 ^ 27) :: dec)"
proof -
  have s: "size_paper_quantity 24999 500000 (1 / 100000) = Inr (4999 / 100000)" by code_simp
  moreover have i: "size_increment 5 = Inr (1 / 100000)" by code_simp
  ultimately show ?thesis
    using size_paper_quantity_within_notional [OF s _ i] by (simp only: zero_le_numeral simp_thms)
qed

theorem size_paper_notional_monotone_witness:
  "\<exists>n n'. size_paper_notional_usdc 10000 (1 / 100) (25 / 10000) 1 = Inr n
     \<and> size_paper_notional_usdc 9000 (1 / 100) (25 / 10000) 2 = Inr n' \<and> n' \<le> n"
proof -
  have n: "size_paper_notional_usdc 10000 (1 / 100) (25 / 10000) 1 = Inr 2500" by code_simp
  have n': "size_paper_notional_usdc 9000 (1 / 100) (25 / 10000) 2 = Inr 1125" by code_simp
  show ?thesis using size_paper_notional_monotone [OF n n'] n n' by simp
qed

theorem bounded_book_no_conflict_witness:
  "\<exists>sn. paper_snapshot_for_bounded_book 10000 50000 (- 1 / 20) 0 0 None None = Inr sn
     \<and> \<not> position_conflict sn (- 1 / 20)"
proof -
  have "\<not> isl (paper_snapshot_for_bounded_book 10000 50000 (- 1 / 20) 0 0 None None)" by code_simp
  then obtain sn where sn: "paper_snapshot_for_bounded_book 10000 50000 (- 1 / 20) 0 0 None None = Inr sn"
    by (auto simp: isl_def) (metis sum.exhaust)
  have "rep (- 1 / 20)" using rep_decimal [of "- 5" 2] by simp
  from bounded_book_no_conflict [OF sn this] sn show ?thesis by blast
qed

end
