(* ===== verification/TimeDisplay.thy ===== *)
theory TimeDisplay
  imports Prelude
begin

text \<open>
  \<^verbatim>\<open>paper_engine/time_display.py\<close> and the parts of Python's \<open>datetime\<close> the engine uses. An
  aware UTC \<open>datetime\<close> is the number of microseconds since 1970-01-01T00:00:00Z (\<open>utc\<close>), a
  \<open>date\<close> the number of days since that day. The offset of Europe/Amsterdam at an instant
  comes from the time zone database, which is not in the repository: it is the argument
  \<open>zone\<close>, in seconds, of the functions that format local times.
\<close>

type_synonym utc = int

section \<open>Civil dates\<close>

definition is_leap :: "int \<Rightarrow> bool" where
  "is_leap y \<longleftrightarrow> y mod 4 = 0 \<and> (y mod 100 \<noteq> 0 \<or> y mod 400 = 0)"

definition leap_days :: "int \<Rightarrow> int" where
  "leap_days y = (y - 1) div 4 - (y - 1) div 100 + (y - 1) div 400"

text \<open>The day number of January 1 of a year; \<open>477\<close> leap days lie before 1970.\<close>

definition year_start :: "int \<Rightarrow> int" where
  "year_start y = 365 * (y - 1970) + leap_days y - 477"

definition civil_year :: "int \<Rightarrow> int" where
  "civil_year d = (let y = 1970 + (400 * d) div 146097 in
     if d < year_start y then y - 1 else if year_start (y + 1) \<le> d then y + 1 else y)"

fun month_day :: "int list \<Rightarrow> int \<Rightarrow> int \<Rightarrow> int \<times> int" where
  "month_day [] m r = (m, r + 1)"
| "month_day (l # ls) m r = (if r < l \<or> ls = [] then (m, r + 1) else month_day ls (m + 1) (r - l))"

definition month_lengths :: "int \<Rightarrow> int list" where
  "month_lengths y = [31, if is_leap y then 29 else 28, 31, 30, 31, 30, 31, 31, 30, 31, 30, 31]"

definition civil_date :: "int \<Rightarrow> int \<times> int \<times> int" where
  "civil_date d = (let y = civil_year d in (y, month_day (month_lengths y) 1 (d - year_start y)))"

text \<open>\<open>date.isocalendar()\<close>: the year and week of the Thursday of the day's Monday-based week.\<close>

definition iso_thursday :: "int \<Rightarrow> int" where
  "iso_thursday d = 7 * ((d + 3) div 7)"

definition iso_week :: "int \<Rightarrow> int \<times> int" where
  "iso_week d = (let t = iso_thursday d; y = civil_year t in (y, (t - year_start y) div 7 + 1))"

section \<open>Instants\<close>

definition us_per_day :: int where
  "us_per_day = 86400000000"

definition utc_date :: "utc \<Rightarrow> int" where
  "utc_date t = t div us_per_day"

text \<open>\<open>datetime\<close> covers the years 1 to 9999.\<close>

definition datetime_ok :: "utc \<Rightarrow> bool" where
  "datetime_ok t \<longleftrightarrow> year_start 1 * us_per_day \<le> t \<and> t < year_start 10000 * us_per_day"

definition datetime_to_utc_ns :: "utc \<Rightarrow> int" where
  "datetime_to_utc_ns t =
     (let days = t div us_per_day; rest = t mod us_per_day;
          seconds = rest div 1000000; microseconds = rest mod 1000000
      in days * 86400000000000 + seconds * 1000000000 + microseconds * 1000)"

definition two :: "int \<Rightarrow> string" where
  "two n = zero_pad 2 (nat_text (nat n))"

definition format_utc :: "utc \<Rightarrow> string" where
  "format_utc t =
     (let (y, m, d) = civil_date (utc_date t); s = t mod us_per_day div 1000000
      in int_text y @ ''-'' @ two m @ ''-'' @ two d @ ''T'' @ two (s div 3600) @ '':''
         @ two (s div 60 mod 60) @ '':'' @ two (s mod 60) @ ''.''
         @ zero_pad 6 (nat_text (nat (t mod 1000000))) @ ''Z'')"

definition amsterdam_zone_label :: "(utc \<Rightarrow> int) \<Rightarrow> utc \<Rightarrow> string result" where
  "amsterdam_zone_label zone t =
     (if zone t = 7200 then Inr ''CEST''
      else if zone t = 3600 then Inr ''CET''
      else Inl (ValueError ''does not map to CET or CEST in Europe/Amsterdam.''))"

definition format_amsterdam :: "(utc \<Rightarrow> int) \<Rightarrow> utc \<Rightarrow> string result" where
  "format_amsterdam zone t =
     (let local = t + zone t * 1000000;
          (y, m, d) = civil_date (utc_date local); s = local mod us_per_day div 1000000
      in res_bind (amsterdam_zone_label zone t) (\<lambda>label.
           Inr (int_text y @ ''-'' @ two m @ ''-'' @ two d @ '' '' @ two (s div 3600) @ '':''
             @ two (s div 60 mod 60) @ '':'' @ two (s mod 60) @ '' '' @ label)))"

section \<open>The calendar is exact\<close>

lemma div_pred: "0 < k \<Longrightarrow> y div k = (y - 1) div k + (if y mod k = 0 then 1 else 0)" for y k :: int
proof -
  assume k: "0 < k"
  have y: "y = k * (y div k) + y mod k" by simp
  have "y - 1 = (y mod k - 1) + (y div k) * k" by (simp add: algebra_simps)
  then have "(y - 1) div k = y div k + (y mod k - 1) div k" using k by (metis div_mult_self1 less_irrefl add.commute)
  moreover have "(y mod k - 1) div k = (if y mod k = 0 then - 1 else 0)"
  proof (cases "y mod k = 0")
    case True
    then show ?thesis using k by (cases "k = 1") (simp_all add: div_eq_minus1)
  next
    case False
    then have "0 \<le> y mod k - 1" "y mod k - 1 < k"
      using pos_mod_bound [OF k, of y] pos_mod_sign [OF k, of y] by linarith+
    then show ?thesis using False by simp
  qed
  ultimately show ?thesis by simp
qed

lemma leap_days_Suc: "leap_days (y + 1) = leap_days y + (if is_leap y then 1 else 0)"
proof -
  have "y mod 400 mod 100 = y mod 100" "y mod 100 mod 4 = y mod 4"
    by (simp_all add: mod_mod_cancel)
  then have "y mod 400 = 0 \<Longrightarrow> y mod 100 = 0" "y mod 100 = 0 \<Longrightarrow> y mod 4 = 0" by auto
  then have leap: "is_leap y \<longleftrightarrow> y mod 4 = 0 \<and> (y mod 100 = 0 \<longrightarrow> y mod 400 = 0)"
    and sub: "y mod 400 = 0 \<longrightarrow> y mod 100 = 0" "y mod 100 = 0 \<longrightarrow> y mod 4 = 0"
    by (auto simp: is_leap_def)
  have "leap_days (y + 1) = y div 4 - y div 100 + y div 400" by (simp add: leap_days_def)
  moreover have "y div 4 = (y - 1) div 4 + (if y mod 4 = 0 then 1 else 0)"
    "y div 100 = (y - 1) div 100 + (if y mod 100 = 0 then 1 else 0)"
    "y div 400 = (y - 1) div 400 + (if y mod 400 = 0 then 1 else 0)"
    by (rule div_pred, simp)+
  ultimately have "leap_days (y + 1) = (y - 1) div 4 + (if y mod 4 = 0 then 1 else 0)
      - ((y - 1) div 100 + (if y mod 100 = 0 then 1 else 0))
      + ((y - 1) div 400 + (if y mod 400 = 0 then 1 else 0))"
    by (simp only:)
  also have "\<dots> = leap_days y + (if is_leap y then 1 else 0)"
    unfolding leap_days_def leap by (cases "y mod 4 = 0"; cases "y mod 100 = 0"; cases "y mod 400 = 0")
      (use sub in simp_all)
  finally show ?thesis .
qed

lemma year_start_Suc: "year_start (y + 1) = year_start y + (if is_leap y then 366 else 365)"
  unfolding year_start_def by (simp add: leap_days_Suc)

lemma year_start_less: "year_start y < year_start (y + 1)"
  by (simp add: year_start_Suc)

lemma year_start_add: "year_start y + 365 * int n \<le> year_start (y + int n)"
proof (induction n)
  case (Suc n)
  have "y + int (Suc n) = (y + int n) + 1" by simp
  then have "year_start (y + int n) + 365 \<le> year_start (y + int (Suc n))"
    using year_start_Suc [of "y + int n"] by (cases "is_leap (y + int n)") (simp_all only: if_True if_False)
  moreover have "365 * int (Suc n) = 365 * int n + 365" by simp
  ultimately show ?case using Suc by linarith
qed simp

lemma year_start_less_iff: "year_start y < year_start z \<longleftrightarrow> y < z"
proof -
  have grow: "year_start a + 365 * (b - a) \<le> year_start b" if "a \<le> b" for a b
    using year_start_add [of a "nat (b - a)"] that by simp
  show ?thesis
  proof (cases "y < z")
    case True
    then show ?thesis using grow [of y z] by simp
  next
    case False
    then show ?thesis using grow [of z y] by simp
  qed
qed

text \<open>The average year has \<open>146097 / 400\<close> days; no January 1 is two days away from it.\<close>

lemma drift_bounds:
  fixes n a b c :: int
  assumes "4 * a \<le> n" "n \<le> 4 * a + 3" "100 * b \<le> n" "n \<le> 100 * b + 99" "400 * c \<le> n"
    "n \<le> 400 * c + 399"
  shows "146097 * (n - 1969) - 506 \<le> 400 * (365 * (n - 1969) + (a - b + c) - 477)"
    and "400 * (365 * (n - 1969) + (a - b + c) - 477) \<le> 146097 * (n - 1969) + 589"
  using assms by simp_all

lemma year_start_drift:
  "146097 * (y - 1970) - 506 \<le> 400 * year_start y"
  "400 * year_start y \<le> 146097 * (y - 1970) + 589"
proof -
  have b: "k * (n div k) \<le> n" "n \<le> k * (n div k) + (k - 1)" if "0 < k" for n k :: int
  proof -
    have "n = k * (n div k) + n mod k" by simp
    then show "k * (n div k) \<le> n" "n \<le> k * (n div k) + (k - 1)"
      using pos_mod_bound [OF that, of n] pos_mod_sign [OF that, of n] by linarith+
  qed
  have y: "y - 1970 = y - 1 - 1969" by simp
  show "146097 * (y - 1970) - 506 \<le> 400 * year_start y"
    "400 * year_start y \<le> 146097 * (y - 1970) + 589"
    unfolding year_start_def leap_days_def y
    using b [of 4 "y - 1"] b [of 100 "y - 1"] b [of 400 "y - 1"] by (intro drift_bounds; simp)+
qed

lemma civil_year_bounds: "year_start (civil_year d) \<le> d" "d < year_start (civil_year d + 1)"
proof -
  define y where "y = 1970 + (400 * d) div 146097"
  have d: "400 * d = 146097 * (y - 1970) + (400 * d) mod 146097" by (simp add: y_def)
  have r: "0 \<le> (400 * d) mod 146097" "(400 * d) mod 146097 < 146097" by simp_all
  have "400 * year_start (y - 1) \<le> 400 * d"
    using year_start_drift(2) [of "y - 1"] d r(1) by simp
  moreover have "400 * d < 400 * year_start (y + 2)"
    using year_start_drift(1) [of "y + 2"] d r(2) by simp
  ultimately have "year_start (y - 1) \<le> d" "d < year_start (y + 2)" by simp_all
  moreover have "y + 2 = y + 1 + 1" by simp
  ultimately have "year_start (y - 1) \<le> d" "d < year_start (y + 1 + 1)" by metis+
  then show "year_start (civil_year d) \<le> d" "d < year_start (civil_year d + 1)"
    unfolding civil_year_def y_def [symmetric] Let_def by auto
qed

lemma civil_year_unique: "year_start y \<le> d \<Longrightarrow> d < year_start (y + 1) \<Longrightarrow> civil_year d = y"
  using civil_year_bounds [of d] year_start_less_iff [of "civil_year d" "y + 1"]
    year_start_less_iff [of y "civil_year d + 1"]
  by linarith

lemma civil_year_mono: "d \<le> d' \<Longrightarrow> civil_year d \<le> civil_year d'"
  using civil_year_bounds(1) [of d] civil_year_bounds(2) [of d']
    year_start_less_iff [of "civil_year d" "civil_year d' + 1"]
  by linarith

section \<open>Windows\<close>

text \<open>The order of ISO weeks is the order of their Mondays.\<close>

lemma iso_week_less:
  assumes "(d + 3) div 7 < (d' + 3) div 7"
  shows "fst (iso_week d) < fst (iso_week d')
    \<or> fst (iso_week d) = fst (iso_week d') \<and> snd (iso_week d) < snd (iso_week d')"
proof -
  define t t' where "t = iso_thursday d" and "t' = iso_thursday d'"
  have t: "t + 7 \<le> t'" using assms by (simp add: t_def t'_def iso_thursday_def)
  then have "civil_year t \<le> civil_year t'" by (intro civil_year_mono) simp
  moreover have "(t - c) div 7 + 1 \<le> (t' - c) div 7" for c
  proof -
    have "(t - c) div 7 + 1 = (t - c + 7) div 7" by simp
    also have "\<dots> \<le> (t' - c) div 7" using t by (intro zdiv_mono1) simp_all
    finally show ?thesis .
  qed
  ultimately show ?thesis
    by (cases "civil_year t = civil_year t'")
      (simp_all add: iso_week_def Let_def t_def [symmetric] t'_def [symmetric])
qed

lemma iso_week_eq: "(d + 3) div 7 = (d' + 3) div 7 \<Longrightarrow> iso_week d = iso_week d'"
  by (simp add: iso_week_def iso_thursday_def)

text \<open>The conversion to nanoseconds loses nothing.\<close>

lemma datetime_to_utc_ns_eq: "datetime_to_utc_ns t = 1000 * t"
proof -
  have collect: "d * 86400000000000 + s * 1000000000 + u * 1000 = 1000 * (d * 86400000000 + (s * 1000000 + u))"
    for d s u :: int by simp
  show ?thesis
    unfolding datetime_to_utc_ns_def Let_def collect div_mult_mod_eq us_per_day_def ..
qed

end
