(* ===== verification/Events.thy ===== *)
theory Events
  imports Precision TimeDisplay "HOL-Library.Product_Lexorder" "HOL-Library.List_Lexorder"
    "HOL-Library.Char_ord"
begin

text \<open>
  \<^verbatim>\<open>paper_engine/events.py\<close>: the normalized market events (a base class and four subclasses,
  here a record and its extensions, with one constructor function each), the deterministic
  order of a tape, the completeness and mid of a book, and the aggregation of trades into bars.
  Proved: a mid exists exactly for a complete book and lies strictly inside the spread; the
  bars partition the trades in tape order and each bounds its trades.
\<close>

section \<open>Events\<close>

record event_base =
  eb_venue :: string
  eb_instrument_id :: string
  eb_event_time_utc :: utc
  eb_received_utc_ns :: int
  eb_source_event_id :: string
  eb_message_ordinal :: int
  eb_event_index :: int

record trade_event = event_base +
  te_price :: dec
  te_quantity :: dec
  te_aggressor_side :: side

record bbo_event = event_base +
  be_bid_price :: "dec option"
  be_bid_size :: "dec option"
  be_ask_price :: "dec option"
  be_ask_size :: "dec option"

record mark_event = event_base +
  me_mark_price :: "dec option"

record bar_event = event_base +
  br_open_price :: dec
  br_high_price :: dec
  br_low_price :: dec
  br_close_price :: dec
  br_volume :: dec
  br_bar_start_utc :: utc

datatype market_event = Trade trade_event | Bbo bbo_event | Mark mark_event | Bar bar_event

fun event_base_of :: "market_event \<Rightarrow> event_base" where
  "event_base_of (Trade e) = event_base.truncate e"
| "event_base_of (Bbo e) = event_base.truncate e"
| "event_base_of (Mark e) = event_base.truncate e"
| "event_base_of (Bar e) = event_base.truncate e"

abbreviation received_utc_ns :: "market_event \<Rightarrow> int" where
  "received_utc_ns e \<equiv> eb_received_utc_ns (event_base_of e)"

abbreviation event_time_utc :: "market_event \<Rightarrow> utc" where
  "event_time_utc e \<equiv> eb_event_time_utc (event_base_of e)"

section \<open>Constructors\<close>

definition require_event_text :: "string \<Rightarrow> string \<Rightarrow> string result" where
  "require_event_text value field =
     (if value = [] \<or> value \<noteq> strip value then Inl (ValueError field) else Inr value)"

definition require_ns :: "int \<Rightarrow> string \<Rightarrow> int result" where
  "require_ns value field = (if value < 0 then Inl (ValueError field) else Inr value)"

definition check_optional_decimal :: "dec option \<Rightarrow> string \<Rightarrow> bool \<Rightarrow> unit result" where
  "check_optional_decimal value field positive =
     (case value of
        None \<Rightarrow> Inr ()
      | Some v \<Rightarrow>
          if positive \<and> v \<le> 0 then Inl (ValueError field)
          else if \<not> positive \<and> v < 0 then Inl (ValueError field)
          else Inr ())"

definition market_event_base :: "event_base \<Rightarrow> event_base result" where
  "market_event_base b =
     res_bind (require_event_text (eb_venue b) ''venue'') (\<lambda>_.
     res_bind (require_event_text (eb_instrument_id b) ''instrument_id'') (\<lambda>_.
     res_bind (require_ns (eb_received_utc_ns b) ''received_utc_ns'') (\<lambda>_.
     res_bind (require_event_text (eb_source_event_id b) ''source_event_id'') (\<lambda>_.
     res_bind (require_ns (eb_message_ordinal b) ''message_ordinal'') (\<lambda>_.
     res_bind (require_ns (eb_event_index b) ''event_index'') (\<lambda>_. Inr b))))))"

definition side_of_text :: "string \<Rightarrow> side option" where
  "side_of_text s = (if s = ''BUY'' then Some BUY else if s = ''SELL'' then Some SELL else None)"

definition make_trade_event :: "event_base \<Rightarrow> dec \<Rightarrow> dec \<Rightarrow> string \<Rightarrow> trade_event result" where
  "make_trade_event b price quantity aggressor =
     res_bind (market_event_base b) (\<lambda>b.
     res_bind (check_optional_decimal (Some price) ''price'' True) (\<lambda>_.
     res_bind (check_optional_decimal (Some quantity) ''quantity'' True) (\<lambda>_.
     case side_of_text aggressor of
       None \<Rightarrow> Inl (ValueError ''aggressor_side must be exactly BUY or SELL.'')
     | Some sd \<Rightarrow> Inr (event_base.extend b
         (trade_event.fields price quantity sd)))))"

definition make_bbo_event ::
  "event_base \<Rightarrow> dec option \<Rightarrow> dec option \<Rightarrow> dec option \<Rightarrow> dec option \<Rightarrow> bbo_event result" where
  "make_bbo_event b bid_price bid_size ask_price ask_size =
     res_bind (market_event_base b) (\<lambda>b.
     res_bind (check_optional_decimal bid_price ''bid_price'' True) (\<lambda>_.
     res_bind (check_optional_decimal ask_price ''ask_price'' True) (\<lambda>_.
     res_bind (check_optional_decimal bid_size ''bid_size'' False) (\<lambda>_.
     res_bind (check_optional_decimal ask_size ''ask_size'' False) (\<lambda>_.
     Inr (event_base.extend b (bbo_event.fields bid_price bid_size ask_price ask_size)))))))"

definition make_mark_event :: "event_base \<Rightarrow> dec option \<Rightarrow> mark_event result" where
  "make_mark_event b mark_price =
     res_bind (market_event_base b) (\<lambda>b.
     res_bind (check_optional_decimal mark_price ''mark_price'' True) (\<lambda>_.
     Inr (event_base.extend b (mark_event.fields mark_price))))"

definition make_bar_event ::
  "event_base \<Rightarrow> dec \<Rightarrow> dec \<Rightarrow> dec \<Rightarrow> dec \<Rightarrow> dec \<Rightarrow> utc \<Rightarrow> bar_event result" where
  "make_bar_event b open_price high_price low_price close_price volume bar_start =
     res_bind (market_event_base b) (\<lambda>b.
     res_bind (check_optional_decimal (Some open_price) ''open_price'' True) (\<lambda>_.
     res_bind (check_optional_decimal (Some high_price) ''high_price'' True) (\<lambda>_.
     res_bind (check_optional_decimal (Some low_price) ''low_price'' True) (\<lambda>_.
     res_bind (check_optional_decimal (Some close_price) ''close_price'' True) (\<lambda>_.
     res_bind (check_optional_decimal (Some volume) ''volume'' False) (\<lambda>_.
     if high_price < max (max open_price close_price) low_price
        \<or> low_price > min (min open_price close_price) high_price
     then Inl (ValueError ''bar high/low must bound the open and close.'')
     else Inr (event_base.extend b
       (bar_event.fields open_price high_price low_price close_price volume bar_start))))))))"

section \<open>Tape order\<close>

fun event_kind :: "market_event \<Rightarrow> string" where
  "event_kind (Bbo e) = ''0''"
| "event_kind (Trade e) = ''1''"
| "event_kind (Mark e) = ''2''"
| "event_kind (Bar e) = ''3''"

definition event_sort_key :: "market_event \<Rightarrow> int \<times> int \<times> int \<times> string" where
  "event_sort_key e =
     (let b = event_base_of e in
       (eb_received_utc_ns b, eb_message_ordinal b, eb_event_index b,
        event_kind e @ '':'' @ eb_source_event_id b))"

section \<open>The book\<close>

definition bbo_is_complete :: "bbo_event \<Rightarrow> bool" where
  "bbo_is_complete e =
     (case (be_bid_price e, be_ask_price e, be_bid_size e, be_ask_size e) of
        (Some bid, Some ask, Some bid_size, Some ask_size) \<Rightarrow>
          if bid \<le> 0 \<or> ask \<le> 0 \<or> bid_size < 0 \<or> ask_size < 0 then False else ask > bid
      | _ \<Rightarrow> False)"

definition bbo_mid :: "bbo_event \<Rightarrow> dec option" where
  "bbo_mid e =
     (if \<not> bbo_is_complete e then None
      else case (be_bid_price e, be_ask_price e) of
          (Some bid, Some ask) \<Rightarrow> Some (ddiv (dadd bid ask) 2)
        | _ \<Rightarrow> None)"

section \<open>Bars\<close>

definition utc_from_epoch_us :: "int \<Rightarrow> utc result" where
  "utc_from_epoch_us us =
     (if datetime_ok us then Inr us else Inl (OverflowError ''date value out of range''))"

definition emit_bar :: "trade_event list \<Rightarrow> int \<Rightarrow> bar_event result" where
  "emit_bar grp start_ns =
     (let prices = map te_price grp; f = hd grp; l = last grp
      in res_bind (utc_from_epoch_us (start_ns div 1000)) (\<lambda>start.
         make_bar_event
           \<lparr>eb_venue = eb_venue f, eb_instrument_id = eb_instrument_id f,
            eb_event_time_utc = eb_event_time_utc l, eb_received_utc_ns = eb_received_utc_ns l,
            eb_source_event_id = ''bar-'' @ int_text start_ns,
            eb_message_ordinal = eb_message_ordinal l, eb_event_index = 0\<rparr>
           (hd prices) (Max (set prices)) (Min (set prices)) (last prices)
           (dsum (map te_quantity grp)) start))"

text \<open>The loop over the ordered trades, with the open bucket and its start.\<close>

fun bar_loop ::
  "int \<Rightarrow> trade_event list \<Rightarrow> int option \<Rightarrow> trade_event list \<Rightarrow> bar_event list \<Rightarrow> bar_event list result" where
  "bar_loop interval [] bucket_start bucket bars =
     (case bucket_start of
        None \<Rightarrow> Inr bars
      | Some start \<Rightarrow>
          if bucket = [] then Inr bars
          else res_bind (emit_bar bucket start) (\<lambda>bar. Inr (bars @ [bar])))"
| "bar_loop interval (trade # rest) bucket_start bucket bars =
     (let start_ns = eb_received_utc_ns trade div interval * interval;
          current = (case bucket_start of None \<Rightarrow> start_ns | Some s \<Rightarrow> s)
      in if start_ns \<noteq> current
         then res_bind (emit_bar bucket current)
           (\<lambda>bar. bar_loop interval rest (Some start_ns) [trade] (bars @ [bar]))
         else bar_loop interval rest (Some current) (bucket @ [trade]) bars)"

definition aggregate_trade_bars :: "trade_event list \<Rightarrow> int \<Rightarrow> bar_event list result" where
  "aggregate_trade_bars trades interval_ns =
     (if interval_ns \<le> 0 then Inl (ValueError ''interval_ns must be a positive integer.'')
      else if trades = [] then Inr []
      else bar_loop interval_ns (sort_key (event_sort_key \<circ> Trade) trades) None [] [])"

definition utc_from_epoch_ms :: "int \<Rightarrow> utc result" where
  "utc_from_epoch_ms epoch_ms =
     (if epoch_ms < 0 then Inl (ValueError ''epoch_ms must be a non-negative integer.'')
      else utc_from_epoch_us (1000 * epoch_ms))"

section \<open>Properties\<close>

lemma bbo_mid_Some_iff: "(\<exists>m. bbo_mid e = Some m) \<longleftrightarrow> bbo_is_complete e"
  by (auto simp: bbo_mid_def bbo_is_complete_def split: option.splits)

lemma complete_bookE:
  assumes "bbo_is_complete e"
  obtains bid ask bid_size ask_size where "be_bid_price e = Some bid" "be_ask_price e = Some ask"
    "be_bid_size e = Some bid_size" "be_ask_size e = Some ask_size"
    "0 < bid" "bid < ask" "0 \<le> bid_size" "0 \<le> ask_size"
  using assms by (auto simp: bbo_is_complete_def not_le not_less split: option.splits if_splits)

lemma bbo_mid_rep: "bbo_mid e = Some m \<Longrightarrow> rep m"
  by (auto simp: bbo_mid_def split: option.splits if_splits)

lemma bbo_mid_pos: "bbo_mid e = Some m \<Longrightarrow> 0 < m"
proof -
  assume m: "bbo_mid e = Some m"
  then have "bbo_is_complete e" using bbo_mid_Some_iff by blast
  then show "0 < m"
    using m by (auto simp: bbo_mid_def ddiv_def dadd_def ctx.rnd_pos_iff elim!: complete_bookE split: if_splits)
qed

lemma rep_scaled: "is_int (x * pow10 k) \<Longrightarrow> \<bar>x * pow10 k\<bar> \<le> 10 ^ 28 \<Longrightarrow> rep x"
proof -
  assume "is_int (x * pow10 k)" and b: "\<bar>x * pow10 k\<bar> \<le> 10 ^ 28"
  then obtain n where n: "x * pow10 k = of_int n" by (elim is_intE)
  have "\<bar>of_int n :: rat\<bar> \<le> of_int (10 ^ 28)" using b unfolding n by simp
  then have "\<bar>n\<bar> \<le> 10 ^ 28" unfolding of_int_abs [symmetric] of_int_le_iff .
  then have "rep (x * pow10 k)" unfolding n by (rule rep_of_int)
  then show ?thesis by simp
qed

text \<open>
  The mid of a complete book is exact and strictly inside the spread when both prices are
  multiples of \<open>10 ^ -k\<close> below \<open>10 ^ (27 - k)\<close>.
\<close>

theorem bbo_mid_inside_spread:
  assumes "bbo_is_complete e" and "be_bid_price e = Some bid" and "be_ask_price e = Some ask"
    and "is_int (bid * pow10 k)" and "is_int (ask * pow10 k)" and "ask * pow10 k < 10 ^ 27"
  shows "bbo_mid e = Some ((bid + ask) / 2) \<and> bid < (bid + ask) / 2 \<and> (bid + ask) / 2 < ask"
proof -
  from assms(1-3) have order: "0 < bid" "bid < ask" by (auto elim: complete_bookE)
  obtain b a where b: "bid * pow10 k = of_int b" and a: "ask * pow10 k = of_int a"
    using assms(4,5) by (auto elim!: is_intE)
  have scaled: "0 < bid * pow10 k" "bid * pow10 k < ask * pow10 k" using order by simp_all
  have sum: "(bid + ask) * pow10 k = of_int (b + a)" by (simp add: distrib_right a b)
  have "rep (bid + ask)"
  proof (rule rep_scaled [of _ k])
    show "is_int ((bid + ask) * pow10 k)" unfolding sum by (rule is_int_of_int)
    have "0 < (bid + ask) * pow10 k" "(bid + ask) * pow10 k < 2 * 10 ^ 27"
      unfolding distrib_right using scaled assms(6) by linarith+
    moreover have "\<bar>x\<bar> \<le> 10 ^ 28" if "0 < x" "x < 2 * 10 ^ 27" for x :: rat using that by simp
    ultimately show "\<bar>(bid + ask) * pow10 k\<bar> \<le> 10 ^ 28" by blast
  qed
  moreover have "(bid + ask) / 2 * pow10 (k + 1) = of_int (5 * (b + a))"
    using sum by (simp only: pow10_Suc) (simp add: algebra_simps)
  then have "rep ((bid + ask) / 2)"
  proof (intro rep_scaled [of _ "k + 1"])
    assume half: "(bid + ask) / 2 * pow10 (k + 1) = of_int (5 * (b + a))"
    then show "is_int ((bid + ask) / 2 * pow10 (k + 1))" by (simp only: is_int_of_int)
    have "0 \<le> 5 * (x + y) \<and> 5 * (x + y) \<le> 10 ^ 28" if "0 < x" "x < y" "y < 10 ^ 27" for x y :: rat
      using that by simp
    from this [OF scaled assms(6)]
    have "0 \<le> 5 * (bid * pow10 k + ask * pow10 k)" "5 * (bid * pow10 k + ask * pow10 k) \<le> 10 ^ 28"
      by blast+
    then have "\<bar>of_int (5 * (b + a))\<bar> \<le> (10 ^ 28 :: rat)" using a b by simp
    then show "\<bar>(bid + ask) / 2 * pow10 (k + 1)\<bar> \<le> 10 ^ 28" unfolding half .
  qed
  ultimately show ?thesis
    using assms(1-3) order by (simp add: bbo_mid_def ddiv_def dadd_def rep_def)
qed

theorem bbo_mid_inside_spread_witness:
  "bbo_mid \<lparr>eb_venue = ''hyperliquid'', eb_instrument_id = ''BTC'', eb_event_time_utc = 0,
      eb_received_utc_ns = 0, eb_source_event_id = ''1'', eb_message_ordinal = 0, eb_event_index = 0,
      be_bid_price = Some 50000, be_bid_size = Some 1, be_ask_price = Some 50001, be_ask_size = Some 2\<rparr>
    = Some (100001 / 2)"
  (is "bbo_mid ?e = _")
proof -
  have "is_int (50000 * pow10 0)" "is_int (50001 * pow10 0)" by code_simp+
  moreover have "bbo_is_complete ?e" by (simp add: bbo_is_complete_def)
  ultimately show ?thesis using bbo_mid_inside_spread [of ?e 50000 50001 0] by simp
qed

definition bucket :: "int \<Rightarrow> trade_event \<Rightarrow> int" where
  "bucket interval trade = eb_received_utc_ns trade div interval * interval"

lemma bar_loop_partitions:
  assumes "bar_loop interval rest (Some s) open_bucket acc = Inr bars"
    and "open_bucket \<noteq> []" and "\<forall>t \<in> set open_bucket. bucket interval t = s"
    and "sorted (map (bucket interval) (open_bucket @ rest))"
  shows "\<exists>groups new. bars = acc @ new \<and> concat groups = open_bucket @ rest
    \<and> list_all2 (\<lambda>g b. g \<noteq> [] \<and> emit_bar g (bucket interval (hd g)) = Inr b
        \<and> (\<forall>t \<in> set g. bucket interval t = bucket interval (hd g))) groups new
    \<and> sorted_wrt (\<lambda>g h. bucket interval (hd g) < bucket interval (hd h)) groups"
  using assms
proof (induction rest arbitrary: s open_bucket acc)
  case Nil
  then have hd: "bucket interval (hd open_bucket) = s" by simp
  from Nil obtain bar where "emit_bar open_bucket s = Inr bar" "bars = acc @ [bar]"
    by (auto simp: res_bind_Inr_iff)
  then show ?case
    using Nil hd by (intro exI [of _ "[open_bucket]"] exI [of _ "[bar]"]) simp
next
  case (Cons t rest)
  have hd: "bucket interval (hd open_bucket) = s" using Cons.prems by simp
  show ?case
  proof (cases "bucket interval t = s")
    case True
    then have "bar_loop interval rest (Some s) (open_bucket @ [t]) acc = Inr bars"
      using Cons.prems(1) by (simp add: bucket_def)
    from Cons.IH [OF this] show ?thesis using Cons.prems True by simp
  next
    case False
    with Cons.prems(1) obtain bar where bar: "emit_bar open_bucket s = Inr bar"
      and rec: "bar_loop interval rest (Some (bucket interval t)) [t] (acc @ [bar]) = Inr bars"
      by (auto simp: bucket_def res_bind_Inr_iff)
    have sorted: "sorted (map (bucket interval) ([t] @ rest))"
      using Cons.prems(4) by (simp add: sorted_append)
    have "s \<le> bucket interval t" using Cons.prems(2-4) hd by (cases open_bucket) auto
    with False sorted have later: "\<forall>u \<in> set ([t] @ rest). s < bucket interval u" by auto
    from Cons.IH [OF rec _ _ sorted] obtain groups new where new: "bars = (acc @ [bar]) @ new"
      "concat groups = [t] @ rest"
      "list_all2 (\<lambda>g b. g \<noteq> [] \<and> emit_bar g (bucket interval (hd g)) = Inr b
        \<and> (\<forall>t \<in> set g. bucket interval t = bucket interval (hd g))) groups new"
      "sorted_wrt (\<lambda>g h. bucket interval (hd g) < bucket interval (hd h)) groups"
      by auto
    have "\<forall>g \<in> set groups. s < bucket interval (hd g)"
    proof
      fix g assume g: "g \<in> set groups"
      then have "g \<noteq> []" using new(3) by (auto simp: list_all2_conv_all_nth in_set_conv_nth)
      then have "hd g \<in> set (concat groups)" using g by (auto intro!: bexI [of _ g])
      then show "s < bucket interval (hd g)" using later unfolding new(2) by blast
    qed
    then show ?thesis
      using new bar Cons.prems(2,3) hd
      by (intro exI [of _ "open_bucket # groups"] exI [of _ "bar # new"]) simp
  qed
qed

lemma sorted_tape_received: "sorted (map eb_received_utc_ns (sort_key (event_sort_key \<circ> Trade) trades))"
proof -
  have "sorted (map (event_sort_key \<circ> Trade) (sort_key (event_sort_key \<circ> Trade) trades))"
    by (rule sorted_sort_key)
  then show ?thesis
    by (auto simp: sorted_map event_sort_key_def Let_def event_base.truncate_def
        elim!: sorted_wrt_mono_rel [rotated])
qed

text \<open>
  C23: The bars cut the trades, in tape order, into non-empty groups of one bucket each, in
  strictly increasing bucket order: no trade is dropped, duplicated or moved.
\<close>

theorem aggregate_trade_bars_partition:
  assumes "aggregate_trade_bars trades interval_ns = Inr bars"
  shows "\<exists>groups. concat groups = sort_key (event_sort_key \<circ> Trade) trades
    \<and> list_all2 (\<lambda>g b. g \<noteq> [] \<and> emit_bar g (bucket interval_ns (hd g)) = Inr b
        \<and> (\<forall>t \<in> set g. bucket interval_ns t = bucket interval_ns (hd g))) groups bars
    \<and> sorted_wrt (\<lambda>g h. bucket interval_ns (hd g) < bucket interval_ns (hd h)) groups"
proof (cases "sort_key (event_sort_key \<circ> Trade) trades")
  case Nil
  then have "trades = []" by (metis set_sort set_empty)
  then show ?thesis
    using assms Nil by (intro exI [of _ "[]"]) (auto simp: aggregate_trade_bars_def split: if_splits)
next
  case (Cons t rest)
  then have "trades \<noteq> []" by auto
  with assms have iv: "0 < interval_ns"
    and loop: "bar_loop interval_ns (t # rest) None [] [] = Inr bars"
    unfolding Cons [symmetric] by (auto simp: aggregate_trade_bars_def split: if_splits)
  have "sorted (map (bucket interval_ns) (t # rest))"
    using sorted_tape_received [of trades] unfolding Cons sorted_map bucket_def
    by (rule sorted_wrt_mono_rel [rotated]) (use iv in \<open>simp add: zdiv_mono1\<close>)
  with loop show ?thesis
    using bar_loop_partitions [of interval_ns rest "bucket interval_ns t" "[t]" "[]" bars]
    unfolding Cons by (auto simp: bucket_def)
qed

definition example_trades :: "trade_event list" where
  "example_trades = map (\<lambda>(t, p). \<lparr>eb_venue = ''hyperliquid'', eb_instrument_id = ''BTC'',
     eb_event_time_utc = 0, eb_received_utc_ns = t, eb_source_event_id = ''t'',
     eb_message_ordinal = 0, eb_event_index = 0, te_price = p, te_quantity = 1,
     te_aggressor_side = BUY\<rparr>) [(0, 100), (500, 102), (1500, 101)]"

theorem aggregate_trade_bars_partition_witness:
  "\<exists>bars groups. aggregate_trade_bars example_trades 1000 = Inr bars \<and> length bars = 2
     \<and> concat groups = sort_key (event_sort_key \<circ> Trade) example_trades
     \<and> sorted_wrt (\<lambda>g h. bucket 1000 (hd g) < bucket 1000 (hd h)) groups"
proof -
  have "\<not> isl (aggregate_trade_bars example_trades 1000)" by code_simp
  moreover have "length (projr (aggregate_trade_bars example_trades 1000)) = 2" by code_simp
  ultimately show ?thesis
    using aggregate_trade_bars_partition [of example_trades 1000 "projr (aggregate_trade_bars example_trades 1000)"]
    by (cases "aggregate_trade_bars example_trades 1000") auto
qed

text \<open>A bar's four prices come from its trades and bound them.\<close>

lemma emit_bar_fields:
  assumes "emit_bar g s = Inr b" and "g \<noteq> []"
  shows "br_open_price b = te_price (hd g)" and "br_close_price b = te_price (last g)"
    and "br_high_price b = Max (te_price ` set g)" and "br_low_price b = Min (te_price ` set g)"
    and "br_volume b = dsum (map te_quantity g)"
    and "eb_received_utc_ns b = eb_received_utc_ns (last g)"
  using assms
  by (auto simp: emit_bar_def Let_def res_bind_Inr_iff make_bar_event_def market_event_base_def
      event_base.extend_def bar_event.fields_def hd_map last_map split: if_splits)

end
