(* ===== verification/Strategy.thy ===== *)
theory Strategy
  imports Events
begin

text \<open>
  \<^verbatim>\<open>paper_engine/strategy.py\<close>: the target position, the view a strategy sees, the strategy
  protocol (a record of functions over the strategy's own state type) and the reference
  strategy. Proved: the toy mode asks for its fixed long exactly while the number of books
  seen is inside its holding window.
\<close>

section \<open>Targets, views and the protocol\<close>

record target_position =
  tp_instrument_id :: string
  tp_target_quantity :: dec
  tp_reason :: string

definition make_target_position :: "string \<Rightarrow> dec \<Rightarrow> string \<Rightarrow> target_position result" where
  "make_target_position instrument quantity reason =
     (if instrument = [] then Inl (ValueError ''instrument_id must be non-empty text.'')
      else if reason = [] then Inl (ValueError ''reason must be non-empty text.'')
      else Inr \<lparr>tp_instrument_id = instrument, tp_target_quantity = quantity, tp_reason = reason\<rparr>)"

record strategy_view =
  sv_position_quantity :: dec
  sv_bid_price :: "dec option"
  sv_ask_price :: "dec option"
  sv_mid_price :: "dec option"
  sv_last_trade_price :: "dec option"
  sv_venue_mark_price :: "dec option"
  sv_last_bar_close :: "dec option"
  sv_kill_switch :: string

record 's paper_strategy =
  st_strategy_id :: "'s \<Rightarrow> string"
  st_configuration_version :: "'s \<Rightarrow> string"
  st_production_eligible :: "'s \<Rightarrow> bool"
  st_label :: "'s \<Rightarrow> string"
  st_on_market :: "'s \<Rightarrow> market_event \<Rightarrow> strategy_view \<Rightarrow> (target_position option, 's) outcome"

section \<open>The reference strategy\<close>

record reference_state =
  rf_mode :: string
  rf_instrument_id :: string
  rf_toy_quantity :: dec
  rf_arm_after_bbos :: int
  rf_hold_bbos :: int
  rf_bbo_count :: int

definition make_reference_strategy ::
  "string \<Rightarrow> string \<Rightarrow> dec \<Rightarrow> int \<Rightarrow> int \<Rightarrow> reference_state result" where
  "make_reference_strategy mode instrument toy_quantity arm_after hold =
     res_bind (checks
       [(mode = ''flat'' \<or> mode = ''toy'',
          ValueError ''reference strategy mode must be 'flat' or 'toy'.''),
        (instrument \<noteq> [], ValueError ''instrument_id must be non-empty text.''),
        (0 < toy_quantity, ValueError ''toy_quantity must be a finite positive decimal.''),
        (1 \<le> arm_after, ValueError ''arm_after_bbos must be a positive integer.''),
        (1 \<le> hold, ValueError ''hold_bbos must be a positive integer.'')])
     (\<lambda>_. Inr \<lparr>rf_mode = mode, rf_instrument_id = instrument, rf_toy_quantity = toy_quantity,
       rf_arm_after_bbos = arm_after, rf_hold_bbos = hold, rf_bbo_count = 0\<rparr>)"

definition reference_strategy_id :: "reference_state \<Rightarrow> string" where
  "reference_strategy_id s =
     (if rf_mode s = ''flat'' then ''nonprod-reference-flat'' else ''nonprod-reference-toy'')"

definition reference_configuration_version :: "reference_state \<Rightarrow> string" where
  "reference_configuration_version s = ''reference-v1-'' @ rf_mode s"

definition reference_on_market ::
  "reference_state \<Rightarrow> market_event \<Rightarrow> strategy_view \<Rightarrow> (target_position option, reference_state) outcome" where
  "reference_on_market s event view =
     (if rf_mode s = ''flat''
      then andthen (lift_result (make_target_position (rf_instrument_id s) 0 ''reference-flat'') s)
        (\<lambda>t s. Ok (Some t) s)
      else (let s' = (case event of Bbo _ \<Rightarrow> s\<lparr>rf_bbo_count := rf_bbo_count s + 1\<rparr> | _ \<Rightarrow> s);
                arm = rf_arm_after_bbos s'; hold_end = arm + rf_hold_bbos s';
                holding = (arm \<le> rf_bbo_count s' \<and> rf_bbo_count s' < hold_end);
                target = (if holding then rf_toy_quantity s' else 0);
                reason = (if holding then ''toy-long-no-edge''
                  else if rf_bbo_count s' \<ge> hold_end then ''toy-flat'' else ''toy-waiting'')
            in andthen (lift_result (make_target_position (rf_instrument_id s') target reason) s')
              (\<lambda>t s. Ok (Some t) s)))"

definition reference_strategy :: "reference_state paper_strategy" where
  "reference_strategy =
     \<lparr>st_strategy_id = reference_strategy_id,
      st_configuration_version = reference_configuration_version,
      st_production_eligible = (\<lambda>_. False),
      st_label = (\<lambda>_. ''NON-PRODUCTION reference strategy with no researched edge''),
      st_on_market = reference_on_market\<rparr>"

section \<open>The holding window\<close>

fun is_bbo :: "market_event \<Rightarrow> bool" where
  "is_bbo (Bbo e) = True"
| "is_bbo _ = False"

text \<open>The targets of a sequence of events, each with the view of its moment.\<close>

fun reference_run ::
  "reference_state \<Rightarrow> (market_event \<times> strategy_view) list \<Rightarrow> (target_position option, reference_state) outcome list" where
  "reference_run s [] = []"
| "reference_run s ((e, v) # es) =
     (let m = reference_on_market s e v in m # reference_run (out_state m) es)"

definition toy_target :: "reference_state \<Rightarrow> int \<Rightarrow> dec" where
  "toy_target s n =
     (if rf_arm_after_bbos s \<le> n \<and> n < rf_arm_after_bbos s + rf_hold_bbos s then rf_toy_quantity s else 0)"

lemma toy_target_count [simp]: "toy_target (s\<lparr>rf_bbo_count := m\<rparr>) n = toy_target s n"
  by (simp add: toy_target_def)

lemma reference_toy_step:
  assumes "rf_mode s = ''toy''" and "rf_instrument_id s \<noteq> []"
  shows "\<exists>t. reference_on_market s e v
      = Ok (Some t) (s\<lparr>rf_bbo_count := rf_bbo_count s + (if is_bbo e then 1 else 0)\<rparr>)
    \<and> tp_instrument_id t = rf_instrument_id s
    \<and> tp_target_quantity t = toy_target s (rf_bbo_count s + (if is_bbo e then 1 else 0))"
  using assms
  by (cases e) (simp_all add: reference_on_market_def make_target_position_def lift_result_def Let_def
      toy_target_def)

text \<open>
  The toy strategy asks for its constant long exactly while the number of books it has seen,
  the current one included, lies in its holding window, whatever the prices and the view.
\<close>

theorem reference_toy_window:
  assumes "make_reference_strategy ''toy'' instrument q arm hold = Inr s" and "i < length es"
  shows "\<exists>t s'. reference_run s es ! i = Ok (Some t) s' \<and> tp_instrument_id t = instrument
    \<and> tp_target_quantity t
        = (let n = int (length (filter (\<lambda>x. is_bbo (fst x)) (take (Suc i) es)))
           in if arm \<le> n \<and> n < arm + hold then q else 0)"
proof -
  have "\<exists>t s'. reference_run s es ! i = Ok (Some t) s' \<and> tp_instrument_id t = rf_instrument_id s
    \<and> tp_target_quantity t
        = toy_target s (rf_bbo_count s + int (length (filter (\<lambda>x. is_bbo (fst x)) (take (Suc i) es))))"
    if "i < length es" "rf_mode s = ''toy''" "rf_instrument_id s \<noteq> []"
    for s :: reference_state and es i
    using that
  proof (induction s es arbitrary: i rule: reference_run.induct)
    case (2 s e v es)
    obtain t where step: "reference_on_market s e v
        = Ok (Some t) (s\<lparr>rf_bbo_count := rf_bbo_count s + (if is_bbo e then 1 else 0)\<rparr>)"
      "tp_instrument_id t = rf_instrument_id s"
      "tp_target_quantity t = toy_target s (rf_bbo_count s + (if is_bbo e then 1 else 0))"
      using reference_toy_step [OF 2(3,4)] by blast
    show ?case
    proof (cases i)
      case 0
      then show ?thesis using step by simp
    next
      case (Suc j)
      with 2(2) have j: "j < length es" by simp
      from 2(1) [OF refl, of j] obtain u s' where u: "reference_run
          (s\<lparr>rf_bbo_count := rf_bbo_count s + (if is_bbo e then 1 else 0)\<rparr>) es ! j = Ok (Some u) s'"
        "tp_instrument_id u = rf_instrument_id s"
        "tp_target_quantity u = toy_target s (rf_bbo_count s + (if is_bbo e then 1 else 0)
          + int (length (filter (\<lambda>x. is_bbo (fst x)) (take (Suc j) es))))"
        unfolding step(1) using j 2(3,4) by auto
      moreover have "rf_bbo_count s + (if is_bbo e then 1 else 0)
          + int (length (filter (\<lambda>x. is_bbo (fst x)) (take (Suc j) es)))
          = rf_bbo_count s + int (length (filter (\<lambda>x. is_bbo (fst x)) (take (Suc i) ((e, v) # es))))"
        unfolding Suc by simp
      ultimately show ?thesis unfolding Suc by (simp add: step(1) Let_def)
    qed
  qed simp
  from this [of i es s] assms show ?thesis
    by (auto simp: make_reference_strategy_def res_bind_Inr_iff toy_target_def Let_def)
qed

theorem reference_toy_window_witness:
  "\<exists>s t s'. make_reference_strategy ''toy'' ''BTC'' 1 1 2 = Inr s
     \<and> reference_run s [(Bbo \<lparr>eb_venue = ''hyperliquid'', eb_instrument_id = ''BTC'',
         eb_event_time_utc = 0, eb_received_utc_ns = 0, eb_source_event_id = ''1'', eb_message_ordinal = 0,
         eb_event_index = 0, be_bid_price = None, be_bid_size = None, be_ask_price = None,
         be_ask_size = None\<rparr>, \<lparr>sv_position_quantity = 0, sv_bid_price = None, sv_ask_price = None,
         sv_mid_price = None, sv_last_trade_price = None, sv_venue_mark_price = None,
         sv_last_bar_close = None, sv_kill_switch = ''NONE''\<rparr>)] ! 0 = Ok (Some t) s'
     \<and> tp_target_quantity t = 1"
  (is "\<exists>s t s'. _ \<and> reference_run s ?es ! 0 = _ \<and> _")
proof -
  obtain s where s: "make_reference_strategy ''toy'' ''BTC'' 1 1 2 = Inr s"
    by (auto simp: make_reference_strategy_def res_bind_Inr_iff)
  from reference_toy_window [OF s, of 0 ?es] obtain t s' where
    "reference_run s ?es ! 0 = Ok (Some t) s'" "tp_target_quantity t = 1"
    by (auto simp: Let_def)
  with s show ?thesis by blast
qed

end
