(* ===== verification/DecimalText.thy ===== *)
theory DecimalText
  imports Precision "HOL-Library.List_Lexorder" "HOL-Library.Char_ord"
begin

text \<open>
  Text the engine reads and writes: \<open>decimal_text\<close> of \<^verbatim>\<open>paper_engine/engine.py\<close>, Python's
  \<open>Decimal(text)\<close> constructor as \<^verbatim>\<open>paper_engine/replay.py\<close> uses it, and \<open>json.dumps\<close> with
  sorted keys and compact separators as \<^verbatim>\<open>paper_engine/ledger.py\<close> uses it. Proved: reading a
  rendered decimal gives the decimal back, and a dumped value holds no newline.
\<close>

section \<open>Rendering a decimal\<close>

text \<open>The number of decimal places of a reduced fraction with denominator \<open>d\<close>.\<close>

function decimal_places :: "nat \<Rightarrow> nat" where
  "decimal_places d =
     (if d = 0 \<or> gcd d 10 = 1 then 0 else Suc (decimal_places (d div gcd d 10)))"
  by pat_completeness auto
termination
proof (relation "measure id")
  fix d :: nat assume "\<not> (d = 0 \<or> gcd d 10 = 1)"
  moreover have "gcd d 10 \<noteq> 0" by simp
  ultimately have "0 < d" "1 < gcd d 10" by linarith+
  then show "(d div gcd d 10, d) \<in> measure id" by simp
qed simp

declare decimal_places.simps [simp del]

definition places :: "dec \<Rightarrow> nat" where
  "places x = decimal_places (nat (snd (quotient_of x)))"

definition decimal_text :: "dec \<Rightarrow> string" where
  "decimal_text x =
     (let k = places x; n = nat \<lfloor>\<bar>x\<bar> * 10 ^ k\<rfloor>; digits = zero_pad (k + 1) (nat_text n)
      in (if x < 0 then ''-'' else '''') @ take (length digits - k) digits
         @ (if k = 0 then '''' else ''.'' @ drop (length digits - k) digits))"

text \<open>The same functions on integers, for evaluation.\<close>

function int_places :: "int \<Rightarrow> nat" where
  "int_places d = (if d \<le> 0 \<or> gcd d 10 = 1 then 0 else Suc (int_places (d div gcd d 10)))"
  by pat_completeness auto
termination
proof (relation "measure nat")
  fix d :: int assume d: "\<not> (d \<le> 0 \<or> gcd d 10 = 1)"
  have "0 < gcd d 10" by simp
  with d have "1 < gcd d 10" by linarith
  with d show "(d div gcd d 10, d) \<in> measure nat" by (simp add: int_div_less_self)
qed simp

declare int_places.simps [simp del]

lemma gcd_nat_10: "0 < d \<Longrightarrow> gcd (nat d) 10 = nat (gcd d 10)"
  by (simp add: gcd_int_def)

lemma decimal_places_nat: "decimal_places (nat d) = int_places d"
proof (induction d rule: int_places.induct)
  case (1 d)
  show ?case
  proof (cases "0 < d")
    case False
    then show ?thesis by (simp add: int_places.simps [of d] decimal_places.simps [of 0])
  next
    case True
    then have g: "gcd (nat d) 10 = nat (gcd d 10)" by (rule gcd_nat_10)
    have one: "nat (gcd d 10) = 1 \<longleftrightarrow> gcd d 10 = 1" by linarith
    have div: "nat d div nat (gcd d 10) = nat (d div gcd d 10)" using True by (simp add: nat_div_distrib)
    have rec: "gcd d 10 \<noteq> 1 \<Longrightarrow> decimal_places (nat (d div gcd d 10)) = int_places (d div gcd d 10)"
      using True 1 by simp
    show ?thesis
      unfolding int_places.simps [of d] decimal_places.simps [of "nat d"] g div one
      using True rec by (simp del: gcd_1_int One_nat_def)
  qed
qed

lemma places_code [code]: "places x = int_places (snd (quotient_of x))"
  by (simp add: places_def decimal_places_nat)

lemma decimal_text_code [code]:
  "decimal_text x =
     (let k = places x; digits = zero_pad (k + 1) (digits_text \<lfloor>\<bar>x\<bar> * 10 ^ k\<rfloor>)
      in (if x < 0 then ''-'' else '''') @ take (length digits - k) digits
         @ (if k = 0 then '''' else ''.'' @ drop (length digits - k) digits))"
  by (simp add: decimal_text_def Let_def nat_text_nat)

section \<open>Reading a decimal\<close>

datatype parsed = Finite dec | Non_Finite

definition lower :: "char \<Rightarrow> char" where
  "lower c = (let n = (of_char c :: nat) in if 65 \<le> n \<and> n \<le> 90 then char_of (n + 32) else c)"

lemma lower_code [code]:
  "lower c = (let n = (of_char c :: int) in if 65 \<le> n \<and> n \<le> 90 then char_of (n + 32) else c)"
  using char_of_int [of "of_char c + 32"] by (simp add: lower_def of_char_int Let_def nat_add_distrib)

definition split_sign :: "string \<Rightarrow> bool \<times> string" where
  "split_sign s = (case s of c # r \<Rightarrow> if c = CHR ''-'' then (True, r) else if c = CHR ''+'' then (False, r)
      else (False, s) | [] \<Rightarrow> (False, s))"

definition split_digits :: "string \<Rightarrow> string \<times> string" where
  "split_digits s = (takeWhile is_digit s, dropWhile is_digit s)"

definition parse_exponent :: "string \<Rightarrow> int option" where
  "parse_exponent s =
     (case s of
        [] \<Rightarrow> Some 0
      | c # r \<Rightarrow>
          if lower c \<noteq> CHR ''e'' then None
          else (let (neg, t) = split_sign r; (ds, rest) = split_digits t
            in if ds = [] \<or> rest \<noteq> [] then None
               else Some (if neg then - int (digits_value ds) else int (digits_value ds))))"

definition is_special :: "string \<Rightarrow> bool" where
  "is_special s =
     (let l = map lower s
      in l = ''inf'' \<or> l = ''infinity''
         \<or> (take 3 l = ''nan'' \<and> list_all is_digit (drop 3 l))
         \<or> (take 4 l = ''snan'' \<and> list_all is_digit (drop 4 l)))"

definition parse_decimal :: "string \<Rightarrow> parsed option" where
  "parse_decimal text =
     (let (neg, body) = split_sign (filter (\<lambda>c. c \<noteq> CHR ''_'') (strip text))
      in if is_special body then Some Non_Finite
         else (let (whole, rest) = split_digits body;
                   (part, tail) = (case rest of c # r \<Rightarrow> if c = CHR ''.'' then split_digits r else ([], rest)
                     | [] \<Rightarrow> ([], rest))
           in if whole = [] \<and> part = [] then None
              else case parse_exponent tail of
                  None \<Rightarrow> None
                | Some e \<Rightarrow>
                    (let v = of_nat (digits_value (whole @ part)) * pow10 (e - int (length part))
                     in Some (Finite (if neg then - v else v)))))"

section \<open>JSON\<close>

datatype json =
    JNull
  | JBool bool
  | JInt int
  | JText string
  | JList "json list"
  | JObject "(string \<times> json) list"

definition hex_digit :: "nat \<Rightarrow> char" where
  "hex_digit n = (if n < 10 then char_of (48 + n) else char_of (87 + n))"

definition json_escape :: "char \<Rightarrow> string" where
  "json_escape c =
     (let n = (of_char c :: nat)
      in if n = 34 then [CHR 0x5C, CHR 0x22]
         else if n = 92 then [CHR 0x5C, CHR 0x5C]
         else if n = 10 then [CHR 0x5C, CHR ''n'']
         else if n = 13 then [CHR 0x5C, CHR ''r'']
         else if n = 9 then [CHR 0x5C, CHR ''t'']
         else if n = 8 then [CHR 0x5C, CHR ''b'']
         else if n = 12 then [CHR 0x5C, CHR ''f'']
         else if n < 32 \<or> 126 < n
           then [CHR 0x5C, CHR ''u'', CHR ''0'', CHR ''0'', hex_digit (n div 16), hex_digit (n mod 16)]
         else [c])"

lemma json_escape_code [code]:
  "json_escape c =
     (let n = (of_char c :: int)
      in if n = 34 then [CHR 0x5C, CHR 0x22]
         else if n = 92 then [CHR 0x5C, CHR 0x5C]
         else if n = 10 then [CHR 0x5C, CHR ''n'']
         else if n = 13 then [CHR 0x5C, CHR ''r'']
         else if n = 9 then [CHR 0x5C, CHR ''t'']
         else if n = 8 then [CHR 0x5C, CHR ''b'']
         else if n = 12 then [CHR 0x5C, CHR ''f'']
         else if n < 32 \<or> 126 < n
           then [CHR 0x5C, CHR ''u'', CHR ''0'', CHR ''0'', hex_digit (nat (n div 16)), hex_digit (nat (n mod 16))]
         else [c])"
proof -
  have "(of_char c :: int) < 32 \<longleftrightarrow> (of_char c :: nat) < 32" "126 < (of_char c :: int) \<longleftrightarrow> 126 < (of_char c :: nat)"
    and "(of_char c :: int) = numeral k \<longleftrightarrow> (of_char c :: nat) = numeral k" for k
    by (simp_all add: of_char_int)
  moreover have "nat ((of_char c :: int) div 16) = of_char c div 16" "nat ((of_char c :: int) mod 16) = of_char c mod 16"
    by (simp_all add: of_char_int nat_div_distrib' nat_mod_distrib flip: of_nat_div)
  ultimately show ?thesis by (simp only: json_escape_def Let_def)
qed

definition json_quote :: "string \<Rightarrow> string" where
  "json_quote s = [CHR 0x22] @ concat (map json_escape s) @ [CHR 0x22]"

fun join :: "string \<Rightarrow> string list \<Rightarrow> string" where
  "join sep [] = []"
| "join sep [x] = x"
| "join sep (x # y # ys) = x @ sep @ join sep (y # ys)"

fun json_text :: "json \<Rightarrow> string"
  and json_items :: "json list \<Rightarrow> string list"
  and json_fields :: "(string \<times> json) list \<Rightarrow> (string \<times> string) list" where
  "json_text JNull = ''null''"
| "json_text (JBool b) = (if b then ''true'' else ''false'')"
| "json_text (JInt i) = int_text i"
| "json_text (JText s) = json_quote s"
| "json_text (JList js) = ''['' @ join '','' (json_items js) @ '']''"
| "json_text (JObject kvs) =
     ''{'' @ join '','' (map snd (sort_key fst (json_fields kvs))) @ ''}''"
| "json_items [] = []"
| "json_items (j # js) = json_text j # json_items js"
| "json_fields [] = []"
| "json_fields ((k, v) # kvs) = (k, json_quote k @ '':'' @ json_text v) # json_fields kvs"

section \<open>A rendered decimal reads back\<close>

definition is_decimal :: "dec \<Rightarrow> bool" where
  "is_decimal x \<longleftrightarrow> (\<exists>m. is_int (x * 10 ^ m))"

lemma decimal_places_dvd: "d dvd 10 ^ m \<Longrightarrow> d dvd 10 ^ decimal_places d"
proof (induction d rule: decimal_places.induct)
  case (1 d)
  have d: "d \<noteq> 0"
  proof
    assume "d = 0"
    with 1(2) have "(10 :: nat) ^ m = 0" by simp
    then show False by simp
  qed
  show ?case
  proof (cases "gcd d 10 = 1")
    case True
    then have "coprime d 10" by (simp add: coprime_iff_gcd_eq_1)
    then have "coprime d (10 ^ m)" by simp
    with 1(2) have "d = 1" by (metis coprime_absorb_left nat_dvd_1_iff_1)
    then show ?thesis by simp
  next
    case False
    let ?g = "gcd d 10"
    have split: "d = ?g * (d div ?g)" by simp
    then have "d div ?g dvd 10 ^ m" using 1(2) by (metis dvd_mult_right)
    then have "d div ?g dvd 10 ^ decimal_places (d div ?g)" using 1(1) d False by simp
    then have "?g * (d div ?g) dvd 10 * 10 ^ decimal_places (d div ?g)" by (intro mult_dvd_mono) simp_all
    then show ?thesis using d False split by (simp add: decimal_places.simps [of d])
  qed
qed

lemma places_is_int:
  assumes "is_decimal x"
  shows "is_int (x * 10 ^ places x)"
proof -
  obtain n d where q: "quotient_of x = (n, d)" by (cases "quotient_of x")
  have d: "0 < d" and x: "x = of_int n / of_int d" and co: "coprime n d"
    using quotient_of_denom_pos [OF q] quotient_of_div [OF q] quotient_of_coprime [OF q] by auto
  obtain m k where mk: "x * 10 ^ m = of_int k" using assms by (auto simp: is_decimal_def elim: is_intE)
  then have "(of_int (n * 10 ^ m) :: rat) = of_int (k * d)" using d by (simp add: x field_simps)
  then have "n * 10 ^ m = k * d" unfolding of_int_eq_iff .
  then have "d dvd n * 10 ^ m" by simp
  then have "d dvd 10 ^ m" using co by (simp add: coprime_commute coprime_dvd_mult_right_iff)
  then have "nat d dvd 10 ^ m" using d by (simp add: nat_dvd_iff)
  then have "nat d dvd 10 ^ places x" using decimal_places_dvd by (simp add: places_def q)
  then have "d dvd 10 ^ places x" using d by (simp add: nat_dvd_iff)
  then obtain c where c: "10 ^ places x = d * c" by (elim dvdE)
  have "x * 10 ^ places x = of_int n / of_int d * of_int (10 ^ places x)" by (simp add: x)
  also have "\<dots> = of_int (n * c)" unfolding c using d by simp
  finally show ?thesis by (simp only: is_int_of_int)
qed

lemma nat_text_digits: "nat_text n \<noteq> [] \<and> list_all is_digit (nat_text n)"
proof (induction n rule: nat_text.induct)
  case (1 n)
  have "is_digit (char_of (48 + r))" if "r < 10" for r :: nat
    using that by (simp add: is_digit_def Let_def)
  then show ?case using 1 by (simp add: nat_text.simps [of n])
qed

lemma zero_pad_digits: "list_all is_digit s \<Longrightarrow> list_all is_digit (zero_pad w s)"
  by (auto simp: zero_pad_def list_all_iff is_digit_def)

lemma zero_pad_length: "length (zero_pad w s) = max w (length s)"
  by (simp add: zero_pad_def)

lemma dropWhile_hd: "s \<noteq> [] \<Longrightarrow> \<not> P (hd s) \<Longrightarrow> dropWhile P s = s"
  by (cases s) simp_all

lemma strip_id: "s \<noteq> [] \<Longrightarrow> \<not> py_space (hd s) \<Longrightarrow> \<not> py_space (last s) \<Longrightarrow> strip s = s"
  using dropWhile_hd [of s py_space] dropWhile_hd [of "rev s" py_space] by (simp add: strip_def hd_rev)

lemma digit_plain:
  assumes "is_digit c"
  shows "\<not> py_space c" "c \<noteq> CHR ''_''" "c \<noteq> CHR ''-''" "c \<noteq> CHR ''+''" "c \<noteq> CHR ''.''"
    "lower c = c" "c \<noteq> CHR ''i''" "c \<noteq> CHR ''n''" "c \<noteq> CHR ''s''"
  using assms by (auto simp: is_digit_def py_space_def lower_def Let_def)

lemma takeWhile_digits: "list_all is_digit w \<Longrightarrow> \<not> is_digit c \<Longrightarrow> split_digits (w @ c # r) = (w, c # r)"
  by (induction w) (simp_all add: split_digits_def)

lemma takeWhile_all_digits: "list_all is_digit w \<Longrightarrow> split_digits w = (w, [])"
  by (induction w) (simp_all add: split_digits_def)

text \<open>The shape of a rendered decimal.\<close>

lemma decimal_text_shape:
  assumes "is_decimal x"
  obtains w p where "decimal_text x = (if x < 0 then ''-'' else '''') @ w @ (if p = [] then '''' else ''.'' @ p)"
    "w \<noteq> []" "list_all is_digit w" "list_all is_digit p"
    "of_nat (digits_value (w @ p)) * pow10 (- int (length p)) = \<bar>x\<bar>"
proof -
  define k where "k = places x"
  define n where "n = nat \<lfloor>\<bar>x\<bar> * 10 ^ k\<rfloor>"
  define digits where "digits = zero_pad (k + 1) (nat_text n)"
  define w p where "w = take (length digits - k) digits" and "p = drop (length digits - k) digits"
  have len: "k + 1 \<le> length digits" by (simp add: digits_def zero_pad_length)
  have all: "list_all is_digit digits"
    unfolding digits_def using nat_text_digits by (intro zero_pad_digits) simp
  have wp: "w @ p = digits" "length p = k" using len by (simp_all add: w_def p_def)
  from places_is_int [OF assms] obtain i where "x * 10 ^ k = of_int i" by (auto simp: k_def elim: is_intE)
  then have "\<bar>x * 10 ^ k\<bar> = of_int \<bar>i\<bar>" by simp
  then have i: "\<bar>x\<bar> * 10 ^ k = of_int \<bar>i\<bar>" by (simp only: abs_mult power_abs abs_numeral)
  then have n: "of_nat n = \<bar>x\<bar> * 10 ^ k" unfolding n_def i floor_of_int by simp
  show ?thesis
  proof (rule that [of w p])
    show "decimal_text x = (if x < 0 then ''-'' else '''') @ w @ (if p = [] then '''' else ''.'' @ p)"
      using wp(2) unfolding decimal_text_def Let_def k_def [symmetric] n_def [symmetric]
        digits_def [symmetric] w_def [symmetric] p_def [symmetric] by auto
    show "w \<noteq> []" using len by (cases digits) (auto simp: w_def)
    have "list_all is_digit (w @ p)" unfolding wp(1) by (rule all)
    then show "list_all is_digit w" "list_all is_digit p" by simp_all
    have "digits_value (w @ p) = n" unfolding wp digits_def by simp
    then show "of_nat (digits_value (w @ p)) * pow10 (- int (length p)) = \<bar>x\<bar>"
      using n pow10_cancel(1) [of "\<bar>x\<bar>" "int k"] unfolding wp(2) by (simp add: pow10_of_nat)
  qed
qed

lemma decimal_text_reads:
  assumes "is_decimal x"
  shows "parse_decimal (decimal_text x) = Some (Finite x)"
proof -
  from decimal_text_shape [OF assms] obtain w p
    where shape: "decimal_text x = (if x < 0 then ''-'' else '''') @ w @ (if p = [] then '''' else ''.'' @ p)"
      and w: "w \<noteq> []" "list_all is_digit w" and p: "list_all is_digit p"
      and v: "of_nat (digits_value (w @ p)) * pow10 (- int (length p)) = \<bar>x\<bar>" by blast
  define body where "body = w @ (if p = [] then '''' else ''.'' @ p)"
  obtain c r where c: "w = c # r" "is_digit c" using w by (cases w) auto
  have last: "is_digit (last body)" "body \<noteq> []"
    using w p by (auto simp: body_def list_all_iff last_append)
  have "strip (decimal_text x) = decimal_text x"
    unfolding shape body_def [symmetric] using last digit_plain(1) [OF c(2)] digit_plain(1) [OF last(1)]
    by (intro strip_id) (auto simp: py_space_def body_def c(1))
  moreover have "filter (\<lambda>c. c \<noteq> CHR ''_'') (decimal_text x) = decimal_text x"
    unfolding shape using w p digit_plain(2) by (auto simp: list_all_iff filter_id_conv)
  moreover have "split_sign (decimal_text x) = (x < 0, body)"
    unfolding shape body_def [symmetric] using digit_plain(3,4) [OF c(2)]
    by (auto simp: split_sign_def body_def c(1))
  moreover have "\<not> is_special body"
    using digit_plain(6-9) [OF c(2)] by (auto simp: is_special_def Let_def body_def c(1))
  moreover have "split_digits body = (w, if p = [] then '''' else ''.'' @ p)"
    using takeWhile_digits [OF w(2), of "CHR ''.''" p] takeWhile_all_digits [OF w(2)]
    by (auto simp: body_def is_digit_def)
  moreover have "split_digits p = (p, [])" using takeWhile_all_digits [OF p] .
  moreover have "(if x < 0 then - \<bar>x\<bar> else \<bar>x\<bar>) = x" by simp
  ultimately show ?thesis
    using w(1) v by (cases "p = []") (simp_all add: parse_decimal_def parse_exponent_def Let_def)
qed

text \<open>
  C21: Reading a rendered decimal gives the same decimal back: the decimal text in the ledger, the
  state file and the health file loses nothing.
\<close>

theorem parse_decimal_text:
  assumes "is_decimal x"
  shows "parse_decimal (decimal_text x) = Some (Finite x)"
  using assms by (rule decimal_text_reads)

theorem parse_decimal_text_witness: "parse_decimal ''-12.5'' = Some (Finite (- 25 / 2))"
proof -
  have "is_decimal (- 25 / 2)" unfolding is_decimal_def by (rule exI [of _ 1]) code_simp
  moreover have "decimal_text (- 25 / 2) = ''-12.5''" by code_simp
  ultimately show ?thesis using parse_decimal_text [of "- 25 / 2"] by simp
qed

text \<open>Every result of the 28-digit context is a decimal.\<close>

lemma rep_is_decimal: "rep x \<Longrightarrow> is_decimal x"
proof (cases "x = 0")
  case False
  assume "rep x"
  define k where "k = adjusted x - 27"
  from \<open>rep x\<close> obtain n where n: "x = of_int n * pow10 k"
    using False by (metis rep_def dec_round_def ulp_def k_def)
  have "x * 10 ^ nat (- k) = of_int (n * 10 ^ nat k)"
  proof (cases "0 \<le> k")
    case True
    then show ?thesis by (simp add: n power_int_def)
  next
    case False
    then show ?thesis by (simp add: n power_int_def field_simps)
  qed
  then show ?thesis unfolding is_decimal_def by (metis is_int_of_int)
qed (auto simp: is_decimal_def is_int_def)
section \<open>One line per record\<close>

lemma hex_digit_plain: "n < 16 \<Longrightarrow> 32 \<le> (of_char (hex_digit n) :: nat)"
  by (simp add: hex_digit_def)

lemma json_escape_plain: "x \<in> set (json_escape c) \<Longrightarrow> 32 \<le> (of_char x :: nat)"
proof -
  have "(of_char c :: nat) < 256" by (rule nat_of_char_less_256)
  then have "32 \<le> (of_char (hex_digit (of_char c div 16)) :: nat)" "32 \<le> (of_char (hex_digit (of_char c mod 16)) :: nat)"
    by (intro hex_digit_plain; simp add: less_mult_imp_div_less)+
  then show "x \<in> set (json_escape c) \<Longrightarrow> 32 \<le> (of_char x :: nat)"
    by (auto simp: json_escape_def Let_def split: if_splits)
qed

text \<open>Text without control characters: no line of the file ends inside a record.\<close>

definition printable :: "string \<Rightarrow> bool" where
  "printable s \<longleftrightarrow> (\<forall>c \<in> set s. 32 \<le> (of_char c :: nat))"

lemma printable_append [simp]:
  "printable []" "printable (s @ t) \<longleftrightarrow> printable s \<and> printable t"
  "printable (c # s) \<longleftrightarrow> 32 \<le> (of_char c :: nat) \<and> printable s"
  by (auto simp: printable_def)

lemma printable_quote: "printable (json_quote s)"
  using json_escape_plain by (auto simp: json_quote_def) (auto simp: printable_def)

lemma printable_nat: "printable (nat_text n)"
  using nat_text_digits [of n] by (auto simp: printable_def list_all_iff is_digit_def Let_def)

lemma printable_join: "printable sep \<Longrightarrow> \<forall>x \<in> set xs. printable x \<Longrightarrow> printable (join sep xs)"
  by (induction sep xs rule: join.induct) auto

lemma json_printable:
  "printable (json_text j)"
  "\<forall>s \<in> set (json_items js). printable s"
  "\<forall>kv \<in> set (json_fields kvs). printable (snd kv)"
proof (induction j and js and kvs rule: json_text_json_items_json_fields.induct)
  case (3 i)
  then show ?case using printable_nat by (simp add: int_text_def)
next
  case (4 s)
  then show ?case using printable_quote by simp
next
  case (5 js)
  then show ?case by (simp add: printable_join)
next
  case (6 kvs)
  then show ?case using printable_join [of "'',''" "map snd (sort_key fst (json_fields kvs))"] by auto
next
  case (10 k v kvs)
  then show ?case using printable_quote by auto
qed simp_all

end
