(* ===== verification/Ledger.thy ===== *)
theory Ledger
  imports Prelude DecimalText
begin

text \<open>
  \<^verbatim>\<open>paper_engine/ledger.py\<close>: the create-only run directory, the append-only ledger with its
  buffered commits, and the two projections replaced on every event. The file system is a
  parameter: \<open>rs_io\<close> says, for each file operation in turn, whether it succeeds, and if a ledger
  write fails, how many characters of the batch had reached the file. Proved: the file is at
  every moment a prefix of the text of the records appended so far, and a failed write is final.
\<close>

section \<open>The store\<close>

datatype io_result = Io_Ok | Io_Fail nat

record 'r run_store =
  rs_run_id :: string
  rs_durable :: bool
  rs_pending :: "'r list"
  rs_write_failed :: bool
  rs_lines :: "'r list"
  rs_torn :: string
  rs_claim :: "json option"
  rs_state :: "json option"
  rs_health :: "json option"
  rs_tick :: nat
  rs_io :: "nat \<Rightarrow> io_result"

definition HEALTH_SCHEMA :: string where "HEALTH_SCHEMA = ''paper-engine-health-v1''"
definition STATE_SCHEMA :: string where "STATE_SCHEMA = ''paper-engine-state-v2''"
definition CLAIM_SCHEMA :: string where "CLAIM_SCHEMA = ''paper-engine-run-claim-v1''"
definition STATE_RECENT_RECORD_LIMIT :: nat where "STATE_RECENT_RECORD_LIMIT = 100"

text \<open>The pattern \<^verbatim>\<open>^[a-z0-9][a-z0-9._-]{0,63}$\<close> with \<open>fullmatch\<close>.\<close>

definition lower_alnum :: "char \<Rightarrow> bool" where
  "lower_alnum c = (let n = (of_char c :: nat) in (97 \<le> n \<and> n \<le> 122) \<or> is_digit c)"

definition validate_run_id :: "string \<Rightarrow> string result" where
  "validate_run_id run_id =
     (case run_id of
        [] \<Rightarrow> Inl (ValueError ''run_id'')
      | c # rest \<Rightarrow>
          if lower_alnum c \<and> length rest \<le> 63
             \<and> list_all (\<lambda>c. lower_alnum c \<or> c = CHR ''.'' \<or> c = CHR ''_'' \<or> c = CHR ''-'') rest
          then Inr run_id else Inl (ValueError ''run_id''))"

text \<open>
  The constructor. Its state is the set of run directories that exist under the root; three file
  operations (the root, the run directory, the empty ledger).
\<close>

definition open_run_store ::
  "(nat \<Rightarrow> io_result) \<Rightarrow> string \<Rightarrow> bool \<Rightarrow> string set \<Rightarrow> ('r run_store, string set) outcome" where
  "open_run_store io run_id durable dirs =
     (case validate_run_id run_id of
        Inl e \<Rightarrow> Raise e dirs
      | Inr rid \<Rightarrow>
          if io 0 \<noteq> Io_Ok then Raise (OSError ''root'') dirs
          else if rid \<in> dirs then Raise (RunAlreadyExistsError rid) dirs
          else if io 1 \<noteq> Io_Ok then Raise (OSError ''run_dir'') dirs
          else if io 2 \<noteq> Io_Ok then Raise (OSError ''ledger'') (insert rid dirs)
          else Ok \<lparr>rs_run_id = rid, rs_durable = durable, rs_pending = [], rs_write_failed = False,
            rs_lines = [], rs_torn = [], rs_claim = None, rs_state = None, rs_health = None,
            rs_tick = 3, rs_io = io\<rparr> (insert rid dirs))"

definition io_step :: "'r run_store \<Rightarrow> io_result \<times> 'r run_store" where
  "io_step st = (rs_io st (rs_tick st), st\<lparr>rs_tick := Suc (rs_tick st)\<rparr>)"

section \<open>Operations\<close>

definition write_claim :: "json \<Rightarrow> 'r run_store \<Rightarrow> (unit, 'r run_store) outcome" where
  "write_claim payload st =
     (case io_step st of
        (Io_Fail n, st) \<Rightarrow> Raise (OSError ''run-claim.json'') st
      | (Io_Ok, st) \<Rightarrow>
          (let st = st\<lparr>rs_claim := Some payload\<rparr>
           in if \<not> rs_durable st then Ok () st
              else case io_step st of
                  (Io_Fail n, st) \<Rightarrow> Raise (OSError ''run_dir fsync'') st
                | (Io_Ok, st) \<Rightarrow>
                    (case io_step st of
                       (Io_Fail n, st) \<Rightarrow> Raise (OSError ''root fsync'') st
                     | (Io_Ok, st) \<Rightarrow> Ok () st)))"

definition append_record :: "'r \<Rightarrow> 'r run_store \<Rightarrow> (unit, 'r run_store) outcome" where
  "append_record payload st =
     (if rs_write_failed st then Raise (OSError ''an earlier ledger write failed'') st
      else Ok () (st\<lparr>rs_pending := rs_pending st @ [payload]\<rparr>))"

definition batch_text :: "('r \<Rightarrow> string) \<Rightarrow> 'r list \<Rightarrow> string" where
  "batch_text line rs = concat (map line rs)"

definition commit :: "('r \<Rightarrow> string) \<Rightarrow> 'r run_store \<Rightarrow> (unit, 'r run_store) outcome" where
  "commit line st =
     (if rs_write_failed st then Raise (OSError ''an earlier ledger write failed'') st
      else if rs_pending st = [] then Ok () st
      else case io_step st of
          (Io_Fail n, st) \<Rightarrow>
            Raise (OSError ''ledger.jsonl'')
              (st\<lparr>rs_torn := take n (batch_text line (rs_pending st)), rs_write_failed := True\<rparr>)
        | (Io_Ok, st) \<Rightarrow>
            Ok () (st\<lparr>rs_lines := rs_lines st @ rs_pending st, rs_pending := []\<rparr>))"

definition write_state :: "json \<Rightarrow> 'r run_store \<Rightarrow> (unit, 'r run_store) outcome" where
  "write_state payload st =
     (case io_step st of
        (Io_Fail n, st) \<Rightarrow> Raise (OSError ''state.json'') st
      | (Io_Ok, st) \<Rightarrow> Ok () (st\<lparr>rs_state := Some payload\<rparr>))"

definition write_health :: "json \<Rightarrow> 'r run_store \<Rightarrow> (unit, 'r run_store) outcome" where
  "write_health payload st =
     (case io_step st of
        (Io_Fail n, st) \<Rightarrow> Raise (OSError ''health.json'') st
      | (Io_Ok, st) \<Rightarrow> Ok () (st\<lparr>rs_health := Some payload\<rparr>))"

definition read_health :: "json \<Rightarrow> (string \<times> json) list result" where
  "read_health payload =
     (case payload of
        JObject kvs \<Rightarrow>
          if map_of kvs ''schema'' \<noteq> Some (JText HEALTH_SCHEMA)
          then Inl (ValueError ''health schema is not paper-engine-health-v1.'')
          else if map_of kvs ''mode'' \<noteq> Some (JText ''PAPER'')
          then Inl (ValueError ''health file is not a PAPER run.'')
          else if map_of kvs ''venue_orders_submitted'' \<noteq> Some (JBool False)
          then Inl (ValueError ''health file must record that no venue order was submitted.'')
          else Inr kvs
      | _ \<Rightarrow> Inl (ValueError ''health file must be a JSON object.''))"

section \<open>The audit trail\<close>

text \<open>
  \<open>history\<close> is what has been appended; \<open>ledger_text\<close> is the content of \<^verbatim>\<open>ledger.jsonl\<close>.
\<close>

definition history :: "'r run_store \<Rightarrow> 'r list" where
  "history st = rs_lines st @ rs_pending st"

definition ledger_text :: "('r \<Rightarrow> string) \<Rightarrow> 'r run_store \<Rightarrow> string" where
  "ledger_text line st = batch_text line (rs_lines st) @ rs_torn st"

definition store_wf :: "('r \<Rightarrow> string) \<Rightarrow> 'r run_store \<Rightarrow> bool" where
  "store_wf line st \<longleftrightarrow>
     (if rs_write_failed st then \<exists>n. rs_torn st = take n (batch_text line (rs_pending st)) else rs_torn st = [])"

lemma batch_text_append [simp]: "batch_text line (xs @ ys) = batch_text line xs @ batch_text line ys"
  by (simp add: batch_text_def)

lemma wf_ledger_prefix: "store_wf line st \<Longrightarrow> \<exists>rest. batch_text line (history st) = ledger_text line st @ rest"
  unfolding store_wf_def history_def ledger_text_def
  by (auto split: if_splits) (metis append_take_drop_id)

text \<open>
  The interface the engine relies on: an append-only log with a write-behind buffer. Every
  operation that returns extends the log by what it was given, and no operation, returning or
  raising, forgets or reorders a record.
\<close>

locale audit_log =
  fixes log :: "'s \<Rightarrow> 'r list"
    and failed :: "'s \<Rightarrow> bool"
    and add :: "'r \<Rightarrow> 's \<Rightarrow> (unit, 's) outcome"
    and flush :: "'s \<Rightarrow> (unit, 's) outcome"
  assumes add_ok: "\<not> failed s \<Longrightarrow> \<exists>s'. add r s = Ok () s' \<and> log s' = log s @ [r] \<and> \<not> failed s'"
    and add_failed: "failed s \<Longrightarrow> \<exists>e. add r s = Raise e s"
    and flush_log: "log (out_state (flush s)) = log s"
    and flush_failed: "failed s \<Longrightarrow> \<exists>e. flush s = Raise e s"
begin

lemma log_add: "log (out_state (add r s)) = log s @ (if failed s then [] else [r])"
  using add_ok [of s r] add_failed [of s r] by (cases "failed s") auto

fun adds :: "'r list \<Rightarrow> 's \<Rightarrow> 's" where
  "adds [] s = s"
| "adds (r # rs) s = adds rs (out_state (add r s))"

lemma adds_log: "\<not> failed s \<Longrightarrow> log (adds rs s) = log s @ rs \<and> \<not> failed (adds rs s)"
proof (induction rs arbitrary: s)
  case (Cons r rs)
  from add_ok [OF Cons.prems, of r] show ?case using Cons.IH by fastforce
qed simp

lemma failed_final: "failed s \<Longrightarrow> out_state (add r s) = s \<and> out_state (flush s) = s"
  using add_failed [of s r] flush_failed [of s] by fastforce

lemma log_extends: "\<exists>rs. log (out_state (add r s)) = log s @ rs"
  unfolding log_add by blast

end

lemma append_record_history:
  "history (out_state (append_record r st)) = history st @ (if rs_write_failed st then [] else [r])"
  by (simp add: append_record_def history_def)

lemma commit_history: "history (out_state (commit line st)) = history st"
  by (auto simp: commit_def history_def io_step_def split: io_result.splits)

interpretation ledger: audit_log history rs_write_failed append_record "commit line" for line
proof
  fix s :: "'a run_store" and r
  show "\<not> rs_write_failed s \<Longrightarrow>
      \<exists>s'. append_record r s = Ok () s' \<and> history s' = history s @ [r] \<and> \<not> rs_write_failed s'"
    by (simp add: append_record_def history_def)
  show "rs_write_failed s \<Longrightarrow> \<exists>e. append_record r s = Raise e s" by (simp add: append_record_def)
  show "history (out_state (commit line s)) = history s" by (rule commit_history)
  show "rs_write_failed s \<Longrightarrow> \<exists>e. commit line s = Raise e s" by (simp add: commit_def)
qed

section \<open>Any sequence of store operations\<close>

datatype 'r store_op = Append 'r | Commit | Write_Claim json | Write_State json | Write_Health json

fun store_step :: "('r \<Rightarrow> string) \<Rightarrow> 'r store_op \<Rightarrow> 'r run_store \<Rightarrow> (unit, 'r run_store) outcome" where
  "store_step line (Append r) st = append_record r st"
| "store_step line Commit st = commit line st"
| "store_step line (Write_Claim j) st = write_claim j st"
| "store_step line (Write_State j) st = write_state j st"
| "store_step line (Write_Health j) st = write_health j st"

text \<open>A caller may swallow an exception and go on: the run keeps the state either way.\<close>

fun store_run :: "('r \<Rightarrow> string) \<Rightarrow> 'r store_op list \<Rightarrow> 'r run_store \<Rightarrow> 'r run_store" where
  "store_run line [] st = st"
| "store_run line (op # ops) st = store_run line ops (out_state (store_step line op st))"

fun appended :: "'r store_op list \<Rightarrow> 'r list" where
  "appended [] = []"
| "appended (Append r # ops) = r # appended ops"
| "appended (_ # ops) = appended ops"

lemma write_claim_keeps:
  "history (out_state (write_claim j st)) = history st"
  "rs_pending (out_state (write_claim j st)) = rs_pending st"
  "rs_torn (out_state (write_claim j st)) = rs_torn st"
  "rs_write_failed (out_state (write_claim j st)) = rs_write_failed st"
  by (simp_all add: write_claim_def io_step_def history_def Let_def split: io_result.split)

lemma store_step_wf: "store_wf line st \<Longrightarrow> store_wf line (out_state (store_step line op st))"
  by (cases op) (auto simp: store_wf_def append_record_def commit_def write_state_def write_health_def
      write_claim_keeps io_step_def split: io_result.splits if_splits)

lemma store_run_wf: "store_wf line st \<Longrightarrow> store_wf line (store_run line ops st)"
  by (induction line ops st rule: store_run.induct) (simp_all add: store_step_wf)

lemma store_step_log:
  "history (out_state (store_step line op st)) =
     history st @ (if rs_write_failed st then [] else appended [op])"
proof (cases op)
  case (Write_State j)
  then show ?thesis by (simp add: write_state_def history_def io_step_def split: io_result.splits)
next
  case (Write_Health j)
  then show ?thesis by (simp add: write_health_def history_def io_step_def split: io_result.splits)
qed (simp_all add: append_record_history commit_history write_claim_keeps)

lemma appended_Cons: "appended (op # ops) = appended [op] @ appended ops"
  by (cases op) simp_all

lemma store_step_failed: "rs_write_failed st \<Longrightarrow> rs_write_failed (out_state (store_step line op st))"
  by (cases op) (auto simp: append_record_def commit_def write_state_def write_health_def
      write_claim_keeps io_step_def split: io_result.splits)

lemma store_run_log:
  "\<exists>kept dropped. appended ops = kept @ dropped \<and> history (store_run line ops st) = history st @ kept
     \<and> (\<not> rs_write_failed (store_run line ops st) \<longrightarrow> dropped = [])
     \<and> (rs_write_failed st \<longrightarrow> kept = [] \<and> rs_write_failed (store_run line ops st))"
proof (induction line ops st rule: store_run.induct)
  case (2 line op ops st)
  let ?st = "out_state (store_step line op st)"
  from 2 obtain kept dropped where IH: "appended ops = kept @ dropped"
    "history (store_run line ops ?st) = history ?st @ kept"
    "\<not> rs_write_failed (store_run line ops ?st) \<longrightarrow> dropped = []"
    "rs_write_failed ?st \<longrightarrow> kept = [] \<and> rs_write_failed (store_run line ops ?st)"
    by blast
  show ?case
  proof (cases "rs_write_failed st")
    case True
    with IH store_step_failed [OF True, of line op] show ?thesis
      by (intro exI [of _ "[]"] exI [of _ "appended (op # ops)"]) (simp add: store_step_log)
  next
    case False
    with IH show ?thesis
      unfolding appended_Cons [of op ops]
      by (intro exI [of _ "appended [op] @ kept"] exI [of _ dropped]) (simp add: store_step_log)
  qed
qed simp

text \<open>
  C14: The ledger is append-only and faithful: starting from a fresh run directory, after any sequence
  of operations and write failures the file holds a prefix of the text of the appended records,
  in order and without duplicates, and all of it after a commit that returned.
\<close>

theorem ledger_is_prefix_of_appended:
  assumes "open_run_store io run_id durable dirs = Ok st dirs'"
  shows "(\<exists>rest. batch_text line (appended ops) = ledger_text line (store_run line ops st) @ rest)
    \<and> (\<forall>st'. commit line (store_run line ops st) = Ok () st' \<longrightarrow>
          ledger_text line st' = batch_text line (appended ops))"
proof -
  have fresh: "history st = []" "store_wf line st" "\<not> rs_write_failed st"
    using assms by (auto simp: open_run_store_def history_def store_wf_def split: sum.splits if_splits)
  let ?st = "store_run line ops st"
  obtain kept dropped where log: "appended ops = kept @ dropped" "history ?st = kept"
    "\<not> rs_write_failed ?st \<longrightarrow> dropped = []"
    using store_run_log [of ops line st] fresh(1) by auto
  obtain rest where "batch_text line (history ?st) = ledger_text line ?st @ rest"
    using wf_ledger_prefix [OF store_run_wf [OF fresh(2)]] by blast
  then have "batch_text line (appended ops) = ledger_text line ?st @ (rest @ batch_text line dropped)"
    using log(1,2) by simp
  moreover have "ledger_text line st' = batch_text line (appended ops)"
    if c: "commit line ?st = Ok () st'" for st'
  proof -
    from c have ok: "\<not> rs_write_failed ?st" by (auto simp: commit_def)
    then have "rs_torn ?st = []" using store_run_wf [OF fresh(2), of ops] by (simp add: store_wf_def)
    moreover have "rs_lines st' = history ?st \<and> rs_torn st' = rs_torn ?st"
      using c ok by (auto simp: commit_def history_def io_step_def split: io_result.splits if_splits)
    ultimately show ?thesis using log ok by (simp add: ledger_text_def)
  qed
  ultimately show ?thesis by blast
qed

theorem ledger_is_prefix_of_appended_witness:
  "\<exists>st dirs' rest. open_run_store (\<lambda>n. if n = 4 then Io_Fail 2 else Io_Ok) ''run-1'' False {} = Ok st dirs'
     \<and> batch_text (\<lambda>r. r @ ''.'') [''a'', ''b'', ''c'']
       = ledger_text (\<lambda>r. r @ ''.'') (store_run (\<lambda>r. r @ ''.'') [Append ''a'', Commit, Append ''b'', Append ''c'', Commit] st) @ rest"
proof -
  let ?io = "\<lambda>n. if n = 4 then Io_Fail 2 else Io_Ok"
  obtain st :: "string run_store" and dirs' where o: "open_run_store ?io ''run-1'' False {} = Ok st dirs'"
    by (simp add: open_run_store_def validate_run_id_def lower_alnum_def is_digit_def)
  from ledger_is_prefix_of_appended [OF o, of "\<lambda>r. r @ ''.''" "[Append ''a'', Commit, Append ''b'', Append ''c'', Commit]"]
  show ?thesis using o by auto
qed

text \<open>
  A run identifier is opened at most once: after a directory exists, with or without an error
  while it was made, opening it again raises and changes nothing.
\<close>

theorem run_id_create_only:
  assumes "run_id \<in> out_state (open_run_store io run_id durable dirs :: ('r run_store, _) outcome)"
    and "io' 0 = Io_Ok" and "validate_run_id run_id = Inr rid"
  shows "(open_run_store io' run_id durable'
      (out_state (open_run_store io run_id durable dirs :: ('r run_store, _) outcome)) :: ('r run_store, _) outcome)
    = Raise (RunAlreadyExistsError run_id)
        (out_state (open_run_store io run_id durable dirs :: ('r run_store, _) outcome))"
proof -
  have "rid = run_id" using assms(3) by (auto simp: validate_run_id_def split: list.splits if_splits)
  then show ?thesis using assms by (simp add: open_run_store_def [of io'])
qed

theorem run_id_create_only_witness:
  "(open_run_store (\<lambda>_. Io_Ok) ''run-1'' True {''run-1''} :: (string run_store, _) outcome)
     = Raise (RunAlreadyExistsError ''run-1'') {''run-1''}"
proof -
  have v: "validate_run_id ''run-1'' = Inr ''run-1''" by code_simp
  have s: "out_state (open_run_store (\<lambda>_. Io_Ok) ''run-1'' False {} :: (string run_store, _) outcome) = {''run-1''}"
    by (simp add: open_run_store_def v)
  have "''run-1'' \<in> out_state (open_run_store (\<lambda>_. Io_Ok) ''run-1'' False {} :: (string run_store, _) outcome)"
    unfolding s by simp
  from run_id_create_only [OF this _ v, of "\<lambda>_. Io_Ok" True] show ?thesis unfolding s by simp
qed

text \<open>A run identifier cannot be a path: no separator, no drive, no leading dot.\<close>

theorem run_id_not_a_path:
  assumes "validate_run_id run_id = Inr rid"
  shows "rid = run_id \<and> run_id \<noteq> [] \<and> length run_id \<le> 64 \<and> hd run_id \<noteq> CHR ''.''
    \<and> CHR ''/'' \<notin> set run_id \<and> CHR 0x5C \<notin> set run_id \<and> CHR '':'' \<notin> set run_id \<and> CHR 0x00 \<notin> set run_id"
  using assms
  by (auto simp: validate_run_id_def lower_alnum_def is_digit_def Let_def list_all_iff split: list.splits if_splits)

theorem run_id_not_a_path_witness: "CHR ''/'' \<notin> set ''paper-2026.01_a'' \<and> hd ''paper-2026.01_a'' \<noteq> CHR ''.''"
proof -
  have "validate_run_id ''paper-2026.01_a'' = Inr ''paper-2026.01_a''" by code_simp
  then show ?thesis using run_id_not_a_path [of "''paper-2026.01_a''"] by blast
qed

end
