(* ===== verification/EngineState.thy ===== *)
theory EngineState
  imports PaperRisk Strategy Ledger
begin

text \<open>
  The state of \<^verbatim>\<open>paper_engine/engine.py\<close>: the validated configuration, the kill switch, orders,
  the records the engine keeps and writes, and the engine object itself, one field per attribute
  of \<open>PaperEngine\<close>. Also its pure readers: the freshness rule, the mark, the equity, the quote an
  order is priced against, and the helper functions at the end of the file.
\<close>

section \<open>Kill switch\<close>

datatype kill_switch = NONE | HALT_NEW | FLATTEN_HALT

fun kill_text :: "kill_switch \<Rightarrow> string" where
  "kill_text NONE = ''NONE''"
| "kill_text HALT_NEW = ''HALT_NEW''"
| "kill_text FLATTEN_HALT = ''FLATTEN_HALT''"

fun kill_rank :: "kill_switch \<Rightarrow> nat" where
  "kill_rank NONE = 0"
| "kill_rank HALT_NEW = 1"
| "kill_rank FLATTEN_HALT = 2"

text \<open>The switch is ordered by how much it forbids.\<close>

instantiation kill_switch :: linorder
begin

definition less_eq_kill_switch :: "kill_switch \<Rightarrow> kill_switch \<Rightarrow> bool" where
  "less_eq_kill_switch a b \<longleftrightarrow> kill_rank a \<le> kill_rank b"

definition less_kill_switch :: "kill_switch \<Rightarrow> kill_switch \<Rightarrow> bool" where
  "less_kill_switch a b \<longleftrightarrow> kill_rank a < kill_rank b"

instance
proof
  fix a b :: kill_switch
  show "a \<le> b \<Longrightarrow> b \<le> a \<Longrightarrow> a = b"
    by (cases a; cases b) (simp_all add: less_eq_kill_switch_def)
qed (auto simp: less_eq_kill_switch_def less_kill_switch_def)

end

section \<open>Configuration\<close>

record engine_config =
  cf_venue :: string
  cf_instrument_id :: string
  cf_starting_cash_usdc :: dec
  cf_taker_fee_rate :: dec
  cf_slippage_fraction :: dec
  cf_latency_ns :: int
  cf_allow_zero_latency :: bool
  cf_entry_price_band_fraction :: dec
  cf_exit_price_band_fraction :: dec
  cf_touch_refill_ns :: int
  cf_stale_after_ns :: int
  cf_max_position_quantity :: dec
  cf_max_notional_usdc :: dec
  cf_sz_decimals :: int
  cf_min_order_notional_usdc :: dec
  cf_stop_distance_fraction :: dec
  cf_volatility_multiple :: dec
  cf_risk_limits :: risk_limits
  cf_source_commit :: string
  cf_image_digest :: string
  cf_trading_mode :: raw_mode
  cf_durable_ledger :: bool

definition DEFAULT_ENGINE_CONFIG :: engine_config where
  "DEFAULT_ENGINE_CONFIG = \<lparr>
     cf_venue = ''hyperliquid'', cf_instrument_id = ''BTC-PERP'', cf_starting_cash_usdc = 100000,
     cf_taker_fee_rate = 45/100000, cf_slippage_fraction = 0, cf_latency_ns = 250000000,
     cf_allow_zero_latency = False, cf_entry_price_band_fraction = 1/100,
     cf_exit_price_band_fraction = 1/10, cf_touch_refill_ns = 1000000000,
     cf_stale_after_ns = 15000000000, cf_max_position_quantity = 1, cf_max_notional_usdc = 100000,
     cf_sz_decimals = 5, cf_min_order_notional_usdc = 10, cf_stop_distance_fraction = 2/100,
     cf_volatility_multiple = 1, cf_risk_limits = DEFAULT_PAPER_RISK_LIMITS,
     cf_source_commit = ''unknown'', cf_image_digest = ''unknown'', cf_trading_mode = ModeNone,
     cf_durable_ledger = True\<rparr>"

definition require_positive :: "dec \<Rightarrow> string \<Rightarrow> bool \<times> exn" where
  "require_positive value field = (0 < value, PaperEngineError field)"

definition require_non_negative :: "dec \<Rightarrow> string \<Rightarrow> bool \<times> exn" where
  "require_non_negative value field = (0 \<le> value, PaperEngineError field)"

definition band_checks :: "engine_config \<Rightarrow> dec \<Rightarrow> string \<Rightarrow> (bool \<times> exn) list" where
  "band_checks cf band name =
     [require_positive band name,
      (\<not> 1 \<le> band, PaperEngineError (name @ '' must be a fraction below 1.'')),
      (\<not> band \<le> cf_slippage_fraction cf,
        PaperEngineError (''slippage_fraction must be below '' @ name))]"

definition validate_config :: "engine_config \<Rightarrow> unit result" where
  "validate_config cf =
     res_bind (require_local_paper_mode (cf_trading_mode cf)) (\<lambda>_.
     res_bind (checks
       ([(cf_venue cf = ''hyperliquid'', PaperEngineError ''this engine build is the Hyperliquid PAPER profile.''),
         (cf_instrument_id cf \<noteq> [], PaperEngineError ''instrument_id must be non-empty text.''),
         require_positive (cf_starting_cash_usdc cf) ''starting_cash_usdc'',
         require_non_negative (cf_taker_fee_rate cf) ''taker_fee_rate'',
         require_non_negative (cf_slippage_fraction cf) ''slippage_fraction'',
         (0 \<le> cf_latency_ns cf, PaperEngineError ''latency_ns must be a non-negative integer.''),
         (\<not> (cf_latency_ns cf = 0 \<and> \<not> cf_allow_zero_latency cf),
           PaperEngineError ''latency_ns 0 fills a decision on its own quote'')]
        @ band_checks cf (cf_entry_price_band_fraction cf) ''entry_price_band_fraction''
        @ band_checks cf (cf_exit_price_band_fraction cf) ''exit_price_band_fraction''
        @ [(0 < cf_touch_refill_ns cf, PaperEngineError ''touch_refill_ns must be a positive integer.''),
           (0 < cf_stale_after_ns cf, PaperEngineError ''stale_after_ns must be a positive integer.''),
           require_positive (cf_max_position_quantity cf) ''max_position_quantity'',
           require_positive (cf_max_notional_usdc cf) ''max_notional_usdc'',
           require_positive (cf_min_order_notional_usdc cf) ''min_order_notional_usdc'',
           require_positive (cf_stop_distance_fraction cf) ''stop_distance_fraction'',
           require_positive (cf_volatility_multiple cf) ''volatility_multiple'',
           (\<not> cf_volatility_multiple cf < 1, PaperEngineError ''volatility_multiple must be >= 1.''),
           (\<not> 1 \<le> dmul (cf_stop_distance_fraction cf) (cf_volatility_multiple cf),
             PaperEngineError ''the effective stop distance must be a fraction below 1.''),
           (\<not> dmul (cf_stop_distance_fraction cf) (cf_volatility_multiple cf) \<le> cf_slippage_fraction cf,
             PaperEngineError ''the effective stop distance must exceed slippage_fraction'')])) (\<lambda>_.
     res_bind (perp_max_price_decimals (cf_sz_decimals cf)) (\<lambda>_.
     checks [(cf_source_commit cf \<noteq> [], PaperEngineError ''source_commit must be non-empty text.''),
             (cf_image_digest cf \<noteq> [], PaperEngineError ''image_digest must be non-empty text.'')])))"

section \<open>Orders and records\<close>

record desired_order =
  do_side :: side
  do_quantity :: dec
  do_reduce_only :: bool

record working_order =
  wo_client_order_id :: string
  wo_side :: side
  wo_quantity :: dec
  wo_desired_quantity :: dec
  wo_reduce_only :: bool
  wo_limit_price :: dec
  wo_eligible_received_ns :: int
  wo_decision_received_ns :: int
  wo_reason :: string
  wo_clipped :: bool
  wo_immediate_exit :: bool
  wo_position_key :: position_key

record taken =
  tk_quantity :: dec
  tk_until_ns :: int

text \<open>The dictionaries the engine builds for its ledger and its recent-record lists.\<close>

record fill_record =
  fr_client_order_id :: string
  fr_quote :: fill_quote
  fr_received_utc_ns :: int

datatype order_status = CANCELED | PARTIALLY_FILLED | FILLED

record completed_order =
  co_order :: working_order
  co_filled_quantity :: dec
  co_status :: order_status
  co_unfilled_reason :: "string option"
  co_strategy_id :: string
  co_configuration_version :: string

record canceled_order =
  ca_order :: working_order
  ca_why :: string
  ca_received_utc_ns :: int

datatype order_record = Completed completed_order | Canceled canceled_order

record rejection =
  rj_reason :: string
  rj_detail :: "string option"
  rj_received_utc_ns :: int
  rj_kill_switch :: kill_switch

datatype ledger_record =
    KillSwitchRecord kill_switch string
  | StopLockoutCleared dec int
  | StopTriggered dec dec string dec int
  | OrderAccepted working_order dec
  | FillRecord fill_record
  | OrderRecord order_record
  | RiskRejected rejection
  | StopSet dec dec dec dec int

type_synonym ledger = "ledger_record run_store"

section \<open>The engine\<close>

record 's engine =
  en_config :: engine_config
  en_mode :: string
  en_created_at :: utc
  en_created_ns :: int
  en_zone :: "utc \<Rightarrow> int"
  en_strategy :: "'s paper_strategy"
  en_strategy_state :: 's
  en_store :: ledger
  en_position_key :: position_key
  en_size_increment :: dec
  en_max_price_decimals :: int
  en_position :: position_state
  en_peak :: dec
  en_day :: "int option"
  en_day_start :: dec
  en_week :: "(int \<times> int) option"
  en_week_start :: dec
  en_last_daily_pnl :: dec
  en_last_weekly_pnl :: dec
  en_kill :: kill_switch
  en_kill_reason :: "string option"
  en_bbo :: "bbo_event option"
  en_trade :: "trade_event option"
  en_bar :: "bar_event option"
  en_venue_mark :: "dec option"
  en_venue_mark_ns :: "int option"
  en_bbo_mark :: "dec option"
  en_bbo_mark_ns :: "int option"
  en_last_data_ns :: "int option"
  en_source_clock_ns :: "int option"
  en_last_event_time :: "utc option"
  en_working :: "working_order option"
  en_next_order_number :: nat
  en_stop_price :: "dec option"
  en_trade_count :: nat
  en_stop_set_trade_count :: "nat option"
  en_stop_exit_pending :: bool
  en_stop_lockout :: int
  en_book_taken :: "side \<times> dec \<Rightarrow> taken option"
  en_trade_taken :: dec
  en_orders :: "order_record list"
  en_fills :: "fill_record list"
  en_rejections :: "rejection list"
  en_order_count :: nat
  en_fill_count :: nat
  en_rejection_count :: nat
  en_last_block :: "(string \<times> string option \<times> kill_switch \<times> desired_order option) option"
  en_closed :: bool
  en_failed :: bool
  en_failed_at :: "utc option"
  en_missing_flatten :: bool
  en_exit_waiting_for_quote :: bool

abbreviation position_of :: "'s engine \<Rightarrow> dec" where
  "position_of e \<equiv> ps_position_quantity (en_position e)"

abbreviation strategy_id_of :: "'s engine \<Rightarrow> string" where
  "strategy_id_of e \<equiv> st_strategy_id (en_strategy e) (en_strategy_state e)"

abbreviation strategy_version_of :: "'s engine \<Rightarrow> string" where
  "strategy_version_of e \<equiv> st_configuration_version (en_strategy e) (en_strategy_state e)"

end
