(* ===== verification/EngineView.thy ===== *)
theory EngineView
  imports EngineState
begin

text \<open>
  The readers of \<^verbatim>\<open>paper_engine/engine.py\<close>: the freshness rule, the mark, the equity, the quote
  an order is priced against and what PAPER's own fills left of it, the view of the strategy, and
  the JSON payloads of the claim, the state file, the health file and the ledger. None of them
  changes the state.
\<close>

section \<open>Freshness, mark and equity\<close>

definition source_is_fresh :: "'s engine \<Rightarrow> int option \<Rightarrow> bool" where
  "source_is_fresh e received =
     (case (received, en_source_clock_ns e) of
        (Some r, Some now) \<Rightarrow> now - r \<le> cf_stale_after_ns (en_config e)
      | _ \<Rightarrow> False)"

abbreviation event_is_fresh :: "'s engine \<Rightarrow> 'a event_base_scheme \<Rightarrow> bool" where
  "event_is_fresh e ev \<equiv> source_is_fresh e (Some (eb_received_utc_ns ev))"

definition display_mark :: "'s engine \<Rightarrow> (dec \<times> string) option" where
  "display_mark e =
     (let venue_ns = (if source_is_fresh e (en_venue_mark_ns e) then en_venue_mark_ns e else None);
          bbo_ns = (if source_is_fresh e (en_bbo_mark_ns e) then en_bbo_mark_ns e else None)
      in case (en_venue_mark e, venue_ns) of
           (Some mark, Some v) \<Rightarrow>
             if (case bbo_ns of None \<Rightarrow> True | Some b \<Rightarrow> v \<ge> b) then Some (mark, ''venue_mark'')
             else (case (en_bbo_mark e, bbo_ns) of (Some m, Some b) \<Rightarrow> Some (m, ''bbo_mid'') | _ \<Rightarrow> None)
         | _ \<Rightarrow> (case (en_bbo_mark e, bbo_ns) of (Some m, Some b) \<Rightarrow> Some (m, ''bbo_mid'') | _ \<Rightarrow> None))"

definition equity :: "'s engine \<Rightarrow> dec option" where
  "equity e =
     (if position_of e = 0 then Some (ps_cash_usdc (en_position e))
      else case display_mark e of
          None \<Rightarrow> None
        | Some (mark, _) \<Rightarrow> Some (dadd (ps_cash_usdc (en_position e)) (dmul (position_of e) mark)))"

section \<open>The touch\<close>

definition book_complete :: "'s engine \<Rightarrow> bool" where
  "book_complete e =
     (case en_bbo e of None \<Rightarrow> False | Some b \<Rightarrow> event_is_fresh e b \<and> bbo_is_complete b)"

text \<open>The quote an order is priced against: a complete book, else the last trade.\<close>

datatype touch_event = BookTouch bbo_event | TradeTouch trade_event

fun touch_received :: "touch_event \<Rightarrow> int" where
  "touch_received (BookTouch b) = eb_received_utc_ns b"
| "touch_received (TradeTouch t) = eb_received_utc_ns t"

definition current_touch_event :: "'s engine \<Rightarrow> touch_event option" where
  "current_touch_event e =
     (if book_complete e then map_option BookTouch (en_bbo e)
      else case en_trade e of
          None \<Rightarrow> None
        | Some t \<Rightarrow> if event_is_fresh e t then Some (TradeTouch t) else None)"

fun displayed :: "touch_event \<Rightarrow> side \<Rightarrow> dec option \<times> dec option" where
  "displayed (TradeTouch t) sd = (Some (te_price t), Some (te_quantity t))"
| "displayed (BookTouch b) sd =
     (if sd = BUY then (be_ask_price b, be_ask_size b) else (be_bid_price b, be_bid_size b))"

definition taken_at :: "'s engine \<Rightarrow> touch_event \<Rightarrow> side \<Rightarrow> dec \<Rightarrow> int \<Rightarrow> dec" where
  "taken_at e event sd price received_ns =
     (case event of
        TradeTouch t \<Rightarrow> en_trade_taken e
      | BookTouch b \<Rightarrow>
          (case en_book_taken e (sd, price) of
             None \<Rightarrow> 0
           | Some held \<Rightarrow> if tk_until_ns held \<le> received_ns then 0 else tk_quantity held))"

text \<open>Touch price, the size PAPER may still take, and whether its own fills used it up.\<close>

definition available :: "'s engine \<Rightarrow> touch_event \<Rightarrow> side \<Rightarrow> int \<Rightarrow> dec option \<times> dec option \<times> bool" where
  "available e event sd received_ns =
     (case displayed event sd of
        (Some price, Some sz) \<Rightarrow>
          if sz \<le> 0 then (Some price, Some sz, False)
          else (let used = taken_at e event sd price received_ns in
            if used \<le> 0 then (Some price, Some sz, False)
            else (let left = dsub sz used in
              if left \<le> 0 then (Some price, Some 0, True) else (Some price, Some left, False)))
      | (price, sz) \<Rightarrow> (price, sz, False))"

definition touch_used_up :: "'s engine \<Rightarrow> side \<Rightarrow> int \<Rightarrow> bool" where
  "touch_used_up e sd received_ns =
     (case current_touch_event e of
        None \<Rightarrow> False
      | Some event \<Rightarrow> snd (snd (available e event sd received_ns)))"

definition price_order :: "'s engine \<Rightarrow> side \<Rightarrow> (dec \<times> dec) option" where
  "price_order e sd =
     (case current_touch_event e of
        None \<Rightarrow> None
      | Some event \<Rightarrow> (case displayed event sd of
          (Some price, Some sz) \<Rightarrow> Some (price, sz) | _ \<Rightarrow> None))"

section \<open>Desired orders\<close>

definition desired_order_for :: "dec \<Rightarrow> dec \<Rightarrow> desired_order option" where
  "desired_order_for position target =
     (let delta = dsub target position
      in if delta = 0 then None
         else if position = 0
         then Some \<lparr>do_side = (if delta > 0 then BUY else SELL), do_quantity = dabs delta, do_reduce_only = False\<rparr>
         else if position > 0 \<and> delta < 0
         then Some \<lparr>do_side = SELL, do_quantity = min (dabs delta) position, do_reduce_only = True\<rparr>
         else if position < 0 \<and> delta > 0
         then Some \<lparr>do_side = BUY, do_quantity = min delta (dabs position), do_reduce_only = True\<rparr>
         else Some \<lparr>do_side = (if delta > 0 then BUY else SELL), do_quantity = dabs delta, do_reduce_only = False\<rparr>)"

definition flatten_desired :: "dec \<Rightarrow> desired_order option" where
  "flatten_desired position =
     (if position > 0 then Some \<lparr>do_side = SELL, do_quantity = position, do_reduce_only = True\<rparr>
      else if position < 0
      then Some \<lparr>do_side = BUY, do_quantity = dabs position, do_reduce_only = True\<rparr>
      else None)"

definition same_desire :: "working_order \<Rightarrow> desired_order \<Rightarrow> bool" where
  "same_desire w d \<longleftrightarrow> wo_side w = do_side d \<and> wo_desired_quantity w = do_quantity d
     \<and> wo_reduce_only w = do_reduce_only d"

definition sign_of :: "dec \<Rightarrow> int" where
  "sign_of value = (if value > 0 then 1 else if value < 0 then - 1 else 0)"

definition signed :: "side \<Rightarrow> dec \<Rightarrow> dec" where
  "signed sd quantity = (if sd = BUY then quantity else dneg quantity)"

definition limit_price :: "'s engine \<Rightarrow> desired_order \<Rightarrow> dec \<Rightarrow> dec result" where
  "limit_price e desired touch_price =
     (let band = (if do_reduce_only desired then cf_exit_price_band_fraction (en_config e)
            else cf_entry_price_band_fraction (en_config e));
          raw = (if do_side desired = BUY then dmul touch_price (dadd 1 band)
            else dmul touch_price (dsub 1 band))
      in protective_price raw (do_side desired) (en_max_price_decimals e))"

definition clip_entry :: "'s engine \<Rightarrow> dec \<Rightarrow> dec \<Rightarrow> (dec \<times> bool) option result" where
  "clip_entry e quantity price =
     (case equity e of
        None \<Rightarrow> Inr None
      | Some eq \<Rightarrow>
          if eq \<le> 0 then Inr None
          else res_bind (size_paper_notional_usdc eq (cf_stop_distance_fraction (en_config e))
              (rl_risk_per_trade_fraction (cf_risk_limits (en_config e)))
              (cf_volatility_multiple (en_config e))) (\<lambda>notional.
            res_bind (size_paper_quantity notional price (en_size_increment e)) (\<lambda>sized.
              if sized \<le> 0 then Inr None
              else if quantity > sized then Inr (Some (sized, True))
              else Inr (Some (quantity, False)))))"

definition position_version :: "'s engine \<Rightarrow> string" where
  "position_version e =
     rs_run_id (en_store e) @ '':'' @ nat_text (en_next_order_number e) @ '':''
       @ nat_text (en_order_count e) @ '':'' @ nat_text (en_fill_count e)"

definition paper_position :: "'s engine \<Rightarrow> working_order option \<Rightarrow> signed_position" where
  "paper_position e evaluating =
     \<lparr>sp_key = en_position_key e, sp_quantity = Some (position_of e),
      sp_version = Some (position_version e),
      sp_pending_order_quantity = Some
        (case en_working e of None \<Rightarrow> 0 | Some w \<Rightarrow> if evaluating = Some w then 0 else wo_quantity w),
      sp_reconciled = (\<not> en_failed e \<and> strategy_id_of e = pk_strategy_id (en_position_key e))\<rparr>"

section \<open>The view of the strategy\<close>

definition fresh_only :: "'s engine \<Rightarrow> 'a event_base_scheme option \<Rightarrow> 'a event_base_scheme option" where
  "fresh_only e ev = (case ev of None \<Rightarrow> None | Some x \<Rightarrow> if event_is_fresh e x then Some x else None)"

definition view_of :: "'s engine \<Rightarrow> strategy_view" where
  "view_of e =
     (let bbo = fresh_only e (en_bbo e); trade = fresh_only e (en_trade e); bar = fresh_only e (en_bar e)
      in \<lparr>sv_position_quantity = position_of e,
          sv_bid_price = Option.bind bbo be_bid_price,
          sv_ask_price = Option.bind bbo be_ask_price,
          sv_mid_price = Option.bind bbo bbo_mid,
          sv_last_trade_price = map_option te_price trade,
          sv_venue_mark_price = (if source_is_fresh e (en_venue_mark_ns e) then en_venue_mark e else None),
          sv_last_bar_close = map_option br_close_price bar,
          sv_kill_switch = kill_text (en_kill e)\<rparr>)"

end
