(* ===== verification/EnginePayload.thy ===== *)
theory EnginePayload
  imports EngineView
begin

text \<open>
  The JSON values \<^verbatim>\<open>paper_engine/engine.py\<close> writes: the run claim, one object per ledger record,
  the state projection and the health projection, with every key of the source. Proved: what the
  engine writes as its health file is accepted by \<open>read_health\<close>. What a reader of the ledger file gets back is in \<open>LedgerReplay\<close>.
\<close>

section \<open>Building blocks\<close>

definition j_dec :: "dec \<Rightarrow> json" where "j_dec x = JText (decimal_text x)"

definition j_opt :: "('a \<Rightarrow> json) \<Rightarrow> 'a option \<Rightarrow> json" where
  "j_opt f x = (case x of None \<Rightarrow> JNull | Some v \<Rightarrow> f v)"

definition side_text :: "side \<Rightarrow> string" where
  "side_text sd = (if sd = BUY then ''BUY'' else ''SELL'')"

definition source_text :: "fill_source \<Rightarrow> string" where
  "source_text s = (case s of FromBbo \<Rightarrow> ''bbo'' | FromTrade \<Rightarrow> ''trade'')"

fun status_text :: "order_status \<Rightarrow> string" where
  "status_text CANCELED = ''CANCELED''"
| "status_text PARTIALLY_FILLED = ''PARTIALLY_FILLED''"
| "status_text FILLED = ''FILLED''"

definition LIMITATIONS :: "string list" where
  "LIMITATIONS =
     [''PAPER simulation only. No venue order was submitted.'',
      ''The shipped reference strategy is non-production and has no researched edge.'',
      ''Funding is not settled. PnL is simulated, not venue-reconciled.'',
      ''Fills are an IOC touch or trade-print model, not a queue-position model.'',
      ''Stops trigger on the engine mark (venue mark when fresher, else BBO mid).'',
      ''run_id is create-only. This directory is not a resume checkpoint.'',
      ''D22-B, TESTNET, SHADOW, and LIVE are out of scope.'']"

section \<open>Ledger records\<close>

definition fill_fields :: "fill_record \<Rightarrow> (string \<times> json) list" where
  "fill_fields f =
     [(''client_order_id'', JText (fr_client_order_id f)),
      (''side'', JText (side_text (fq_side (fr_quote f)))),
      (''quantity'', j_dec (fq_quantity (fr_quote f))),
      (''price'', j_dec (fq_price (fr_quote f))),
      (''fee_usdc'', j_dec (fq_fee_usdc (fr_quote f))),
      (''source'', JText (source_text (fq_source (fr_quote f)))),
      (''received_utc_ns'', JInt (fr_received_utc_ns f)),
      (''venue_fill'', JBool False)]"

fun order_fields :: "engine_config \<Rightarrow> order_record \<Rightarrow> (string \<times> json) list" where
  "order_fields cf (Completed c) =
     (let w = co_order c in
     [(''client_order_id'', JText (wo_client_order_id w)),
      (''side'', JText (side_text (wo_side w))),
      (''quantity'', j_dec (wo_quantity w)),
      (''filled_quantity'', j_dec (co_filled_quantity c)),
      (''reduce_only'', JBool (wo_reduce_only w)),
      (''limit_price'', j_dec (wo_limit_price w)),
      (''status'', JText (status_text (co_status c))),
      (''unfilled_reason'', j_opt JText (co_unfilled_reason c)),
      (''reason'', JText (wo_reason w)),
      (''clipped_to_risk_size'', JBool (wo_clipped w)),
      (''environment'', JText ''PAPER''),
      (''venue'', JText (cf_venue cf)),
      (''strategy_id'', JText (co_strategy_id c)),
      (''configuration_version'', JText (co_configuration_version c)),
      (''source_commit'', JText (cf_source_commit cf)),
      (''image_digest'', JText (cf_image_digest cf)),
      (''correlation_id'', JText (wo_client_order_id w)),
      (''venue_orders_submitted'', JBool False)])"
| "order_fields cf (Canceled c) =
     (let w = ca_order c in
     [(''client_order_id'', JText (wo_client_order_id w)),
      (''side'', JText (side_text (wo_side w))),
      (''quantity'', j_dec (wo_quantity w)),
      (''filled_quantity'', JText ''0''),
      (''reduce_only'', JBool (wo_reduce_only w)),
      (''limit_price'', j_dec (wo_limit_price w)),
      (''status'', JText ''CANCELED''),
      (''reason'', JText (ca_why c)),
      (''received_utc_ns'', JInt (ca_received_utc_ns c)),
      (''venue_orders_submitted'', JBool False)])"

definition rejection_fields :: "rejection \<Rightarrow> (string \<times> json) list" where
  "rejection_fields r =
     [(''reason'', JText (rj_reason r)),
      (''detail'', j_opt JText (rj_detail r)),
      (''received_utc_ns'', JInt (rj_received_utc_ns r)),
      (''kill_switch'', JText (kill_text (rj_kill_switch r)))]"

definition paper_record :: "string \<Rightarrow> (string \<times> json) list \<Rightarrow> json" where
  "paper_record kind kvs = JObject ([(''type'', JText kind), (''mode'', JText ''PAPER'')] @ kvs)"

fun ledger_payload :: "engine_config \<Rightarrow> ledger_record \<Rightarrow> json" where
  "ledger_payload cf (KillSwitchRecord k reason) =
     JObject [(''type'', JText ''kill_switch''), (''state'', JText (kill_text k)), (''reason'', JText reason)]"
| "ledger_payload cf (StopLockoutCleared target received) =
     paper_record ''stop_lockout_cleared''
       [(''target_quantity'', j_dec target), (''received_utc_ns'', JInt received)]"
| "ledger_payload cf (StopTriggered stop mark source position received) =
     paper_record ''stop_triggered''
       [(''stop_price'', j_dec stop), (''mark_price'', j_dec mark), (''mark_source'', JText source),
        (''position_quantity'', j_dec position), (''received_utc_ns'', JInt received)]"
| "ledger_payload cf (OrderAccepted w touch) =
     paper_record ''order_accepted''
       [(''client_order_id'', JText (wo_client_order_id w)), (''side'', JText (side_text (wo_side w))),
        (''quantity'', j_dec (wo_quantity w)), (''reduce_only'', JBool (wo_reduce_only w)),
        (''limit_price'', j_dec (wo_limit_price w)), (''touch_price'', j_dec touch),
        (''reason'', JText (wo_reason w)), (''clipped_to_risk_size'', JBool (wo_clipped w)),
        (''received_utc_ns'', JInt (wo_decision_received_ns w)), (''venue_orders_submitted'', JBool False)]"
| "ledger_payload cf (FillRecord f) = paper_record ''fill'' (fill_fields f)"
| "ledger_payload cf (OrderRecord (Completed c)) =
     JObject ((''type'', JText ''order_completed'') # order_fields cf (Completed c))"
| "ledger_payload cf (OrderRecord (Canceled c)) =
     JObject ((''type'', JText ''order_canceled'') # order_fields cf (Canceled c))"
| "ledger_payload cf (RiskRejected r) = paper_record ''risk_rejected'' (rejection_fields r)"
| "ledger_payload cf (StopSet stop average position distance received) =
     paper_record ''stop_set''
       [(''stop_price'', j_dec stop), (''average_entry_price'', j_dec average),
        (''position_quantity'', j_dec position), (''stop_distance_fraction'', j_dec distance),
        (''received_utc_ns'', JInt received)]"

definition ledger_line :: "engine_config \<Rightarrow> ledger_record \<Rightarrow> string" where
  "ledger_line cf r = json_text (ledger_payload cf r) @ [CHR 0x0A]"

section \<open>Claim, state and health\<close>

definition claim_payload :: "'s engine \<Rightarrow> json result" where
  "claim_payload e =
     (let cf = en_config e; st = en_strategy e; s = en_strategy_state e in
     res_bind (effective_stop_distance_fraction (cf_stop_distance_fraction cf) (cf_volatility_multiple cf)) (\<lambda>stop.
     res_bind (format_amsterdam (en_zone e) (en_created_at e)) (\<lambda>local_time.
     Inr (JObject
       [(''schema'', JText CLAIM_SCHEMA), (''mode'', JText ''PAPER''),
        (''run_id'', JText (rs_run_id (en_store e))), (''create_only'', JBool True), (''resume'', JBool False),
        (''venue'', JText (cf_venue cf)), (''instrument_id'', JText (cf_instrument_id cf)),
        (''strategy_id'', JText (st_strategy_id st s)),
        (''strategy_configuration_version'', JText (st_configuration_version st s)),
        (''strategy_label'', JText (st_label st s)),
        (''production_eligible'', JBool (st_production_eligible st s)),
        (''source_commit'', JText (cf_source_commit cf)), (''image_digest'', JText (cf_image_digest cf)),
        (''latency_ns'', JInt (cf_latency_ns cf)),
        (''entry_price_band_fraction'', j_dec (cf_entry_price_band_fraction cf)),
        (''exit_price_band_fraction'', j_dec (cf_exit_price_band_fraction cf)),
        (''touch_refill_ns'', JInt (cf_touch_refill_ns cf)),
        (''stop_distance_fraction'', j_dec stop),
        (''created_at_utc'', JText (format_utc (en_created_at e))),
        (''created_at_local'', JText local_time),
        (''timezone'', JText ''Europe/Amsterdam''),
        (''venue_orders_submitted'', JBool False)]))))"

definition stop_projection :: "'s engine \<Rightarrow> (string \<times> json) list" where
  "stop_projection e =
     [(''stop_price'', j_opt j_dec (en_stop_price e)),
      (''stop_exit_pending'', JBool (en_stop_exit_pending e)),
      (''stop_lockout'', if en_stop_lockout e = 1 then JText ''long''
         else if en_stop_lockout e = - 1 then JText ''short'' else JNull)]"

definition unrealized_of :: "'s engine \<Rightarrow> dec option" where
  "unrealized_of e =
     unrealized_pnl (position_of e) (ps_average_entry_price (en_position e))
       (map_option fst (display_mark e))"

definition state_payload :: "'s engine \<Rightarrow> json" where
  "state_payload e =
     (let cf = en_config e; st = en_strategy e; s = en_strategy_state e; p = en_position e in
     JObject (
       [(''schema'', JText STATE_SCHEMA), (''mode'', JText ''PAPER''),
        (''run_id'', JText (rs_run_id (en_store e))),
        (''venue'', JText (cf_venue cf)), (''instrument_id'', JText (cf_instrument_id cf)),
        (''strategy_id'', JText (st_strategy_id st s)),
        (''strategy_configuration_version'', JText (st_configuration_version st s)),
        (''production_eligible'', JBool (st_production_eligible st s)),
        (''source_commit'', JText (cf_source_commit cf)), (''image_digest'', JText (cf_image_digest cf)),
        (''position_quantity'', j_dec (ps_position_quantity p)),
        (''average_entry_price'', j_dec (ps_average_entry_price p)),
        (''cash_usdc'', j_dec (ps_cash_usdc p)),
        (''realized_pnl_usdc'', j_dec (ps_realized_pnl_usdc p)),
        (''unrealized_pnl_usdc'', j_opt j_dec (unrealized_of e)),
        (''fees_usdc'', j_dec (ps_fees_usdc p)),
        (''kill_switch'', JText (kill_text (en_kill e))),
        (''kill_reason'', j_opt JText (en_kill_reason e))]
       @ stop_projection e @
       [(''orders'', JList (map (JObject \<circ> order_fields cf) (en_orders e))),
        (''fills'', JList (map (JObject \<circ> fill_fields) (en_fills e))),
        (''risk_rejections'', JList (map (JObject \<circ> rejection_fields) (en_rejections e))),
        (''recent_record_limit'', JInt (int STATE_RECENT_RECORD_LIMIT)),
        (''order_count'', JInt (int (en_order_count e))),
        (''fill_count'', JInt (int (en_fill_count e))),
        (''risk_rejection_count'', JInt (int (en_rejection_count e))),
        (''open_order'', j_opt (JText \<circ> wo_client_order_id) (en_working e)),
        (''venue_orders_submitted'', JBool False), (''resume'', JBool False)]))"

definition health_status :: "'s engine \<Rightarrow> string" where
  "health_status e =
     (if en_failed e then ''FAILED''
      else if en_closed e \<and> en_kill e = NONE then ''COMPLETED''
      else if en_kill e \<noteq> NONE then kill_text (en_kill e)
      else ''RUNNING'')"

definition health_payload :: "'s engine \<Rightarrow> utc \<Rightarrow> json result" where
  "health_payload e observed =
     (let cf = en_config e; st = en_strategy e; s = en_strategy_state e; p = en_position e;
          mark = display_mark e in
     res_bind (case en_last_event_time e of None \<Rightarrow> Inr JNull
       | Some t \<Rightarrow> res_bind (format_amsterdam (en_zone e) t) (\<lambda>x. Inr (JText x))) (\<lambda>last_local.
     res_bind (format_amsterdam (en_zone e) observed) (\<lambda>observed_local.
     Inr (JObject (
       [(''schema'', JText HEALTH_SCHEMA), (''mode'', JText ''PAPER''),
        (''run_id'', JText (rs_run_id (en_store e))),
        (''status'', JText (health_status e)), (''run_closed'', JBool (en_closed e)),
        (''kill_switch'', JText (kill_text (en_kill e))),
        (''kill_reason'', j_opt JText (en_kill_reason e)),
        (''strategy_id'', JText (st_strategy_id st s)), (''strategy_label'', JText (st_label st s)),
        (''strategy_configuration_version'', JText (st_configuration_version st s)),
        (''production_eligible'', JBool (st_production_eligible st s)),
        (''position_quantity'', j_dec (ps_position_quantity p)),
        (''average_entry_price'', j_dec (ps_average_entry_price p)),
        (''realized_pnl_usdc'', j_dec (ps_realized_pnl_usdc p)),
        (''unrealized_pnl_usdc'', j_opt j_dec (unrealized_of e)),
        (''fees_usdc'', j_dec (ps_fees_usdc p)),
        (''equity_usdc'', j_opt j_dec (equity e)),
        (''mark_price'', j_opt (j_dec \<circ> fst) mark), (''mark_source'', j_opt (JText \<circ> snd) mark),
        (''stale'', JBool (en_kill_reason e = Some ''stale_data''))]
       @ stop_projection e @
       [(''flatten_blocked_missing_price'', JBool (en_missing_flatten e)),
        (''exit_waiting_for_quote'', JBool (en_exit_waiting_for_quote e)),
        (''ledger_write_failed'', JBool (rs_write_failed (en_store e))),
        (''last_event_at_utc'', j_opt (JText \<circ> format_utc) (en_last_event_time e)),
        (''last_event_at_local'', last_local),
        (''observed_at_utc'', JText (format_utc observed)), (''observed_at_local'', JText observed_local),
        (''timezone'', JText ''Europe/Amsterdam''),
        (''order_count'', JInt (int (en_order_count e))), (''fill_count'', JInt (int (en_fill_count e))),
        (''risk_rejection_count'', JInt (int (en_rejection_count e))),
        (''source_commit'', JText (cf_source_commit cf)), (''image_digest'', JText (cf_image_digest cf)),
        (''venue'', JText (cf_venue cf)), (''instrument_id'', JText (cf_instrument_id cf)),
        (''venue_orders_submitted'', JBool False), (''twenty_four_seven'', JBool False),
        (''resume'', JBool False), (''limitations'', JList (map JText LIMITATIONS))])))))"

section \<open>Properties\<close>

lemma ledger_line_printable: "printable (json_text (ledger_payload cf r))"
  by (rule json_printable(1))

lemma health_payload_Inr:
  assumes "health_payload e observed = Inr j"
  obtains kvs where "j = JObject kvs" "map_of kvs ''schema'' = Some (JText HEALTH_SCHEMA)"
    "map_of kvs ''mode'' = Some (JText ''PAPER'')"
    "map_of kvs ''venue_orders_submitted'' = Some (JBool False)"
    "map_of kvs ''status'' = Some (JText (health_status e))"
    "map_of kvs ''position_quantity'' = Some (j_dec (position_of e))"
  using assms unfolding health_payload_def Let_def res_bind_Inr_iff
  by (elim exE conjE) (auto simp: stop_projection_def intro!: that)

text \<open>
  The health file the engine writes is one its reader accepts, and it reports the engine's status.
\<close>

theorem health_reads_back:
  assumes "health_payload e observed = Inr j"
  shows "\<exists>kvs. read_health j = Inr kvs \<and> map_of kvs ''status'' = Some (JText (health_status e))
    \<and> (map_of kvs ''status'' = Some (JText ''FAILED'') \<longleftrightarrow> en_failed e)"
proof -
  obtain kvs where "j = JObject kvs" "map_of kvs ''schema'' = Some (JText HEALTH_SCHEMA)"
    "map_of kvs ''mode'' = Some (JText ''PAPER'')"
    "map_of kvs ''venue_orders_submitted'' = Some (JBool False)"
    and status: "map_of kvs ''status'' = Some (JText (health_status e))"
    using assms by (rule health_payload_Inr)
  then have "read_health j = Inr kvs" by (simp add: read_health_def)
  moreover have "health_status e = ''FAILED'' \<longleftrightarrow> en_failed e"
    by (cases "en_kill e") (simp_all add: health_status_def)
  ultimately show ?thesis using status by simp
qed

end
