(* ===== verification/Engine.thy ===== *)
theory Engine
  imports EnginePayload
begin

text \<open>
  The operations of \<open>PaperEngine\<close> (\<^verbatim>\<open>paper_engine/engine.py\<close>), one definition per method, in the
  order they call each other. A method that can raise returns an \<open>outcome\<close>, whose state is the one
  the object was left in. \<open>is\<close> comparisons of the source are equalities here: the compared events
  and orders are the stored ones, and two stored ones with equal contents are not distinguished by
  any later step.
\<close>

abbreviation seq :: "(unit, 's) outcome \<Rightarrow> ('s \<Rightarrow> ('b, 's) outcome) \<Rightarrow> ('b, 's) outcome" where
  "seq m f \<equiv> andthen m (\<lambda>_. f)"

abbreviation skip :: "'s \<Rightarrow> (unit, 's) outcome" where
  "skip \<equiv> Ok ()"

section \<open>Ledger and projections\<close>

definition on_store :: "(ledger \<Rightarrow> (unit, ledger) outcome) \<Rightarrow> 's engine \<Rightarrow> (unit, 's engine) outcome" where
  "on_store f e =
     (case f (en_store e) of
        Ok u s \<Rightarrow> Ok u (e\<lparr>en_store := s\<rparr>)
      | Raise ex s \<Rightarrow> Raise ex (e\<lparr>en_store := s\<rparr>))"

definition emit :: "ledger_record \<Rightarrow> 's engine \<Rightarrow> (unit, 's engine) outcome" where
  "emit r e = on_store (append_record r) e"

definition commit_ledger :: "'s engine \<Rightarrow> (unit, 's engine) outcome" where
  "commit_ledger e = on_store (commit (ledger_line (en_config e))) e"

definition write_health_at :: "utc \<Rightarrow> 's engine \<Rightarrow> (unit, 's engine) outcome" where
  "write_health_at observed e =
     andthen (lift_result (health_payload e observed) e) (\<lambda>j. on_store (write_health j))"

definition persist :: "utc \<Rightarrow> 's engine \<Rightarrow> (unit, 's engine) outcome" where
  "persist observed e =
     seq (commit_ledger e) (\<lambda>e.
     seq (on_store (write_state (state_payload e)) e) (\<lambda>e.
     write_health_at observed e))"

text \<open>\<open>contextlib.suppress(Exception)\<close>.\<close>

definition suppress :: "('s \<Rightarrow> (unit, 's) outcome) \<Rightarrow> 's \<Rightarrow> 's" where
  "suppress f s = out_state (f s)"

definition write_failed_projections :: "utc \<Rightarrow> 's engine \<Rightarrow> 's engine" where
  "write_failed_projections observed e =
     (let e = suppress (write_health_at observed) e
      in suppress (\<lambda>e. on_store (write_state (state_payload e)) e) e)"

definition fail_closed :: "utc \<Rightarrow> ('a, 's engine) outcome \<Rightarrow> ('a, 's engine) outcome" where
  "fail_closed observed m =
     (case m of
        Ok x e \<Rightarrow> Ok x e
      | Raise ex e \<Rightarrow>
          (let e = e\<lparr>en_failed := True, en_failed_at := Some observed\<rparr>;
               e = suppress commit_ledger e
           in Raise ex (write_failed_projections observed e)))"

section \<open>Halts and rejections\<close>

definition reject ::
  "string \<Rightarrow> string option \<Rightarrow> int \<Rightarrow> desired_order option \<Rightarrow> 's engine \<Rightarrow> (unit, 's engine) outcome" where
  "reject reason detail received_ns desired e =
     (let key = (reason, detail, en_kill e, desired)
      in if en_last_block e = Some key then skip e
         else (let r = \<lparr>rj_reason = reason, rj_detail = detail, rj_received_utc_ns = received_ns,
                 rj_kill_switch = en_kill e\<rparr>
           in emit (RiskRejected r)
             (e\<lparr>en_last_block := Some key, en_rejection_count := Suc (en_rejection_count e),
                en_rejections := push_last STATE_RECENT_RECORD_LIMIT (en_rejections e) r\<rparr>)))"

definition halt_new :: "string \<Rightarrow> 's engine \<Rightarrow> (unit, 's engine) outcome" where
  "halt_new reason e =
     (if en_kill e = FLATTEN_HALT then skip e
      else if en_kill e = NONE
      then emit (KillSwitchRecord HALT_NEW reason) (e\<lparr>en_kill := HALT_NEW, en_kill_reason := Some reason\<rparr>)
      else skip e)"

definition flatten_halt :: "string \<Rightarrow> 's engine \<Rightarrow> (unit, 's engine) outcome" where
  "flatten_halt reason e =
     (if en_kill e = FLATTEN_HALT then skip e
      else emit (KillSwitchRecord FLATTEN_HALT reason)
        (e\<lparr>en_kill := FLATTEN_HALT, en_kill_reason := Some reason\<rparr>))"

definition release_halt :: "string \<Rightarrow> 's engine \<Rightarrow> (unit, 's engine) outcome" where
  "release_halt reason e =
     (if en_kill e \<noteq> HALT_NEW \<or> en_kill_reason e \<noteq> Some reason then skip e
      else emit (KillSwitchRecord NONE (reason @ ''_window_reset''))
        (e\<lparr>en_kill := NONE, en_kill_reason := None\<rparr>))"

section \<open>Market state and loss limits\<close>

definition advance_source_clock :: "int \<Rightarrow> 's engine \<Rightarrow> 's engine" where
  "advance_source_clock received_ns e =
     (if (case en_source_clock_ns e of None \<Rightarrow> True | Some c \<Rightarrow> received_ns > c)
      then e\<lparr>en_source_clock_ns := Some received_ns\<rparr> else e)"

definition stale_gap :: "int \<Rightarrow> 's engine \<Rightarrow> bool" where
  "stale_gap received_ns e =
     (case en_last_data_ns e of
        None \<Rightarrow> False
      | Some latest \<Rightarrow> received_ns - latest > cf_stale_after_ns (en_config e))"

fun update_market :: "market_event \<Rightarrow> 's engine \<Rightarrow> 's engine" where
  "update_market (Bbo b) e =
     (if bbo_is_complete b
      then e\<lparr>en_bbo := Some b, en_bbo_mark := bbo_mid b, en_bbo_mark_ns := Some (eb_received_utc_ns b)\<rparr>
      else e\<lparr>en_bbo := Some b, en_bbo_mark := None, en_bbo_mark_ns := None\<rparr>)"
| "update_market (Trade t) e =
     e\<lparr>en_trade := Some t, en_trade_count := Suc (en_trade_count e), en_trade_taken := 0\<rparr>"
| "update_market (Mark m) e =
     e\<lparr>en_venue_mark := me_mark_price m,
       en_venue_mark_ns := (if me_mark_price m = None then None else Some (eb_received_utc_ns m))\<rparr>"
| "update_market (Bar b) e = e\<lparr>en_bar := Some b\<rparr>"

definition roll_day :: "int \<Rightarrow> dec \<Rightarrow> 's engine \<Rightarrow> (unit, 's engine) outcome" where
  "roll_day day eq e =
     (case en_day e of
        None \<Rightarrow> skip e
      | Some d \<Rightarrow>
          if day > d then release_halt ''daily_loss'' (e\<lparr>en_day := Some day, en_day_start := eq\<rparr>)
          else skip e)"

definition roll_week :: "int \<times> int \<Rightarrow> dec \<Rightarrow> 's engine \<Rightarrow> (unit, 's engine) outcome" where
  "roll_week week eq e =
     (case en_week e of
        None \<Rightarrow> skip e
      | Some w \<Rightarrow>
          if week > w then release_halt ''weekly_loss'' (e\<lparr>en_week := Some week, en_week_start := eq\<rparr>)
          else skip e)"

definition roll_windows :: "utc \<Rightarrow> dec \<Rightarrow> 's engine \<Rightarrow> (unit, 's engine) outcome" where
  "roll_windows event_time eq e =
     (let day = utc_date event_time; week = iso_week day
      in if en_day e = None \<or> en_week e = None
         then skip (e\<lparr>en_day := Some day, en_week := Some week\<rparr>)
         else seq (roll_day day eq e) (roll_week week eq))"

definition check_losses :: "dec \<Rightarrow> 's engine \<Rightarrow> (unit, 's engine) outcome" where
  "check_losses eq e =
     (let limits = cf_risk_limits (en_config e);
          daily_limit = dmul (en_day_start e) (rl_daily_loss_fraction limits);
          weekly_limit = dmul (en_week_start e) (rl_weekly_loss_fraction limits);
          daily = dsub eq (en_day_start e); weekly = dsub eq (en_week_start e);
          e = e\<lparr>en_last_daily_pnl := daily, en_last_weekly_pnl := weekly\<rparr>
      in seq (if daily \<le> dneg daily_limit then halt_new ''daily_loss'' e else skip e) (\<lambda>e.
         if weekly \<le> dneg weekly_limit then halt_new ''weekly_loss'' e else skip e))"

definition mark_limits :: "utc \<Rightarrow> 's engine \<Rightarrow> (unit, 's engine) outcome" where
  "mark_limits event_time e =
     (case equity e of
        None \<Rightarrow> if position_of e \<noteq> 0 then halt_new ''missing_price'' e else skip e
      | Some eq \<Rightarrow>
          seq (roll_windows event_time eq e) (\<lambda>e.
            (let e = (if eq > en_peak e then e\<lparr>en_peak := eq\<rparr> else e)
             in if en_peak e = 0 then Raise ZeroDivisionError e
                else if ddiv (dsub (en_peak e) eq) (en_peak e)
                    \<ge> rl_drawdown_kill_fraction (cf_risk_limits (en_config e))
                then flatten_halt ''drawdown'' e
                else check_losses eq e)))"

section \<open>Orders\<close>

definition record_order :: "order_record \<Rightarrow> 's engine \<Rightarrow> (unit, 's engine) outcome" where
  "record_order r e =
     seq (emit (OrderRecord r)
       (e\<lparr>en_orders := push_last STATE_RECENT_RECORD_LIMIT (en_orders e) r,
          en_order_count := Suc (en_order_count e)\<rparr>)) (\<lambda>e.
     skip (e\<lparr>en_working := None\<rparr>))"

definition cancel_working :: "int \<Rightarrow> string \<Rightarrow> 's engine \<Rightarrow> (unit, 's engine) outcome" where
  "cancel_working received_ns why e =
     (case en_working e of
        None \<Rightarrow> skip e
      | Some w \<Rightarrow> record_order
          (Canceled \<lparr>ca_order = w, ca_why = why, ca_received_utc_ns = received_ns\<rparr>) e)"

definition risk_equity :: "'s engine \<Rightarrow> dec \<Rightarrow> dec" where
  "risk_equity e price =
     (case equity e of
        Some eq \<Rightarrow> eq
      | None \<Rightarrow> dadd (ps_cash_usdc (en_position e)) (dmul (position_of e) price))"

definition risk_snapshot :: "'s engine \<Rightarrow> signed_position \<Rightarrow> dec \<Rightarrow> portfolio_snapshot result" where
  "risk_snapshot e position price =
     (let eq = risk_equity e price
      in paper_snapshot_for_bounded_book eq price (position_of e) (en_last_daily_pnl e)
        (en_last_weekly_pnl e) (Some (if en_peak e \<ge> eq then en_peak e else eq)) (Some position))"

definition risk_intent ::
  "'s engine \<Rightarrow> signed_position \<Rightarrow> side \<Rightarrow> dec \<Rightarrow> dec \<Rightarrow> bool \<Rightarrow> order_intent" where
  "risk_intent e position sd quantity price reduce_only =
     \<lparr>oi_side = sd, oi_quantity = quantity, oi_price = price, oi_reduce_only = reduce_only,
      oi_stop_distance_fraction = cf_stop_distance_fraction (en_config e),
      oi_volatility_multiple = cf_volatility_multiple (en_config e),
      oi_asset_id = cf_instrument_id (en_config e), oi_strategy_id = strategy_id_of e,
      oi_venue_id = cf_venue (en_config e), oi_position_key = Some (sp_key position),
      oi_position_version = sp_version position\<rparr>"

definition reasons_text :: "risk_reason list \<Rightarrow> string" where
  "reasons_text reasons = join ''; '' (map reason_text reasons)"

definition paper_risk_allows ::
  "side \<Rightarrow> dec \<Rightarrow> dec \<Rightarrow> bool \<Rightarrow> int \<Rightarrow> desired_order \<Rightarrow> working_order option \<Rightarrow> 's engine
    \<Rightarrow> (bool, 's engine) outcome" where
  "paper_risk_allows sd quantity price reduce_only received_ns desired evaluating e =
     (let position = paper_position e evaluating;
          key = (case evaluating of None \<Rightarrow> en_position_key e | Some w \<Rightarrow> wo_position_key w);
          refuse = (\<lambda>reason detail e. seq (reject reason detail received_ns (Some desired) e) (Ok False))
      in andthen (lift_result (paper_position_rejection_reasons (Some position) (Some key)
             (sp_version position) sd quantity reduce_only (ModeText (en_mode e))) e) (\<lambda>reasons e.
         if reasons \<noteq> [] then refuse ''paper_risk'' (Some (reasons_text reasons)) e
         else if equity e = None \<and> \<not> reduce_only then refuse ''missing_price'' (Some ''equity'') e
         else if risk_equity e price \<le> 0
         then (if reduce_only then Ok True e else refuse ''non_positive_equity'' None e)
         else andthen (lift_result (risk_snapshot e position price) e) (\<lambda>snapshot e.
           andthen (lift_result (evaluate_paper_hard_limits snapshot
               (risk_intent e position sd quantity price reduce_only)
               (cf_risk_limits (en_config e)) (ModeText (en_mode e))) e) (\<lambda>decision e.
             if rd_approved decision then Ok True e
             else refuse ''paper_risk'' (Some (reasons_text (rd_reasons decision))) e))))"

text \<open>The checks on an entry's size, at the price the risk is taken at.\<close>

definition entry_size ::
  "desired_order \<Rightarrow> dec \<Rightarrow> dec \<Rightarrow> dec \<Rightarrow> dec \<Rightarrow> int \<Rightarrow> string \<Rightarrow> 's engine
    \<Rightarrow> ((dec \<times> bool) option, 's engine) outcome" where
  "entry_size desired quantity risk_price touch_price limit received_ns reason e =
     (let refuse = (\<lambda>why e. seq (reject why (Some reason) received_ns (Some desired) e) (Ok None))
      in andthen (lift_result (clip_entry e quantity risk_price) e) (\<lambda>clip e.
         case clip of
           None \<Rightarrow> refuse ''risk_based_size'' e
         | Some (sized, clipped) \<Rightarrow>
             (let projected = dadd (position_of e) (signed (do_side desired) sized)
              in if dabs projected > cf_max_position_quantity (en_config e) then refuse ''max_position'' e
                 else if dmul (dabs projected) risk_price > cf_max_notional_usdc (en_config e)
                 then refuse ''max_notional'' e
                 else if dmul sized (min touch_price limit) < cf_min_order_notional_usdc (en_config e)
                 then refuse ''min_notional'' e
                 else andthen (paper_risk_allows (do_side desired) sized risk_price False received_ns
                     desired None e) (\<lambda>ok e. Ok (if ok then Some (sized, clipped) else None) e))))"

definition client_order_id :: "'s engine \<Rightarrow> string" where
  "client_order_id e =
     rs_run_id (en_store e) @ ''-'' @ zero_pad 6 (nat_text (en_next_order_number e))"

definition accept_order ::
  "desired_order \<Rightarrow> dec \<Rightarrow> bool \<Rightarrow> dec \<Rightarrow> dec \<Rightarrow> int \<Rightarrow> string \<Rightarrow> bool \<Rightarrow> 's engine
    \<Rightarrow> (unit, 's engine) outcome" where
  "accept_order desired quantity clipped limit touch_price received_ns reason immediate e =
     (let w = \<lparr>wo_client_order_id = client_order_id e, wo_side = do_side desired,
            wo_quantity = quantity, wo_desired_quantity = do_quantity desired,
            wo_reduce_only = do_reduce_only desired, wo_limit_price = limit,
            wo_eligible_received_ns = received_ns
              + (if immediate then 0 else cf_latency_ns (en_config e)),
            wo_decision_received_ns = received_ns, wo_reason = reason, wo_clipped = clipped,
            wo_immediate_exit = immediate, wo_position_key = en_position_key e\<rparr>
      in emit (OrderAccepted w touch_price)
        (e\<lparr>en_next_order_number := Suc (en_next_order_number e), en_working := Some w,
           en_missing_flatten := False, en_last_block := None\<rparr>))"

text \<open>From the priced order on: the limit, the size, the risk checks, the acceptance.\<close>

definition submit_priced ::
  "desired_order \<Rightarrow> dec \<Rightarrow> int \<Rightarrow> string \<Rightarrow> bool \<Rightarrow> 's engine \<Rightarrow> (unit, 's engine) outcome" where
  "submit_priced desired touch_price received_ns reason immediate e =
     (let risk_price = dmul touch_price (dadd 1 (cf_entry_price_band_fraction (en_config e)))
      in andthen (lift_result (limit_price e desired touch_price) e) (\<lambda>limit e.
         andthen (lift_result (floor_size (do_quantity desired) (en_size_increment e)) e) (\<lambda>quantity e.
         if quantity \<le> 0 then reject ''below_increment'' (Some reason) received_ns (Some desired) e
         else if \<not> do_reduce_only desired
         then andthen (entry_size desired quantity risk_price touch_price limit received_ns reason e)
           (\<lambda>sized e. case sized of
               None \<Rightarrow> skip e
             | Some (q, clipped) \<Rightarrow>
                 accept_order desired q clipped limit touch_price received_ns reason immediate e)
         else andthen (paper_risk_allows (do_side desired) quantity touch_price True received_ns
             desired None e)
           (\<lambda>ok e. if ok
             then accept_order desired quantity False limit touch_price received_ns reason immediate e
             else skip e))))"

definition submit_desired ::
  "desired_order option \<Rightarrow> int \<Rightarrow> string \<Rightarrow> bool \<Rightarrow> bool \<Rightarrow> 's engine \<Rightarrow> (unit, 's engine) outcome" where
  "submit_desired desired_opt received_ns reason immediate fills_on_decision_quote e =
     (case desired_opt of
        None \<Rightarrow>
          (let e = e\<lparr>en_last_block := None\<rparr>
           in if en_working e \<noteq> None then cancel_working received_ns ''target-flat'' e else skip e)
      | Some desired \<Rightarrow>
          if (case en_working e of
                None \<Rightarrow> False
              | Some w \<Rightarrow> same_desire w desired
                  \<and> \<not> (immediate \<and> \<not> wo_immediate_exit w \<and> wo_eligible_received_ns w > received_ns))
          then skip e
          else seq (if en_working e \<noteq> None then cancel_working received_ns ''replaced'' e else skip e) (\<lambda>e.
            if en_kill e = HALT_NEW \<and> \<not> do_reduce_only desired
            then reject ''halt_new'' (en_kill_reason e) received_ns (Some desired) e
            else if en_kill e = FLATTEN_HALT \<and> \<not> do_reduce_only desired
            then reject ''flatten_halt'' (en_kill_reason e) received_ns (Some desired) e
            else case price_order e (do_side desired) of
                None \<Rightarrow> reject ''missing_price'' (Some reason) received_ns (Some desired)
                  (e\<lparr>en_missing_flatten := do_reduce_only desired\<rparr>)
              | Some (touch_price, touch_size) \<Rightarrow>
                  if fills_on_decision_quote \<and> touch_used_up e (do_side desired) received_ns
                  then reject ''touch_consumed'' (Some reason) received_ns (Some desired) e
                  else submit_priced desired touch_price received_ns reason immediate e))"

section \<open>Fills\<close>

definition update_stop_after_fill :: "dec \<Rightarrow> int \<Rightarrow> 's engine \<Rightarrow> (unit, 's engine) outcome" where
  "update_stop_after_fill position_before received_ns e =
     (let after = position_of e
      in if after = 0
         then skip (e\<lparr>en_stop_price := None, en_stop_set_trade_count := None,
           en_stop_exit_pending := False, en_exit_waiting_for_quote := False\<rparr>)
         else if dabs after \<le> dabs position_before \<and> sign_of after = sign_of position_before then skip e
         else andthen (lift_result (effective_stop_distance_fraction
               (cf_stop_distance_fraction (en_config e)) (cf_volatility_multiple (en_config e))) e)
             (\<lambda>distance e.
           (let average = ps_average_entry_price (en_position e);
                stop = (if after > 0 then dmul average (dsub 1 distance) else dmul average (dadd 1 distance))
            in emit (StopSet stop average after distance received_ns)
              (e\<lparr>en_stop_price := Some stop, en_stop_set_trade_count := Some (en_trade_count e)\<rparr>))))"

definition take_touch :: "touch_event \<Rightarrow> fill_quote \<Rightarrow> int \<Rightarrow> 's engine \<Rightarrow> (unit, 's engine) outcome" where
  "take_touch event quote received_ns e =
     (case event of
        TradeTouch t \<Rightarrow> skip (e\<lparr>en_trade_taken := dadd (en_trade_taken e) (fq_quantity quote)\<rparr>)
      | BookTouch b \<Rightarrow>
          (case fst (displayed event (fq_side quote)) of
             None \<Rightarrow> Raise (PaperEngineError ''a book fill must have a touch price.'') e
           | Some price \<Rightarrow>
               (let key = (fq_side quote, price);
                    total = (case en_book_taken e key of
                        Some held \<Rightarrow> if tk_until_ns held > received_ns
                          then dadd (fq_quantity quote) (tk_quantity held) else fq_quantity quote
                      | None \<Rightarrow> fq_quantity quote);
                    live = (\<lambda>k. case en_book_taken e k of
                        Some held \<Rightarrow> if tk_until_ns held \<le> received_ns then None else Some held
                      | None \<Rightarrow> None)
                in skip (e\<lparr>en_book_taken := live(key \<mapsto>
                  \<lparr>tk_quantity = total,
                   tk_until_ns = received_ns + cf_touch_refill_ns (en_config e)\<rparr>)\<rparr>))))"

text \<open>The part of \<open>_complete_ioc\<close> that books the fill.\<close>

definition book_fill ::
  "working_order \<Rightarrow> fill_quote \<Rightarrow> touch_event \<Rightarrow> int \<Rightarrow> 's engine \<Rightarrow> (unit, 's engine) outcome" where
  "book_fill w quote event received_ns e =
     andthen (lift_result (apply_fill (en_position e) quote) e) (\<lambda>position e.
     seq (take_touch event quote received_ns (e\<lparr>en_position := position\<rparr>)) (\<lambda>e.
       (let f = \<lparr>fr_client_order_id = wo_client_order_id w, fr_quote = quote,
              fr_received_utc_ns = received_ns\<rparr>
        in emit (FillRecord f)
          (e\<lparr>en_fills := push_last STATE_RECENT_RECORD_LIMIT (en_fills e) f,
             en_fill_count := Suc (en_fill_count e)\<rparr>))))"

definition ioc_status :: "dec \<Rightarrow> dec \<Rightarrow> string option \<Rightarrow> order_status \<times> string option" where
  "ioc_status filled quantity unfilled =
     (if filled \<le> 0 then (CANCELED, unfilled)
      else if filled < quantity then (PARTIALLY_FILLED, Some ''touch_size'')
      else (FILLED, None))"

definition complete_ioc ::
  "working_order \<Rightarrow> fill_quote option \<Rightarrow> touch_event \<Rightarrow> int \<Rightarrow> string option \<Rightarrow> 's engine
    \<Rightarrow> (unit, 's engine) outcome" where
  "complete_ioc w quote event received_ns unfilled_reason e =
     (if en_working e \<noteq> Some w then skip e
      else (let position_before = position_of e;
                filled = (case quote of None \<Rightarrow> 0 | Some q \<Rightarrow> fq_quantity q);
                (status, unfilled) = ioc_status filled (wo_quantity w) unfilled_reason
       in seq (case quote of None \<Rightarrow> skip e | Some q \<Rightarrow> book_fill w q event received_ns e) (\<lambda>e.
          seq (record_order (Completed \<lparr>co_order = w, co_filled_quantity = filled, co_status = status,
                co_unfilled_reason = unfilled, co_strategy_id = strategy_id_of e,
                co_configuration_version = strategy_version_of e\<rparr>) e) (\<lambda>e.
          seq (if filled > 0 then update_stop_after_fill position_before received_ns e else skip e) (\<lambda>e.
          skip (e\<lparr>en_missing_flatten := wo_reduce_only w \<and> position_of e \<noteq> 0 \<and> filled \<le> 0
              \<and> unfilled = Some ''no_touch''\<rparr>))))))"

definition entry_fill_allows ::
  "working_order \<Rightarrow> fill_quote \<Rightarrow> int \<Rightarrow> 's engine \<Rightarrow> (bool, 's engine) outcome" where
  "entry_fill_allows w quote received_ns e =
     (let desired = \<lparr>do_side = wo_side w, do_quantity = wo_desired_quantity w, do_reduce_only = False\<rparr>;
          projected = dadd (position_of e) (signed (wo_side w) (fq_quantity quote));
          refuse = (\<lambda>why. seq (reject why (Some ''entry fill exceeds the current hard limit'')
            received_ns (Some desired) e) (Ok False))
      in if dabs projected > cf_max_position_quantity (en_config e) then refuse ''max_position''
         else if dmul (dabs projected) (fq_price quote) > cf_max_notional_usdc (en_config e)
         then refuse ''max_notional''
         else paper_risk_allows (wo_side w) (fq_quantity quote) (fq_price quote) False received_ns
           desired (Some w) e)"

definition beyond_limit :: "working_order \<Rightarrow> fill_quote \<Rightarrow> bool" where
  "beyond_limit w quote =
     (if wo_side w = BUY then fq_price quote > wo_limit_price w else fq_price quote < wo_limit_price w)"

fun touch_source :: "touch_event \<Rightarrow> fill_source" where
  "touch_source (BookTouch b) = FromBbo"
| "touch_source (TradeTouch t) = FromTrade"

definition quote_order ::
  "working_order \<Rightarrow> touch_event \<Rightarrow> int \<Rightarrow> 's engine \<Rightarrow> (fill_quote option \<times> string option, 's engine) outcome" where
  "quote_order w event received_ns e =
     (let (touch_price, touch_size, used_up) = available e event (wo_side w) received_ns
      in if used_up then Ok (None, Some ''touch_consumed'') e
         else andthen (lift_result (quote_taker_fill (wo_side w) (wo_quantity w) touch_price touch_size
             (cf_slippage_fraction (en_config e)) (cf_taker_fee_rate (en_config e)) (en_size_increment e)
             (en_max_price_decimals e) (touch_source event)) e) (\<lambda>quote e.
           case quote of
             None \<Rightarrow> Ok (None, Some ''no_touch'') e
           | Some q \<Rightarrow>
               if beyond_limit w q then Ok (None, Some ''price_band'') e
               else andthen
                 (if wo_reduce_only w
                  then paper_risk_allows (wo_side w) (wo_quantity w) (fq_price q) True received_ns
                    \<lparr>do_side = wo_side w, do_quantity = wo_desired_quantity w, do_reduce_only = True\<rparr>
                    (Some w) e
                  else entry_fill_allows w q received_ns e)
                 (\<lambda>ok e. if ok then Ok (Some q, None) e else Ok (None, Some ''risk_rejected'') e)))"

definition fill_against :: "working_order \<Rightarrow> touch_event \<Rightarrow> int \<Rightarrow> 's engine \<Rightarrow> (unit, 's engine) outcome" where
  "fill_against w event received_ns e =
     andthen
       (if \<not> source_is_fresh e (Some (touch_received event)) then Ok (None, Some ''stale_quote'') e
        else if (case event of BookTouch b \<Rightarrow> \<not> bbo_is_complete b | TradeTouch t \<Rightarrow> False)
        then Ok (None, Some ''no_touch'') e
        else quote_order w event received_ns e)
       (\<lambda>(quote, unfilled). complete_ioc w quote event received_ns unfilled)"

definition fill_working_from_book :: "int \<Rightarrow> 's engine \<Rightarrow> (unit, 's engine) outcome" where
  "fill_working_from_book received_ns e =
     (case en_working e of
        None \<Rightarrow> skip e
      | Some w \<Rightarrow>
          if received_ns < wo_eligible_received_ns w then skip e
          else (case current_touch_event e of
              None \<Rightarrow> skip (e\<lparr>en_missing_flatten := wo_reduce_only w \<and> position_of e \<noteq> 0\<rparr>)
            | Some event \<Rightarrow> fill_against w event received_ns e))"

definition try_fill :: "market_event \<Rightarrow> 's engine \<Rightarrow> (unit, 's engine) outcome" where
  "try_fill event e =
     (case en_working e of
        None \<Rightarrow> skip e
      | Some w \<Rightarrow>
          if received_utc_ns event < wo_eligible_received_ns w then skip e
          else (case event of
              Bbo b \<Rightarrow> fill_against w (BookTouch b) (received_utc_ns event) e
            | Trade t \<Rightarrow> if book_complete e then skip e
                else fill_against w (TradeTouch t) (received_utc_ns event) e
            | _ \<Rightarrow> skip e))"

section \<open>Exits\<close>

definition attempt_immediate_exit ::
  "desired_order option \<Rightarrow> int \<Rightarrow> string \<Rightarrow> 's engine \<Rightarrow> (unit, 's engine) outcome" where
  "attempt_immediate_exit desired received_ns reason e =
     (if (case desired of None \<Rightarrow> False | Some d \<Rightarrow> touch_used_up e (do_side d) received_ns)
      then (let e = e\<lparr>en_exit_waiting_for_quote := True\<rparr>
        in case en_working e of
             None \<Rightarrow> skip e
           | Some w \<Rightarrow> if \<not> wo_immediate_exit w then cancel_working received_ns (reason @ ''-pending'') e
               else skip e)
      else seq (submit_desired desired received_ns reason True False
            (e\<lparr>en_exit_waiting_for_quote := False\<rparr>))
          (fill_working_from_book received_ns))"

text \<open>The price a stop is checked against: the mark, or a print after the stop was set.\<close>

definition stop_mark :: "'s engine \<Rightarrow> (dec \<times> string) option" where
  "stop_mark e =
     (case display_mark e of
        Some m \<Rightarrow> Some m
      | None \<Rightarrow> (case (en_trade e, en_stop_set_trade_count e) of
          (Some t, Some n) \<Rightarrow>
            if event_is_fresh e t \<and> en_trade_count e > n then Some (te_price t, ''last_trade'') else None
        | _ \<Rightarrow> None))"

definition stop_crossed :: "dec \<Rightarrow> dec \<Rightarrow> dec \<Rightarrow> bool" where
  "stop_crossed position mark stop = (if position > 0 then mark \<le> stop else mark \<ge> stop)"

definition stop_exit :: "int \<Rightarrow> 's engine \<Rightarrow> (unit, 's engine) outcome" where
  "stop_exit received_ns e =
     (if en_kill e = FLATTEN_HALT then skip e
      else attempt_immediate_exit (flatten_desired (position_of e)) received_ns ''stop-exit'' e)"

definition check_stop :: "int \<Rightarrow> 's engine \<Rightarrow> (unit, 's engine) outcome" where
  "check_stop received_ns e =
     (case en_stop_price e of
        None \<Rightarrow> skip e
      | Some stop \<Rightarrow>
          if position_of e = 0 then skip e
          else if en_stop_exit_pending e then stop_exit received_ns e
          else (case stop_mark e of
              None \<Rightarrow> skip e
            | Some (mark, source) \<Rightarrow>
                if \<not> stop_crossed (position_of e) mark stop then skip e
                else seq (emit (StopTriggered stop mark source (position_of e) received_ns)
                    (e\<lparr>en_stop_exit_pending := True, en_stop_lockout := sign_of (position_of e)\<rparr>))
                  (stop_exit received_ns)))"

definition enforce_flat :: "int \<Rightarrow> 's engine \<Rightarrow> (unit, 's engine) outcome" where
  "enforce_flat received_ns e =
     (if en_kill e = NONE then skip e
      else seq (case en_working e of
            None \<Rightarrow> skip e
          | Some w \<Rightarrow> if \<not> wo_reduce_only w then cancel_working received_ns ''halted'' e else skip e) (\<lambda>e.
        if en_kill e \<noteq> FLATTEN_HALT then skip e
        else (case flatten_desired (position_of e) of
            None \<Rightarrow> seq (if en_working e \<noteq> None
                then cancel_working received_ns ''flatten-already-flat'' e else skip e)
              (\<lambda>e. skip (e\<lparr>en_missing_flatten := False\<rparr>))
          | Some d \<Rightarrow> attempt_immediate_exit (Some d) received_ns ''kill-flatten'' e)))"

section \<open>The strategy step\<close>

fun is_touch :: "market_event \<Rightarrow> touch_event option \<Rightarrow> bool" where
  "is_touch (Bbo b) t = (t = Some (BookTouch b))"
| "is_touch (Trade tr) t = (t = Some (TradeTouch tr))"
| "is_touch _ t = False"

definition follow_target ::
  "market_event \<Rightarrow> target_position \<Rightarrow> 's engine \<Rightarrow> (unit, 's engine) outcome" where
  "follow_target event target e =
     (let received = received_utc_ns event in
      if tp_instrument_id target \<noteq> cf_instrument_id (en_config e)
      then reject ''instrument_mismatch'' (Some (tp_reason target)) received None e
      else if en_stop_exit_pending e then skip e
      else (let desired = desired_order_for (position_of e) (tp_target_quantity target);
                submit = (\<lambda>e. submit_desired desired received (tp_reason target) False
                  (cf_latency_ns (en_config e) = 0 \<and> is_touch event (current_touch_event e)) e)
        in if en_stop_lockout e \<noteq> 0
           then (if sign_of (tp_target_quantity target) = en_stop_lockout e
             then reject ''stop_lockout'' (Some (tp_reason target)) received desired e
             else seq (emit (StopLockoutCleared (tp_target_quantity target) received)
                 (e\<lparr>en_stop_lockout := 0\<rparr>)) submit)
           else submit e))"

definition apply_strategy :: "market_event \<Rightarrow> 's engine \<Rightarrow> (unit, 's engine) outcome" where
  "apply_strategy event e =
     (case st_on_market (en_strategy e) (en_strategy_state e) event (view_of e) of
        Raise ex s \<Rightarrow> Raise ex (e\<lparr>en_strategy_state := s\<rparr>)
      | Ok None s \<Rightarrow> skip (e\<lparr>en_strategy_state := s\<rparr>)
      | Ok (Some target) s \<Rightarrow> follow_target event target (e\<lparr>en_strategy_state := s\<rparr>))"

section \<open>Events, clock ticks and closing\<close>

definition require_open :: "'s engine \<Rightarrow> (unit, 's engine) outcome" where
  "require_open e =
     (if en_failed e then Raise (PaperEngineError ''run failed mid-event; start a new run_id.'') e
      else if en_closed e then Raise (PaperEngineError ''run is closed.'') e
      else skip e)"

definition check_event :: "market_event \<Rightarrow> 's engine \<Rightarrow> (unit, 's engine) outcome" where
  "check_event event e =
     (if eb_venue (event_base_of event) \<noteq> cf_venue (en_config e)
        \<or> eb_instrument_id (event_base_of event) \<noteq> cf_instrument_id (en_config e)
      then Raise (PaperEngineError ''event venue or instrument does not match the run.'') e
      else skip e)"

definition note_event :: "market_event \<Rightarrow> 's engine \<Rightarrow> 's engine" where
  "note_event event e =
     update_market event (e\<lparr>en_last_data_ns := Some (received_utc_ns event),
       en_last_event_time := Some (event_time_utc event)\<rparr>)"

definition strategy_phase :: "market_event \<Rightarrow> 's engine \<Rightarrow> (unit, 's engine) outcome" where
  "strategy_phase event e =
     (if en_kill e = FLATTEN_HALT then skip e
      else seq (apply_strategy event e) (\<lambda>e.
        seq (try_fill event e) (check_stop (received_utc_ns event))))"

definition advance :: "market_event \<Rightarrow> 's engine \<Rightarrow> (unit, 's engine) outcome" where
  "advance event e =
     (let received = received_utc_ns event; time = event_time_utc event;
          e = advance_source_clock received e
      in if stale_gap received e
         then seq (flatten_halt ''stale_data'' e) (\<lambda>e.
           seq (enforce_flat received (note_event event e)) (persist time))
         else seq (try_fill event (note_event event e)) (\<lambda>e.
           seq (check_stop received e) (\<lambda>e.
           seq (mark_limits time e) (\<lambda>e.
           seq (enforce_flat received e) (\<lambda>e.
           seq (strategy_phase event e) (\<lambda>e.
           seq (mark_limits time e) (\<lambda>e.
           seq (enforce_flat received e) (persist time))))))))"

definition on_event :: "market_event \<Rightarrow> 's engine \<Rightarrow> (unit, 's engine) outcome" where
  "on_event event e =
     seq (require_open e) (\<lambda>e. seq (check_event event e) (\<lambda>e.
       fail_closed (event_time_utc event) (advance event e)))"

text \<open>\<open>run_events\<close>: an exception ends the loop.\<close>

fun run_events :: "market_event list \<Rightarrow> 's engine \<Rightarrow> (unit, 's engine) outcome" where
  "run_events [] e = skip e"
| "run_events (event # events) e = seq (on_event event e) (run_events events)"

definition mark_if_seen :: "'s engine \<Rightarrow> (unit, 's engine) outcome" where
  "mark_if_seen e = (case en_last_event_time e of None \<Rightarrow> skip e | Some t \<Rightarrow> mark_limits t e)"

definition tick :: "int \<Rightarrow> int \<Rightarrow> utc \<Rightarrow> 's engine \<Rightarrow> (unit, 's engine) outcome" where
  "tick now anchor observed e =
     (let previous_touch = current_touch_event e; previous_kill = en_kill e;
          fills_before = en_fill_count e;
          e = advance_source_clock now e;
          touch_changed = (current_touch_event e \<noteq> previous_touch);
          stale = (now - anchor > cf_stale_after_ns (en_config e))
      in seq (if stale then flatten_halt ''stale_data'' e
           else if \<not> en_stop_exit_pending e \<or> en_exit_waiting_for_quote e \<or> touch_changed
           then check_stop now e else skip e) (\<lambda>e.
         seq (mark_if_seen e) (\<lambda>e.
         seq (if stale \<or> en_exit_waiting_for_quote e \<or> touch_changed \<or> en_kill e \<noteq> previous_kill
           then enforce_flat now e else skip e) (\<lambda>e.
         seq (if en_fill_count e \<noteq> fills_before \<and> en_last_event_time e \<noteq> None
           then seq (mark_if_seen e) (enforce_flat now) else skip e)
         (persist observed)))))"

definition on_clock :: "int \<Rightarrow> utc \<Rightarrow> 's engine \<Rightarrow> (unit, 's engine) outcome" where
  "on_clock now_ns now_utc e =
     seq (require_open e) (\<lambda>e.
       if now_ns < 0 then Raise (PaperEngineError ''now_utc_ns must be a non-negative integer.'') e
       else (let anchor = (case en_last_data_ns e of None \<Rightarrow> en_created_ns e | Some l \<Rightarrow> l)
         in if now_ns < anchor then Raise (PaperEngineError ''clock moved backwards.'') e
            else fail_closed now_utc (tick now_ns anchor now_utc e)))"

definition close_run :: "'s engine \<Rightarrow> (unit, 's engine) outcome" where
  "close_run e =
     (if en_closed e then Raise (PaperEngineError ''run is already closed.'') e
      else (let e = e\<lparr>en_closed := True\<rparr>
        in if en_failed e
           then seq (write_health_at (case en_failed_at e of None \<Rightarrow> en_created_at e | Some t \<Rightarrow> t) e)
             (\<lambda>e. on_store (write_state (state_payload e)) e)
           else persist (case en_last_event_time e of None \<Rightarrow> en_created_at e | Some t \<Rightarrow> t) e))"

section \<open>Opening a run\<close>

definition require_strategy :: "'s paper_strategy \<Rightarrow> 's \<Rightarrow> unit result" where
  "require_strategy st s =
     checks [(st_strategy_id st s \<noteq> [], PaperEngineError ''strategy_id must be non-empty text.''),
             (st_configuration_version st s \<noteq> [], PaperEngineError ''configuration_version must be non-empty text.''),
             (st_label st s \<noteq> [], PaperEngineError ''strategy label must be non-empty text.'')]"

text \<open>The fields \<open>__init__\<close> sets before it writes the claim.\<close>

definition initial_engine ::
  "engine_config \<Rightarrow> string \<Rightarrow> utc \<Rightarrow> (utc \<Rightarrow> int) \<Rightarrow> 's paper_strategy \<Rightarrow> 's \<Rightarrow> ledger \<Rightarrow> dec \<Rightarrow> int
    \<Rightarrow> 's engine" where
  "initial_engine cf mode created zone st s store inc max_decimals =
     \<lparr>en_config = cf, en_mode = mode, en_created_at = created,
      en_created_ns = datetime_to_utc_ns created, en_zone = zone,
      en_strategy = st, en_strategy_state = s, en_store = store,
      en_position_key = \<lparr>pk_environment = mode, pk_account_id = ''native-paper:'' @ rs_run_id store,
        pk_venue_id = cf_venue cf, pk_instrument_id = cf_instrument_id cf,
        pk_strategy_id = st_strategy_id st s\<rparr>,
      en_size_increment = inc, en_max_price_decimals = max_decimals,
      en_position = \<lparr>ps_cash_usdc = cf_starting_cash_usdc cf, ps_position_quantity = 0,
        ps_average_entry_price = 0, ps_realized_pnl_usdc = 0, ps_fees_usdc = 0\<rparr>,
      en_peak = cf_starting_cash_usdc cf,
      en_day = None, en_day_start = cf_starting_cash_usdc cf,
      en_week = None, en_week_start = cf_starting_cash_usdc cf,
      en_last_daily_pnl = 0, en_last_weekly_pnl = 0,
      en_kill = NONE, en_kill_reason = None,
      en_bbo = None, en_trade = None, en_bar = None, en_venue_mark = None, en_venue_mark_ns = None,
      en_bbo_mark = None, en_bbo_mark_ns = None, en_last_data_ns = None, en_source_clock_ns = None,
      en_last_event_time = None, en_working = None, en_next_order_number = 1,
      en_stop_price = None, en_trade_count = 0, en_stop_set_trade_count = None,
      en_stop_exit_pending = False, en_stop_lockout = 0,
      en_book_taken = (\<lambda>_. None), en_trade_taken = 0,
      en_orders = [], en_fills = [], en_rejections = [],
      en_order_count = 0, en_fill_count = 0, en_rejection_count = 0,
      en_last_block = None, en_closed = False, en_failed = False, en_failed_at = None,
      en_missing_flatten = False, en_exit_waiting_for_quote = False\<rparr>"

text \<open>The constructor; its state is the set of run directories under the root.\<close>

definition open_engine ::
  "engine_config \<Rightarrow> utc \<Rightarrow> (utc \<Rightarrow> int) \<Rightarrow> 's paper_strategy \<Rightarrow> 's \<Rightarrow> (nat \<Rightarrow> io_result) \<Rightarrow> string
    \<Rightarrow> string set \<Rightarrow> ('s engine, string set) outcome" where
  "open_engine cf created zone st s io run_id dirs =
     andthen (lift_result (validate_config cf) dirs) (\<lambda>_ dirs.
     andthen (lift_result (require_local_paper_mode (cf_trading_mode cf)) dirs) (\<lambda>mode dirs.
     andthen (lift_result (require_strategy st s) dirs) (\<lambda>_ dirs.
     andthen (open_run_store io run_id (cf_durable_ledger cf) dirs) (\<lambda>store dirs.
     andthen (lift_result (size_increment (cf_sz_decimals cf)) dirs) (\<lambda>inc dirs.
     andthen (lift_result (perp_max_price_decimals (cf_sz_decimals cf)) dirs) (\<lambda>max_decimals dirs.
       (let e = initial_engine cf mode created zone st s store inc max_decimals
        in case andthen (lift_result (claim_payload e) e) (\<lambda>j e.
             seq (on_store (write_claim j) e) (persist created)) of
             Ok _ e \<Rightarrow> Ok e dirs
           | Raise ex e \<Rightarrow> Raise ex dirs)))))))"

end
