(* ===== verification/EngineSteps.thy ===== *)
theory EngineSteps
  imports Engine
begin

text \<open>
  An abstract machine for the engine, and the proof that the engine refines it. The machine has
  five kinds of step: a quiet step, which leaves the book alone (market data, limits, halts,
  rejections); the strategy being consulted; an order accepted; the working order cancelled; and
  the working order completed by an immediate-or-cancel fill. Every handler of the engine that
  returns is a sequence of such steps, each under the guard the machine demands.
\<close>

section \<open>What the ledger records\<close>

fun accepted :: "ledger_record \<Rightarrow> working_order list" where
  "accepted (OrderAccepted w _) = [w]"
| "accepted _ = []"

fun order_records :: "ledger_record \<Rightarrow> order_record list" where
  "order_records (OrderRecord r) = [r]"
| "order_records _ = []"

fun fill_records :: "ledger_record \<Rightarrow> fill_record list" where
  "fill_records (FillRecord f) = [f]"
| "fill_records _ = []"

fun rejections :: "ledger_record \<Rightarrow> rejection list" where
  "rejections (RiskRejected r) = [r]"
| "rejections _ = []"

definition select :: "('r \<Rightarrow> 'a list) \<Rightarrow> 'r list \<Rightarrow> 'a list" where
  "select f rs = concat (map f rs)"

lemma select_simps [simp]:
  "select f [] = []" "select f (r # rs) = f r @ select f rs" "select f (rs @ rs') = select f rs @ select f rs'"
  by (simp_all add: select_def)

fun kill_after :: "kill_switch \<Rightarrow> ledger_record list \<Rightarrow> kill_switch" where
  "kill_after k [] = k"
| "kill_after k (KillSwitchRecord k' reason # rs) = kill_after k' rs"
| "kill_after k (_ # rs) = kill_after k rs"

lemma kill_after_append [simp]: "kill_after k (rs @ rs') = kill_after (kill_after k rs) rs'"
  by (induction k rs rule: kill_after.induct) simp_all

definition keep_recent :: "'a list \<Rightarrow> 'a list \<Rightarrow> 'a list" where
  "keep_recent xs ys = foldl (push_last STATE_RECENT_RECORD_LIMIT) xs ys"

lemma keep_recent_simps [simp]:
  "keep_recent xs [] = xs"
  "keep_recent xs (y # ys) = keep_recent (push_last STATE_RECENT_RECORD_LIMIT xs y) ys"
  "keep_recent xs (ys @ zs) = keep_recent (keep_recent xs ys) zs"
  by (simp_all add: keep_recent_def)

section \<open>Quiet steps\<close>

abbreviation engine_history :: "'s engine \<Rightarrow> ledger_record list" where
  "engine_history e \<equiv> history (en_store e)"

text \<open>The fields no quiet step changes.\<close>

definition static :: "'s engine \<Rightarrow> _" where
  "static e =
     (en_config e, en_mode e, en_position_key e, en_size_increment e, en_max_price_decimals e,
      en_strategy e, en_strategy_state e, rs_run_id (en_store e), en_failed e, en_closed e)"

definition core :: "'s engine \<Rightarrow> _" where
  "core e =
     (static e,
      (en_position e, en_working e, en_next_order_number e, en_stop_price e, en_orders e, en_fills e,
       en_order_count e, en_fill_count e))"

fun opt_le :: "('a::order) option \<Rightarrow> 'a option \<Rightarrow> bool" where
  "opt_le None y = True"
| "opt_le (Some x) None = False"
| "opt_le (Some x) (Some y) = (x \<le> y)"

lemma opt_le_refl [simp]: "opt_le x x"
  by (cases x) simp_all

lemma opt_le_trans: "opt_le x y \<Longrightarrow> opt_le y z \<Longrightarrow> opt_le x z"
  by (cases x; cases y; cases z) auto

definition windows_paired :: "'s engine \<Rightarrow> bool" where
  "windows_paired e \<longleftrightarrow> (en_day e = None \<longleftrightarrow> en_week e = None)"

definition quiet_by :: "ledger_record list \<Rightarrow> 's engine \<Rightarrow> 's engine \<Rightarrow> bool" where
  "quiet_by rs e e' \<longleftrightarrow>
     core e' = core e
     \<and> engine_history e' = engine_history e @ rs
     \<and> select accepted rs = [] \<and> select order_records rs = [] \<and> select fill_records rs = []
     \<and> en_rejection_count e' = en_rejection_count e + length (select rejections rs)
     \<and> en_rejections e' = keep_recent (en_rejections e) (select rejections rs)
     \<and> en_kill e' = kill_after (en_kill e) rs
     \<and> (en_kill e = FLATTEN_HALT \<longrightarrow> en_kill e' = FLATTEN_HALT)
     \<and> en_peak e \<le> en_peak e'
     \<and> (windows_paired e \<longrightarrow> windows_paired e'
          \<and> opt_le (en_day e) (en_day e') \<and> opt_le (en_week e) (en_week e'))
     \<and> (en_stop_exit_pending e' \<longrightarrow> en_stop_exit_pending e \<or> position_of e \<noteq> 0)"

definition quiet :: "'s engine \<Rightarrow> 's engine \<Rightarrow> bool" where
  "quiet e e' \<longleftrightarrow> (\<exists>rs. quiet_by rs e e')"

lemma quiet_by_refl: "quiet_by [] e e"
  by (simp add: quiet_by_def)

lemma quiet_refl [simp]: "quiet e e"
  unfolding quiet_def using quiet_by_refl by blast

lemma core_position: "core e' = core e \<Longrightarrow> position_of e' = position_of e"
  by (simp add: core_def static_def)

lemma quiet_by_trans:
  assumes "quiet_by rs e e'" and "quiet_by rs' e' e''"
  shows "quiet_by (rs @ rs') e e''"
proof -
  note a = assms(1) [unfolded quiet_by_def] and b = assms(2) [unfolded quiet_by_def]
  have "position_of e' = position_of e" using a core_position by blast
  then have "en_stop_exit_pending e'' \<longrightarrow> en_stop_exit_pending e \<or> position_of e \<noteq> 0"
    using a b by auto
  moreover have "windows_paired e \<longrightarrow> windows_paired e''
      \<and> opt_le (en_day e) (en_day e'') \<and> opt_le (en_week e) (en_week e'')"
    using a b by (auto elim: opt_le_trans)
  ultimately show ?thesis
    using a b unfolding quiet_by_def by auto
qed

lemma quiet_trans: "quiet e e' \<Longrightarrow> quiet e' e'' \<Longrightarrow> quiet e e''"
  unfolding quiet_def using quiet_by_trans by blast

lemma quiet_core: "quiet e e' \<Longrightarrow> core e' = core e"
  by (auto simp: quiet_def quiet_by_def)

lemma quiet_final: "quiet e e' \<Longrightarrow> en_kill e = FLATTEN_HALT \<Longrightarrow> en_kill e' = FLATTEN_HALT"
  by (auto simp: quiet_def quiet_by_def)

section \<open>Specifications of what returns\<close>

abbreviation okay :: "('a \<Rightarrow> 's \<Rightarrow> bool) \<Rightarrow> ('a, 's) outcome \<Rightarrow> bool" where
  "okay Q m \<equiv> holds Q (\<lambda>_. True) m"

text \<open>Sequencing for a relation that composes.\<close>

lemma okay_seq:
  assumes "okay (\<lambda>x s'. R s s' \<and> P x s') m"
    and "\<And>x s'. R s s' \<Longrightarrow> P x s' \<Longrightarrow> okay (\<lambda>y s''. R s' s'' \<and> Q y s'') (f x s')"
    and "\<And>s' s''. R s s' \<Longrightarrow> R s' s'' \<Longrightarrow> R s s''"
  shows "okay (\<lambda>y s''. R s s'' \<and> Q y s'') (andthen m f)"
  by (rule holds_andthen [OF assms(1)], elim conjE, rule holds_mono [OF assms(2)])
    (auto intro: assms(3))

lemma okay_lift: "okay Q (lift_result r s) \<longleftrightarrow> (\<forall>x. r = Inr x \<longrightarrow> Q x s)"
  by (simp add: holds_lift_result split: sum.splits)

lemma okay_Ok: "okay Q m \<Longrightarrow> m = Ok x s \<Longrightarrow> Q x s"
  by simp

lemma okay_emit:
  assumes "\<And>st. history st = engine_history e @ [r] \<Longrightarrow> rs_run_id st = rs_run_id (en_store e) \<Longrightarrow>
    Q () (e\<lparr>en_store := st\<rparr>)"
  shows "okay Q (emit r e)"
  using assms by (auto simp: emit_def on_store_def append_record_def history_def)

abbreviation quietly :: "'s engine \<Rightarrow> ('a, 's engine) outcome \<Rightarrow> bool" where
  "quietly e m \<equiv> okay (\<lambda>_. quiet e) m"

lemma quietly_seq: "quietly e m \<Longrightarrow> (\<And>x e'. quiet e e' \<Longrightarrow> quietly e' (f x e')) \<Longrightarrow> quietly e (andthen m f)"
  by (erule holds_andthen, rule holds_mono, assumption) (auto intro: quiet_trans)

lemma quietly_lift [simp]: "quietly e (lift_result r e)"
  by (simp add: okay_lift)

lemma quietly_after: "quiet e e0 \<Longrightarrow> quietly e0 m \<Longrightarrow> quietly e m"
  by (erule holds_mono) (auto intro: quiet_trans)

lemma quietly_emit:
  assumes "quiet_by rs e e0" "select accepted [r] = []" "select order_records [r] = []"
    "select fill_records [r] = []" "select rejections [r] = []" "\<And>k. kill_after k [r] = k"
  shows "quietly e (emit r e0)"
proof (rule okay_emit)
  fix st assume st: "history st = engine_history e0 @ [r]" "rs_run_id st = rs_run_id (en_store e0)"
  then have "quiet_by [r] e0 (e0\<lparr>en_store := st\<rparr>)"
    using assms(2-6) by (simp add: quiet_by_def core_def static_def windows_paired_def)
  with quiet_by_trans [OF assms(1)] show "quiet e (e0\<lparr>en_store := st\<rparr>)" unfolding quiet_def by blast
qed

lemma quietly_reject: "quietly e (reject reason detail received desired e)"
  by (auto simp: reject_def Let_def quiet_def quiet_by_def core_def static_def keep_recent_def windows_paired_def
      intro!: okay_emit)

lemma quietly_kill:
  "quietly e (halt_new reason e)" "quietly e (flatten_halt reason e)" "quietly e (release_halt reason e)"
  by (auto simp: halt_new_def flatten_halt_def release_halt_def quiet_def quiet_by_def core_def static_def
      windows_paired_def intro!: okay_emit)

lemma quiet_windows:
  "en_day e = Some d \<Longrightarrow> d < day \<Longrightarrow> quiet e (e\<lparr>en_day := Some day, en_day_start := eq\<rparr>)"
  "en_week e = Some w \<Longrightarrow> w < week \<Longrightarrow> quiet e (e\<lparr>en_week := Some week, en_week_start := eq\<rparr>)"
  by (auto simp: quiet_def quiet_by_def core_def static_def windows_paired_def intro!: exI [of _ "[]"])

lemma quietly_roll: "quietly e (roll_windows t eq e)"
proof -
  have day: "quietly e (roll_day d eq e)" for d e
    unfolding roll_day_def
    by (auto split: option.splits intro: quietly_after [OF quiet_windows(1) quietly_kill(3)])
  have week: "quietly e (roll_week w eq e)" for w e
    unfolding roll_week_def
    by (auto split: option.splits intro: quietly_after [OF quiet_windows(2) quietly_kill(3)])
  show ?thesis
  proof (cases "en_day e = None \<or> en_week e = None")
    case True
    have "quiet e (e\<lparr>en_day := Some (utc_date t), en_week := Some (iso_week (utc_date t))\<rparr>)"
      using True
      by (auto simp: quiet_def quiet_by_def core_def static_def windows_paired_def intro!: exI [of _ "[]"])
    with True show ?thesis by (simp add: roll_windows_def Let_def)
  next
    case False
    then have "roll_windows t eq e = seq (roll_day (utc_date t) eq e) (roll_week (iso_week (utc_date t)) eq)"
      by (auto simp: roll_windows_def Let_def)
    then show ?thesis using quietly_seq [OF day week] by simp
  qed
qed

lemma quiet_peak: "en_peak e < eq \<Longrightarrow> quiet e (e\<lparr>en_peak := eq\<rparr>)"
  by (auto simp: quiet_def quiet_by_def core_def static_def windows_paired_def intro!: exI [of _ "[]"])

lemma quiet_pnl: "quiet e (e\<lparr>en_last_daily_pnl := d, en_last_weekly_pnl := w\<rparr>)"
  by (auto simp: quiet_def quiet_by_def core_def static_def windows_paired_def intro!: exI [of _ "[]"])

lemma quietly_losses: "quietly e (check_losses eq e)"
proof -
  define e0 where "e0 = e\<lparr>en_last_daily_pnl := dsub eq (en_day_start e),
    en_last_weekly_pnl := dsub eq (en_week_start e)\<rparr>"
  have "quiet e e0" unfolding e0_def by (rule quiet_pnl)
  then show ?thesis
    unfolding check_losses_def Let_def e0_def [symmetric]
    by (rule quietly_after) (intro quietly_seq; simp add: quietly_kill)
qed

lemma quietly_limits: "quietly e (mark_limits t e)"
proof (cases "equity e")
  case None
  then show ?thesis by (simp add: mark_limits_def quietly_kill)
next
  case (Some eq)
  have "quietly e0 (if en_peak e0 = 0 then Raise ZeroDivisionError e0
      else if ddiv (dsub (en_peak e0) eq) (en_peak e0)
        \<ge> rl_drawdown_kill_fraction (cf_risk_limits (en_config e0))
      then flatten_halt ''drawdown'' e0 else check_losses eq e0)" for e0
    by (simp add: quietly_kill quietly_losses)
  note body = quietly_after [OF _ this]
  have "quiet e1 (if eq > en_peak e1 then e1\<lparr>en_peak := eq\<rparr> else e1)" for e1
    by (simp add: quiet_peak)
  with Some show ?thesis
    unfolding mark_limits_def Let_def by (simp only: option.case) (intro quietly_seq quietly_roll body)
qed

text \<open>Other updates of fields the core does not hold.\<close>

lemma quiet_fields:
  "quiet e (e\<lparr>en_last_block := b\<rparr>)"
  "quiet e (e\<lparr>en_missing_flatten := m\<rparr>)"
  "quiet e (e\<lparr>en_exit_waiting_for_quote := m\<rparr>)"
  "quiet e (e\<lparr>en_stop_lockout := l\<rparr>)"
  "quiet e (e\<lparr>en_source_clock_ns := c\<rparr>)"
  "quiet e (e\<lparr>en_last_data_ns := c, en_last_event_time := t\<rparr>)"
  "position_of e \<noteq> 0 \<Longrightarrow> quiet e (e\<lparr>en_stop_exit_pending := True, en_stop_lockout := l\<rparr>)"
  by (auto simp: quiet_def quiet_by_def core_def static_def windows_paired_def intro!: exI [of _ "[]"])

lemma quiet_market: "quiet e (update_market event e)"
  by (cases event) (auto simp: quiet_def quiet_by_def core_def static_def windows_paired_def intro!: exI [of _ "[]"])

lemma quiet_note: "quiet e (note_event event e)"
  unfolding note_event_def by (rule quiet_trans [OF quiet_fields(6) quiet_market])

lemma quiet_clock: "quiet e (advance_source_clock r e)"
  by (auto simp: advance_source_clock_def quiet_fields)

text \<open>The store's own writes: a commit and the projections.\<close>

lemma quiet_store:
  assumes "history st = engine_history e" "rs_run_id st = rs_run_id (en_store e)"
  shows "quiet e (e\<lparr>en_store := st\<rparr>)"
  using assms by (auto simp: quiet_def quiet_by_def core_def static_def windows_paired_def intro!: exI [of _ "[]"])

lemma quietly_commit: "quietly e (commit_ledger e)"
  by (auto simp: commit_ledger_def on_store_def commit_def io_step_def history_def
      split: io_result.splits intro!: quiet_store)

lemma quietly_projection:
  "quietly e (on_store (write_state j) e)" "quietly e (on_store (write_health j) e)"
  by (auto simp: on_store_def write_state_def write_health_def io_step_def history_def
      split: io_result.splits intro!: quiet_store)

lemma quietly_persist: "quietly e (persist t e)"
  unfolding persist_def write_health_at_def
  by (intro quietly_seq) (simp_all add: quietly_commit quietly_projection)

text \<open>A calm step is a quiet one that leaves the kill switch as it was.\<close>

definition calm :: "'s engine \<Rightarrow> 's engine \<Rightarrow> bool" where
  "calm e e' \<longleftrightarrow> quiet e e' \<and> en_kill e' = en_kill e"

lemma calm_refl [simp]: "calm e e"
  by (simp add: calm_def)

lemma calm_trans: "calm e e' \<Longrightarrow> calm e' e'' \<Longrightarrow> calm e e''"
  by (auto simp: calm_def intro: quiet_trans)

abbreviation calmly :: "'s engine \<Rightarrow> ('a, 's engine) outcome \<Rightarrow> bool" where
  "calmly e m \<equiv> okay (\<lambda>_. calm e) m"

lemma calmly_seq: "calmly e m \<Longrightarrow> (\<And>x e'. calm e e' \<Longrightarrow> calmly e' (f x e')) \<Longrightarrow> calmly e (andthen m f)"
  by (erule holds_andthen, rule holds_mono, assumption) (auto intro: calm_trans)

lemma calmly_lift [simp]: "calmly e (lift_result r e)"
  by (simp add: okay_lift)

lemma calmly_kill: "quietly e m \<Longrightarrow> okay (\<lambda>_ e'. en_kill e' = en_kill e) m \<Longrightarrow> calmly e m"
  by (cases m) (simp_all add: calm_def)

lemma calmly_reject: "calmly e (reject reason detail received desired e)"
  by (rule calmly_kill [OF quietly_reject]) (auto simp: reject_def Let_def intro!: okay_emit)

section \<open>The risk gate\<close>

lemma gate_calm: "calmly e (paper_risk_allows sd q p ro ns d ev e)"
  unfolding paper_risk_allows_def Let_def
  by (auto intro!: calmly_seq calmly_reject)

text \<open>What a yes of the risk gate means for the order it allows.\<close>

definition reduction_ok :: "'s engine \<Rightarrow> side \<Rightarrow> dec \<Rightarrow> bool" where
  "reduction_ok e sd quantity \<longleftrightarrow> 0 < quantity \<and> position_of e \<noteq> 0
     \<and> (sd = BUY) \<noteq> (0 < position_of e) \<and> quantity \<le> dabs (position_of e)"

definition nothing_pending :: "'s engine \<Rightarrow> working_order option \<Rightarrow> bool" where
  "nothing_pending e evaluating \<longleftrightarrow>
     (\<forall>w. en_working e = Some w \<and> evaluating \<noteq> Some w \<longrightarrow> wo_quantity w \<le> 0)"

lemma gate_reasons:
  assumes "paper_risk_allows sd q p ro ns d ev e = Ok True e'"
  shows "paper_position_rejection_reasons (Some (paper_position e ev))
      (Some (case ev of None \<Rightarrow> en_position_key e | Some w \<Rightarrow> wo_position_key w))
      (sp_version (paper_position e ev)) sd q ro (ModeText (en_mode e)) = Inr []"
  using assms
  by (auto simp: paper_risk_allows_def Let_def lift_result_def andthen_Ok_iff split: sum.splits if_splits)

lemma gate_reduction:
  assumes "paper_risk_allows sd q p True ns d ev e = Ok True e'"
  shows "reduction_ok e sd q"
  using gate_reasons [OF assms]
  by (rule position_reasons_Nil) (auto simp: reduction_ok_def paper_position_def)

lemma gate_entry:
  assumes "paper_risk_allows sd q p False ns d ev e = Ok True e'"
  obtains sn dec where "equity e = Some (risk_equity e p)" "0 < risk_equity e p"
    "risk_snapshot e (paper_position e ev) p = Inr sn"
    "evaluate_paper_hard_limits sn (risk_intent e (paper_position e ev) sd q p False)
       (cf_risk_limits (en_config e)) (ModeText (en_mode e)) = Inr dec"
    "rd_approved dec" "position_of e = 0"
proof -
  from assms obtain sn dec where g: "equity e \<noteq> None" "0 < risk_equity e p"
    "risk_snapshot e (paper_position e ev) p = Inr sn"
    "evaluate_paper_hard_limits sn (risk_intent e (paper_position e ev) sd q p False)
       (cf_risk_limits (en_config e)) (ModeText (en_mode e)) = Inr dec" "rd_approved dec"
    by (auto simp: paper_risk_allows_def Let_def lift_result_def andthen_Ok_iff not_le
        split: sum.splits if_splits)
  have "sn_position sn = Some (paper_position e ev)"
    using g(3) unfolding risk_snapshot_def Let_def by (rule bounded_book_fields)
  moreover have "\<exists>pos. sn_position sn = Some pos \<and> sp_quantity pos = Some 0"
    using approved_entry(1) [OF g(4,5)] by (auto simp: risk_intent_def)
  ultimately have "position_of e = 0" by (auto simp: paper_position_def)
  moreover have "equity e = Some (risk_equity e p)" using g(1) by (auto simp: risk_equity_def)
  ultimately show ?thesis using g that by blast
qed

section \<open>The abstract machine\<close>

definition order_sound :: "'s engine \<Rightarrow> working_order \<Rightarrow> bool" where
  "order_sound e w \<longleftrightarrow> 0 < wo_quantity w \<and> rep (wo_quantity w)
     \<and> on_lot (en_size_increment e) (wo_quantity w) \<and> wo_position_key w = en_position_key e"

definition sound :: "'s engine \<Rightarrow> bool" where
  "sound e \<longleftrightarrow> (\<exists>k. en_size_increment e = pow10 k) \<and> rep (position_of e)
     \<and> \<bar>position_of e\<bar> \<le> cf_max_position_quantity (en_config e)
     \<and> (\<forall>w. en_working e = Some w \<longrightarrow> order_sound e w)
     \<and> validate_config (en_config e) = Inr ()"

text \<open>While the kill switch is on, a waiting order can only reduce the position.\<close>

definition guarded :: "'s engine \<Rightarrow> bool" where
  "guarded e \<longleftrightarrow> en_kill e = NONE \<or> (\<forall>w. en_working e = Some w \<longrightarrow> wo_reduce_only w)"

definition fill_permitted :: "'s engine \<Rightarrow> working_order \<Rightarrow> fill_quote \<Rightarrow> bool" where
  "fill_permitted e w q \<longleftrightarrow>
     fq_side q = wo_side w \<and> 0 < fq_quantity q \<and> fq_quantity q \<le> wo_quantity w
     \<and> rep (fq_quantity q) \<and> 0 < fq_price q \<and> rep (fq_price q) \<and> \<not> beyond_limit w q
     \<and> fq_fee_usdc q = dmul (dmul (fq_price q) (fq_quantity q)) (cf_taker_fee_rate (en_config e))
     \<and> (if wo_reduce_only w then reduction_ok e (wo_side w) (wo_quantity w)
        else en_kill e = NONE \<and> position_of e = 0
          \<and> dabs (dadd (position_of e) (signed (wo_side w) (fq_quantity q)))
              \<le> cf_max_position_quantity (en_config e)
          \<and> dmul (dabs (dadd (position_of e) (signed (wo_side w) (fq_quantity q)))) (fq_price q)
              \<le> cf_max_notional_usdc (en_config e))"

inductive micro :: "'s engine \<Rightarrow> 's engine \<Rightarrow> bool" where
  micro_quiet: "quiet e e' \<Longrightarrow> micro e e'"
| micro_consult: "en_kill e \<noteq> FLATTEN_HALT \<Longrightarrow> micro e (e\<lparr>en_strategy_state := s\<rparr>)"
| micro_cancel: "cancel_working received why e = Ok () e' \<Longrightarrow> micro e e'"
| micro_accept: "en_working e = None \<Longrightarrow> do_reduce_only d \<or> en_kill e = NONE \<Longrightarrow>
    0 < q \<Longrightarrow> rep q \<Longrightarrow> on_lot (en_size_increment e) q \<Longrightarrow>
    accept_order d q clipped limit touch received reason immediate e = Ok () e' \<Longrightarrow> micro e e'"
| micro_complete: "en_working e = Some w \<Longrightarrow>
    (\<And>q. quote = Some q \<Longrightarrow> fill_permitted e w q) \<Longrightarrow>
    complete_ioc w quote event received unfilled e = Ok () e' \<Longrightarrow> micro e e'"

section \<open>What the three order operations do to the core\<close>

lemma emit_OkE:
  assumes "emit r e = Ok u e'"
  obtains st where "e' = e\<lparr>en_store := st\<rparr>" "history st = engine_history e @ [r]"
    "rs_run_id st = rs_run_id (en_store e)"
  using assms
  by (auto simp: emit_def on_store_def append_record_def history_def split: if_splits outcome.splits)

lemma record_order_OkE:
  assumes "record_order r e = Ok u e'"
  obtains st where "e' = e\<lparr>en_orders := push_last STATE_RECENT_RECORD_LIMIT (en_orders e) r,
      en_order_count := Suc (en_order_count e), en_store := st, en_working := None\<rparr>"
    "history st = engine_history e @ [OrderRecord r]" "rs_run_id st = rs_run_id (en_store e)"
proof -
  from assms obtain e1 where "emit (OrderRecord r)
      (e\<lparr>en_orders := push_last STATE_RECENT_RECORD_LIMIT (en_orders e) r,
         en_order_count := Suc (en_order_count e)\<rparr>) = Ok () e1" and e': "e' = e1\<lparr>en_working := None\<rparr>"
    unfolding record_order_def andthen_Ok_iff by auto
  from this(1) show ?thesis
  proof (rule emit_OkE)
    fix st assume "e1 = e\<lparr>en_orders := push_last STATE_RECENT_RECORD_LIMIT (en_orders e) r,
         en_order_count := Suc (en_order_count e)\<rparr>\<lparr>en_store := st\<rparr>"
      "history st = engine_history (e\<lparr>en_orders := push_last STATE_RECENT_RECORD_LIMIT (en_orders e) r,
         en_order_count := Suc (en_order_count e)\<rparr>) @ [OrderRecord r]"
      "rs_run_id st = rs_run_id (en_store (e\<lparr>en_orders := push_last STATE_RECENT_RECORD_LIMIT (en_orders e) r,
         en_order_count := Suc (en_order_count e)\<rparr>))"
    then show ?thesis by (intro that [of st]) (simp_all add: e')
  qed
qed

lemma accept_order_OkE:
  assumes "accept_order d q clipped limit touch ns reason imm e = Ok u e'"
  obtains st w where "e' = e\<lparr>en_next_order_number := Suc (en_next_order_number e), en_working := Some w,
      en_missing_flatten := False, en_last_block := None, en_store := st\<rparr>"
    "history st = engine_history e @ [OrderAccepted w touch]" "rs_run_id st = rs_run_id (en_store e)"
    "wo_quantity w = q" "wo_reduce_only w = do_reduce_only d" "wo_side w = do_side d"
    "wo_position_key w = en_position_key e" "wo_client_order_id w = client_order_id e"
    "wo_limit_price w = limit"
  using assms that unfolding accept_order_def Let_def
  by (elim emit_OkE) simp

lemma take_touch_OkE:
  assumes "take_touch ev q ns e = Ok u e'"
  obtains x m where "e' = e\<lparr>en_trade_taken := x, en_book_taken := m\<rparr>"
proof (cases ev)
  case (TradeTouch t)
  with assms have e': "e' = e\<lparr>en_trade_taken := dadd (en_trade_taken e) (fq_quantity q)\<rparr>"
    by (simp add: take_touch_def)
  show ?thesis
    by (rule that [where x = "dadd (en_trade_taken e) (fq_quantity q)" and m = "en_book_taken e"])
      (simp add: e')
next
  case (BookTouch b)
  with assms have "e' = e\<lparr>en_book_taken := en_book_taken e'\<rparr>"
    by (auto simp: take_touch_def Let_def simp del: fun_upd_apply displayed.simps split: option.splits)
  then have "e' = e\<lparr>en_trade_taken := en_trade_taken e, en_book_taken := en_book_taken e'\<rparr>" by simp
  then show ?thesis by (rule that)
qed

lemma book_fill_OkE:
  assumes "book_fill w q ev ns e = Ok u e'"
  obtains p x m f st where "apply_fill (en_position e) q = Inr p"
    "e' = e\<lparr>en_position := p, en_trade_taken := x, en_book_taken := m,
       en_fills := push_last STATE_RECENT_RECORD_LIMIT (en_fills e) f,
       en_fill_count := Suc (en_fill_count e), en_store := st\<rparr>"
    "history st = engine_history e @ [FillRecord f]" "rs_run_id st = rs_run_id (en_store e)"
    "fr_quote f = q" "fr_client_order_id f = wo_client_order_id w"
proof -
  from assms obtain p e1 where p: "apply_fill (en_position e) q = Inr p"
    and t: "take_touch ev q ns (e\<lparr>en_position := p\<rparr>) = Ok () e1"
    and m: "emit (FillRecord \<lparr>fr_client_order_id = wo_client_order_id w, fr_quote = q,
          fr_received_utc_ns = ns\<rparr>)
        (e1\<lparr>en_fills := push_last STATE_RECENT_RECORD_LIMIT (en_fills e1)
            \<lparr>fr_client_order_id = wo_client_order_id w, fr_quote = q, fr_received_utc_ns = ns\<rparr>,
          en_fill_count := Suc (en_fill_count e1)\<rparr>) = Ok u e'"
    unfolding book_fill_def andthen_Ok_iff lift_result_def Let_def by (auto split: sum.splits)
  from t obtain x b where e1: "e1 = e\<lparr>en_position := p\<rparr>\<lparr>en_trade_taken := x, en_book_taken := b\<rparr>"
    by (rule take_touch_OkE)
  let ?f = "\<lparr>fr_client_order_id = wo_client_order_id w, fr_quote = q, fr_received_utc_ns = ns\<rparr>"
  from m obtain st where "e' = e\<lparr>en_position := p, en_trade_taken := x, en_book_taken := b,
      en_fills := push_last STATE_RECENT_RECORD_LIMIT (en_fills e) ?f,
      en_fill_count := Suc (en_fill_count e), en_store := st\<rparr>"
    "history st = engine_history e @ [FillRecord ?f]" "rs_run_id st = rs_run_id (en_store e)"
    unfolding e1 by (elim emit_OkE) simp
  then show ?thesis by (intro that [where st = st and x = x and m = b and f = ?f]) (simp_all add: p)
qed

text \<open>Where the stop is after a fill that moved the position from \<open>old\<close>.\<close>

definition stop_placed :: "'s engine \<Rightarrow> dec \<Rightarrow> 's engine \<Rightarrow> bool" where
  "stop_placed e old e' \<longleftrightarrow>
     (if position_of e' = 0 then en_stop_price e' = None \<and> \<not> en_stop_exit_pending e'
      else if dabs (position_of e') \<le> dabs old \<and> sign_of (position_of e') = sign_of old
      then en_stop_price e' = en_stop_price e \<and> en_stop_exit_pending e' = en_stop_exit_pending e
      else (\<exists>distance average. effective_stop_distance_fraction (cf_stop_distance_fraction (en_config e'))
              (cf_volatility_multiple (en_config e')) = Inr distance
            \<and> average = ps_average_entry_price (en_position e')
            \<and> en_stop_price e' = Some (if position_of e' > 0 then dmul average (dsub 1 distance)
                else dmul average (dadd 1 distance))
            \<and> en_stop_exit_pending e' = en_stop_exit_pending e))"

lemma update_stop_OkE:
  assumes "update_stop_after_fill old ns e = Ok u e'"
  obtains sp c pend wait st rs where
    "e' = e\<lparr>en_stop_price := sp, en_stop_set_trade_count := c, en_stop_exit_pending := pend,
       en_exit_waiting_for_quote := wait, en_store := st\<rparr>"
    "history st = engine_history e @ rs" "rs_run_id st = rs_run_id (en_store e)"
    "select accepted rs = []" "select order_records rs = []" "select fill_records rs = []"
    "select rejections rs = []" "\<forall>k. kill_after k rs = k" "stop_placed e old e'"
proof -
  consider (flat) "position_of e = 0"
    | (smaller) "position_of e \<noteq> 0" "dabs (position_of e) \<le> dabs old \<and> sign_of (position_of e) = sign_of old"
    | (grown) "position_of e \<noteq> 0" "\<not> (dabs (position_of e) \<le> dabs old \<and> sign_of (position_of e) = sign_of old)"
    by blast
  then show ?thesis
  proof cases
    case flat
    with assms show ?thesis
      by (intro that [where sp = None and c = None and pend = False and wait = False
            and st = "en_store e" and rs = "[]"])
        (auto simp: update_stop_after_fill_def Let_def stop_placed_def)
  next
    case smaller
    with assms show ?thesis
      by (intro that [where sp = "en_stop_price e" and c = "en_stop_set_trade_count e"
            and pend = "en_stop_exit_pending e" and wait = "en_exit_waiting_for_quote e"
            and st = "en_store e" and rs = "[]"])
        (auto simp: update_stop_after_fill_def Let_def stop_placed_def)
  next
    case grown
    with assms obtain distance sp st where
      d: "effective_stop_distance_fraction (cf_stop_distance_fraction (en_config e))
          (cf_volatility_multiple (en_config e)) = Inr distance"
      and sp: "sp = (if position_of e > 0 then dmul (ps_average_entry_price (en_position e)) (dsub 1 distance)
          else dmul (ps_average_entry_price (en_position e)) (dadd 1 distance))"
      and e': "e' = e\<lparr>en_stop_price := Some sp, en_stop_set_trade_count := Some (en_trade_count e), en_store := st\<rparr>"
      and st: "history st = engine_history e
          @ [StopSet sp (ps_average_entry_price (en_position e)) (position_of e) distance ns]"
        "rs_run_id st = rs_run_id (en_store e)"
      by (auto simp: update_stop_after_fill_def Let_def andthen_Ok_iff lift_result_def
          split: sum.splits elim!: emit_OkE)
    show ?thesis
      using grown d sp st
      by (intro that [where sp = "Some sp" and c = "Some (en_trade_count e)"
            and pend = "en_stop_exit_pending e" and wait = "en_exit_waiting_for_quote e"
            and st = st]) (auto simp: e' stop_placed_def)
  qed
qed

text \<open>The order operations change neither the static fields nor the halts, limits and rejections.\<close>

definition fringe :: "'s engine \<Rightarrow> _" where
  "fringe e = (en_kill e, en_peak e, en_day e, en_week e, en_rejection_count e, en_rejections e)"

definition frames :: "'s engine \<Rightarrow> 's engine \<Rightarrow> bool" where
  "frames e e' \<longleftrightarrow> static e' = static e \<and> fringe e' = fringe e"

lemma cancel_working_OkE:
  assumes "cancel_working ns why e = Ok u e'"
  obtains (none) "en_working e = None" "e' = e"
  | (some) w r where "en_working e = Some w" "frames e e'" "en_working e' = None"
      "ca_order r = w" "ca_why r = why"
      "en_orders e' = push_last STATE_RECENT_RECORD_LIMIT (en_orders e) (Canceled r)"
      "en_order_count e' = Suc (en_order_count e)" "en_next_order_number e' = en_next_order_number e"
      "engine_history e' = engine_history e @ [OrderRecord (Canceled r)]"
      "en_position e' = en_position e" "en_stop_price e' = en_stop_price e"
      "en_stop_exit_pending e' = en_stop_exit_pending e"
      "en_fills e' = en_fills e" "en_fill_count e' = en_fill_count e"
proof (cases "en_working e")
  case None
  with assms have "e' = e" by (simp add: cancel_working_def)
  with None show ?thesis by (rule none)
next
  case (Some w)
  define r where "r = \<lparr>ca_order = w, ca_why = why, ca_received_utc_ns = ns\<rparr>"
  from Some assms have "record_order (Canceled r) e = Ok u e'"
    by (simp add: cancel_working_def r_def)
  then obtain st where e': "e' = e\<lparr>en_orders := push_last STATE_RECENT_RECORD_LIMIT (en_orders e) (Canceled r),
      en_order_count := Suc (en_order_count e), en_store := st, en_working := None\<rparr>"
    and st: "history st = engine_history e @ [OrderRecord (Canceled r)]"
      "rs_run_id st = rs_run_id (en_store e)"
    by (rule record_order_OkE)
  show ?thesis
    by (rule some [where w = w and r = r])
      (simp_all add: Some e' st r_def frames_def static_def fringe_def)
qed

lemma accept_order_frames:
  assumes "accept_order d q clipped limit touch ns reason imm e = Ok u e'"
  obtains w where "frames e e'" "en_working e' = Some w" "en_position e' = en_position e"
    "en_stop_price e' = en_stop_price e" "en_stop_exit_pending e' = en_stop_exit_pending e"
    "en_fills e' = en_fills e" "en_fill_count e' = en_fill_count e"
    "en_orders e' = en_orders e" "en_order_count e' = en_order_count e"
    "en_next_order_number e' = Suc (en_next_order_number e)"
    "engine_history e' = engine_history e @ [OrderAccepted w touch]"
    "wo_quantity w = q" "wo_reduce_only w = do_reduce_only d" "wo_side w = do_side d"
    "wo_position_key w = en_position_key e" "wo_client_order_id w = client_order_id e"
    "wo_limit_price w = limit"
proof -
  from assms obtain st w where e': "e' = e\<lparr>en_next_order_number := Suc (en_next_order_number e),
      en_working := Some w, en_missing_flatten := False, en_last_block := None, en_store := st\<rparr>"
    and st: "history st = engine_history e @ [OrderAccepted w touch]" "rs_run_id st = rs_run_id (en_store e)"
    and w: "wo_quantity w = q" "wo_reduce_only w = do_reduce_only d" "wo_side w = do_side d"
      "wo_position_key w = en_position_key e" "wo_client_order_id w = client_order_id e"
      "wo_limit_price w = limit"
    by (rule accept_order_OkE)
  show ?thesis
    by (rule that [of w]) (simp_all add: e' st w frames_def static_def fringe_def)
qed

text \<open>A completed order: without a fill, or with one.\<close>

lemma complete_ioc_OkE:
  assumes "complete_ioc w quote ev ns unfilled e = Ok u e'" and "en_working e = Some w"
    and "\<And>q. quote = Some q \<Longrightarrow> 0 < fq_quantity q"
  obtains r where "frames e e'" "en_working e' = None" "co_order r = w"
    "co_filled_quantity r = (case quote of None \<Rightarrow> 0 | Some q \<Rightarrow> fq_quantity q)"
    "en_orders e' = push_last STATE_RECENT_RECORD_LIMIT (en_orders e) (Completed r)"
    "en_order_count e' = Suc (en_order_count e)" "en_next_order_number e' = en_next_order_number e"
    "case quote of
       None \<Rightarrow> en_position e' = en_position e \<and> en_stop_price e' = en_stop_price e
         \<and> en_stop_exit_pending e' = en_stop_exit_pending e
         \<and> en_fills e' = en_fills e \<and> en_fill_count e' = en_fill_count e
         \<and> engine_history e' = engine_history e @ [OrderRecord (Completed r)]
     | Some q \<Rightarrow> apply_fill (en_position e) q = Inr (en_position e')
         \<and> stop_placed e (position_of e) e'
         \<and> (\<exists>f rs. fr_quote f = q \<and> fr_client_order_id f = wo_client_order_id w
              \<and> en_fills e' = push_last STATE_RECENT_RECORD_LIMIT (en_fills e) f
              \<and> en_fill_count e' = Suc (en_fill_count e)
              \<and> engine_history e' = engine_history e @ [FillRecord f, OrderRecord (Completed r)] @ rs
              \<and> select accepted rs = [] \<and> select order_records rs = [] \<and> select fill_records rs = []
              \<and> select rejections rs = [] \<and> (\<forall>k. kill_after k rs = k))"
proof (cases quote)
  case None
  define c where "c = \<lparr>co_order = w, co_filled_quantity = 0, co_status = CANCELED,
    co_unfilled_reason = unfilled, co_strategy_id = strategy_id_of e,
    co_configuration_version = strategy_version_of e\<rparr>"
  from assms(1,2) None obtain e1 b where r: "record_order (Completed c) e = Ok () e1"
    and e': "e' = e1\<lparr>en_missing_flatten := b\<rparr>"
    unfolding complete_ioc_def Let_def ioc_status_def c_def [symmetric]
    by (auto simp: andthen_Ok_iff c_def)
  from r obtain st where e1: "e1 = e\<lparr>en_orders := push_last STATE_RECENT_RECORD_LIMIT (en_orders e) (Completed c),
      en_order_count := Suc (en_order_count e), en_store := st, en_working := None\<rparr>"
    and st: "history st = engine_history e @ [OrderRecord (Completed c)]"
      "rs_run_id st = rs_run_id (en_store e)"
    by (rule record_order_OkE)
  show ?thesis
    by (rule that [of c]) (simp_all add: None e' e1 st c_def frames_def static_def fringe_def)
next
  case (Some q)
  then have q: "0 < fq_quantity q" by (rule assms(3))
  from assms(1,2) Some q obtain e1 where b: "book_fill w q ev ns e = Ok () e1"
    by (auto simp: complete_ioc_def Let_def andthen_Ok_iff split: prod.splits)
  define status where "status = ioc_status (fq_quantity q) (wo_quantity w) unfilled"
  define c where "c = \<lparr>co_order = w, co_filled_quantity = fq_quantity q, co_status = fst status,
    co_unfilled_reason = snd status, co_strategy_id = strategy_id_of e1,
    co_configuration_version = strategy_version_of e1\<rparr>"
  have c': "co_order c = w" "co_filled_quantity c = fq_quantity q" by (simp_all add: c_def)
  from assms(1,2) Some q b obtain e2 e3 b' where r: "record_order (Completed c) e1 = Ok () e2"
    and s: "update_stop_after_fill (position_of e) ns e2 = Ok () e3"
    and e': "e' = e3\<lparr>en_missing_flatten := b'\<rparr>"
    unfolding complete_ioc_def Let_def option.case c_def
    by (auto simp: andthen_Ok_iff case_prod_beta status_def)
  note c = c'
  from b obtain p x m f st1 where p: "apply_fill (en_position e) q = Inr p"
    and e1: "e1 = e\<lparr>en_position := p, en_trade_taken := x, en_book_taken := m,
       en_fills := push_last STATE_RECENT_RECORD_LIMIT (en_fills e) f,
       en_fill_count := Suc (en_fill_count e), en_store := st1\<rparr>"
    and f: "history st1 = engine_history e @ [FillRecord f]" "rs_run_id st1 = rs_run_id (en_store e)"
      "fr_quote f = q" "fr_client_order_id f = wo_client_order_id w"
    by (rule book_fill_OkE)
  from r obtain st2 where e2: "e2 = e1\<lparr>en_orders := push_last STATE_RECENT_RECORD_LIMIT (en_orders e1) (Completed c),
      en_order_count := Suc (en_order_count e1), en_store := st2, en_working := None\<rparr>"
    and st2: "history st2 = engine_history e1 @ [OrderRecord (Completed c)]"
      "rs_run_id st2 = rs_run_id (en_store e1)"
    by (rule record_order_OkE)
  from s obtain sp tc pend wait st3 rs where
    e3: "e3 = e2\<lparr>en_stop_price := sp, en_stop_set_trade_count := tc, en_stop_exit_pending := pend,
       en_exit_waiting_for_quote := wait, en_store := st3\<rparr>"
    and st3: "history st3 = engine_history e2 @ rs" "rs_run_id st3 = rs_run_id (en_store e2)"
    and rs: "select accepted rs = []" "select order_records rs = []" "select fill_records rs = []"
      "select rejections rs = []" "\<forall>k. kill_after k rs = k"
    and placed: "stop_placed e2 (position_of e) e3"
    by (rule update_stop_OkE)
  show ?thesis
  proof (rule that [of c])
    show "frames e e'" using f(2) st2(2) st3(2)
      by (simp add: e' e3 e2 e1 frames_def static_def fringe_def)
    have "stop_placed e (position_of e) e'"
      using placed by (simp add: stop_placed_def e' e3 e2 e1 cong: if_cong)
    moreover have "engine_history e' = engine_history e @ [FillRecord f, OrderRecord (Completed c)] @ rs"
      using f(1) st2(1) st3(1) by (simp add: e' e3 e2 e1)
    ultimately show "case quote of
       None \<Rightarrow> en_position e' = en_position e \<and> en_stop_price e' = en_stop_price e
         \<and> en_stop_exit_pending e' = en_stop_exit_pending e
         \<and> en_fills e' = en_fills e \<and> en_fill_count e' = en_fill_count e
         \<and> engine_history e' = engine_history e @ [OrderRecord (Completed c)]
     | Some q \<Rightarrow> apply_fill (en_position e) q = Inr (en_position e')
         \<and> stop_placed e (position_of e) e'
         \<and> (\<exists>f rs. fr_quote f = q \<and> fr_client_order_id f = wo_client_order_id w
              \<and> en_fills e' = push_last STATE_RECENT_RECORD_LIMIT (en_fills e) f
              \<and> en_fill_count e' = Suc (en_fill_count e)
              \<and> engine_history e' = engine_history e @ [FillRecord f, OrderRecord (Completed c)] @ rs
              \<and> select accepted rs = [] \<and> select order_records rs = [] \<and> select fill_records rs = []
              \<and> select rejections rs = [] \<and> (\<forall>k. kill_after k rs = k))"
      using Some p f(3,4) rs by (auto simp: e' e3 e2 e1)
  qed (use Some c in \<open>simp_all add: e' e3 e2 e1\<close>)
qed

end
