(* ===== verification/EngineRefines.thy ===== *)
theory EngineRefines
  imports EngineSteps
begin

text \<open>
  The refinement: every handler of the engine that returns is a sequence of steps of the abstract
  machine, from a sound state to a sound state. \<open>good\<close> says so for a pair of states, and also that
  at its end the kill switch, when on, left no order that could add risk.
\<close>

section \<open>The machine keeps a state sound\<close>

lemma order_sound_cong: "static e' = static e \<Longrightarrow> order_sound e' w = order_sound e w"
  by (simp add: order_sound_def static_def)

lemma sound_cong:
  assumes "static e' = static e" "position_of e' = position_of e"
    "en_working e' = None \<or> en_working e' = en_working e" "sound e"
  shows "sound e'"
  using assms(2-4) order_sound_cong [OF assms(1)] assms(1) by (auto simp: sound_def static_def)

lemma quiet_sound: "quiet e e' \<Longrightarrow> sound e \<Longrightarrow> sound e'"
  by (rule sound_cong) (auto dest!: quiet_core simp: core_def)

lemma validated_positive:
  "validate_config cf = Inr () \<Longrightarrow> 0 < cf_max_position_quantity cf"
  by (auto simp: validate_config_def res_bind_Inr_iff checks_Inr_iff require_positive_def)

lemma permitted_position:
  assumes "sound e" "en_working e = Some w" "fill_permitted e w q"
    "apply_fill (en_position e) q = Inr p"
  shows "rep (ps_position_quantity p)"
    "\<bar>ps_position_quantity p\<bar> \<le> cf_max_position_quantity (en_config e)"
    "wo_reduce_only w \<Longrightarrow> ps_position_quantity p = 0 \<or> same_direction (position_of e) (ps_position_quantity p)"
    "wo_reduce_only w \<Longrightarrow> \<bar>ps_position_quantity p\<bar> \<le> \<bar>position_of e\<bar>"
    "\<not> wo_reduce_only w \<Longrightarrow> position_of e = 0"
proof -
  note f = assms(3) [unfolded fill_permitted_def]
  have p: "ps_position_quantity p = dadd (position_of e) (if wo_side w = BUY then fq_quantity q else dneg (fq_quantity q))"
    using apply_fill_quantity [OF assms(4)] f by simp
  show r: "rep (ps_position_quantity p)" unfolding p by simp
  have red: "(ps_position_quantity p = 0 \<or> same_direction (position_of e) (ps_position_quantity p))
      \<and> \<bar>ps_position_quantity p\<bar> \<le> \<bar>position_of e\<bar>" if "wo_reduce_only w"
  proof -
    from f that have o: "reduction_ok e (wo_side w) (wo_quantity w)" "fq_quantity q \<le> wo_quantity w" by simp_all
    have rep: "rep (position_of e)" using assms(1) by (simp add: sound_def)
    then have "fq_quantity q \<le> \<bar>position_of e\<bar>" using o by (simp add: reduction_ok_def dabs_rep)
    from signed_add_reduces [OF rep _ this, of "wo_side w"] f o show ?thesis
      unfolding p by (auto simp: reduction_ok_def)
  qed
  show "wo_reduce_only w \<Longrightarrow> ps_position_quantity p = 0 \<or> same_direction (position_of e) (ps_position_quantity p)"
    "wo_reduce_only w \<Longrightarrow> \<bar>ps_position_quantity p\<bar> \<le> \<bar>position_of e\<bar>"
    using red by blast+
  show "\<not> wo_reduce_only w \<Longrightarrow> position_of e = 0" using f by simp
  show "\<bar>ps_position_quantity p\<bar> \<le> cf_max_position_quantity (en_config e)"
  proof (cases "wo_reduce_only w")
    case True
    with red assms(1) show ?thesis by (auto simp: sound_def)
  next
    case False
    from f have "dabs (dadd (position_of e) (signed (wo_side w) (fq_quantity q)))
        \<le> cf_max_position_quantity (en_config e)" unfolding if_not_P [OF False] by blast
    then have "dabs (ps_position_quantity p) \<le> cf_max_position_quantity (en_config e)"
      unfolding p signed_def .
    then show ?thesis by (simp add: dabs_rep [OF r])
  qed
qed

lemma frames_sound:
  assumes "frames e e'" "sound e" "rep (position_of e')"
    "\<bar>position_of e'\<bar> \<le> cf_max_position_quantity (en_config e)"
    "\<And>w. en_working e' = Some w \<Longrightarrow> order_sound e w"
  shows "sound e'"
  using assms by (auto simp: sound_def frames_def static_def order_sound_def)

lemma micro_sound:
  assumes "micro e e'" "sound e"
  shows "sound e'"
  using assms
proof cases
  case micro_quiet
  then show ?thesis using assms(2) by (rule quiet_sound)
next
  case (micro_consult s)
  then show ?thesis using assms(2) by (simp add: sound_def order_sound_def)
next
  case (micro_cancel received why)
  from micro_cancel show ?thesis
  proof (cases rule: cancel_working_OkE)
    case none
    then show ?thesis using assms(2) by simp
  next
    case (some w r)
    then show ?thesis using assms(2) by (intro frames_sound [OF some(2)]) (auto simp: sound_def)
  qed
next
  case (micro_accept d q clipped limit touch received reason immediate)
  from micro_accept(6) obtain w where w: "frames e e'" "en_working e' = Some w" "en_position e' = en_position e"
    "wo_quantity w = q" "wo_position_key w = en_position_key e"
    by (rule accept_order_frames)
  show ?thesis
    using assms(2) micro_accept(3-5) w by (intro frames_sound [OF w(1)]) (auto simp: sound_def order_sound_def)
next
  case (micro_complete w quote event received unfilled)
  show ?thesis
  proof (rule complete_ioc_OkE [OF micro_complete(3,1)], goal_cases)
    case (1 q)
    then show ?case using micro_complete(2) by (simp add: fill_permitted_def)
  next
    case (2 r)
    show ?case
    proof (cases quote)
      case None
      with 2 assms(2) show ?thesis by (intro frames_sound [OF 2(1)]) (auto simp: sound_def)
    next
      case (Some q)
      from permitted_position [OF assms(2) micro_complete(1) micro_complete(2) [OF Some]] 2(8) Some
      show ?thesis using assms(2) 2(2) by (intro frames_sound [OF 2(1)]) auto
    qed
  qed
qed

lemma micros_sound: "micro\<^sup>*\<^sup>* e e' \<Longrightarrow> sound e \<Longrightarrow> sound e'"
  by (induction rule: rtranclp_induct) (simp_all add: micro_sound)

section \<open>Good transitions\<close>

definition good :: "'s engine \<Rightarrow> 's engine \<Rightarrow> bool" where
  "good e e' \<longleftrightarrow> micro\<^sup>*\<^sup>* e e' \<and> sound e' \<and> guarded e' \<and> en_kill e' = en_kill e"

abbreviation well :: "'s engine \<Rightarrow> ('a, 's engine) outcome \<Rightarrow> bool" where
  "well e m \<equiv> okay (\<lambda>_. good e) m"

lemma good_trans: "good e e' \<Longrightarrow> good e' e'' \<Longrightarrow> good e e''"
  by (auto simp: good_def)

lemma good_refl: "sound e \<Longrightarrow> guarded e \<Longrightarrow> good e e"
  by (simp add: good_def)

lemma good_state: "good e e' \<Longrightarrow> sound e'" "good e e' \<Longrightarrow> guarded e'"
  by (simp_all add: good_def)

lemma good_micro: "micro e e' \<Longrightarrow> sound e \<Longrightarrow> guarded e' \<Longrightarrow> en_kill e' = en_kill e \<Longrightarrow> good e e'"
  by (auto simp: good_def micro_sound)

lemma calm_guarded: "calm e e' \<Longrightarrow> guarded e \<Longrightarrow> guarded e'"
  by (auto simp: calm_def guarded_def core_def dest!: quiet_core)

lemma good_calm: "calm e e' \<Longrightarrow> sound e \<Longrightarrow> guarded e \<Longrightarrow> good e e'"
  by (rule good_micro) (auto intro: micro_quiet calm_guarded simp: calm_def)

lemma well_calmly: "calmly e m \<Longrightarrow> sound e \<Longrightarrow> guarded e \<Longrightarrow> well e m"
  by (erule holds_mono) (auto intro: good_calm)

lemma well_after: "good e e0 \<Longrightarrow> well e0 m \<Longrightarrow> well e m"
  by (erule holds_mono) (auto intro: good_trans)

lemma well_seq:
  assumes "well e m" and "\<And>x e'. sound e' \<Longrightarrow> guarded e' \<Longrightarrow> well e' (f x e')"
  shows "well e (andthen m f)"
  using assms by (cases m) (auto simp: good_state intro: well_after)

text \<open>A calm prefix, of which the rest may use what it returned.\<close>

lemma well_calm_seq:
  assumes "calmly e m" "sound e" "guarded e"
    and "\<And>x e'. m = Ok x e' \<Longrightarrow> calm e e' \<Longrightarrow> sound e' \<Longrightarrow> guarded e' \<Longrightarrow> well e' (f x e')"
  shows "well e (andthen m f)"
proof (cases m)
  case (Ok x e')
  with assms(1) have c: "calm e e'" by simp
  have g: "good e e'" using c assms(2,3) by (rule good_calm)
  have "well e' (f x e')" using assms(4) [OF Ok c] good_state [OF g] by blast
  with Ok show ?thesis by (simp add: well_after [OF g])
qed simp

lemma well_lift:
  "(\<And>x. r = Inr x \<Longrightarrow> well e (f x e)) \<Longrightarrow> well e (andthen (lift_result r e) f)"
  by (cases r) (simp_all add: lift_result_def)

lemma calm_fields:
  "calm e (e\<lparr>en_last_block := b\<rparr>)"
  "calm e (e\<lparr>en_missing_flatten := m\<rparr>)"
  "calm e (e\<lparr>en_exit_waiting_for_quote := m\<rparr>)"
  "calm e (e\<lparr>en_stop_lockout := l\<rparr>)"
  "calm e (e\<lparr>en_source_clock_ns := c\<rparr>)"
  "position_of e \<noteq> 0 \<Longrightarrow> calm e (e\<lparr>en_stop_exit_pending := True, en_stop_lockout := l\<rparr>)"
  by (simp_all add: calm_def quiet_fields)

lemma well_skip: "calm e e' \<Longrightarrow> sound e \<Longrightarrow> guarded e \<Longrightarrow> well e (skip e')"
  by (simp add: good_calm)

lemma well_reject: "sound e \<Longrightarrow> guarded e \<Longrightarrow> well e (reject reason detail ns d e)"
  by (intro well_calmly calmly_reject)

lemma well_reject_after:
  assumes "calm e e0" "sound e" "guarded e"
  shows "well e (reject reason detail ns d e0)"
proof -
  have g: "good e e0" using assms by (rule good_calm)
  show ?thesis using well_reject [OF good_state [OF g]] by (rule well_after [OF g])
qed

section \<open>Cancelling and submitting\<close>

lemma well_cancel:
  assumes "sound e"
  shows "okay (\<lambda>_ e'. good e e' \<and> en_working e' = None \<and> en_kill e' = en_kill e
    \<and> position_of e' = position_of e) (cancel_working ns why e)"
proof (cases "cancel_working ns why e")
  case (Ok u e')
  then have g: "good e e'" if "guarded e'" "en_kill e' = en_kill e"
    using that by (intro good_micro micro_cancel assms) simp_all
  from Ok show ?thesis
  proof (cases rule: cancel_working_OkE)
    case none
    with g Ok show ?thesis by (simp add: guarded_def)
  next
    case (some w r)
    with g Ok show ?thesis by (simp add: guarded_def frames_def fringe_def)
  qed
qed simp

lemma well_cancel_guarded: "sound e \<Longrightarrow> well e (cancel_working ns why e)"
  using well_cancel by (rule holds_mono) simp_all

lemma well_accept:
  assumes "sound e" "en_working e = None" "do_reduce_only d \<or> en_kill e = NONE"
    "0 < q" "rep q" "on_lot (en_size_increment e) q"
  shows "well e (accept_order d q clipped limit touch ns reason imm e)"
proof (cases "accept_order d q clipped limit touch ns reason imm e")
  case (Ok u e')
  have "guarded e' \<and> en_kill e' = en_kill e"
    using Ok by (rule accept_order_frames) (use assms(3) in \<open>auto simp: guarded_def frames_def fringe_def\<close>)
  with Ok assms show ?thesis by (auto intro!: good_micro micro_accept)
qed simp

lemma entry_size_calm: "calmly e (entry_size d q rp tp lp ns reason e)"
  unfolding entry_size_def Let_def
  by (intro calmly_seq) (auto split: option.splits intro!: calmly_seq calmly_reject gate_calm)

text \<open>An entry keeps the size it asked for, or is cut to the risk-based size; both are on the lot.\<close>

lemma entry_size_lot:
  assumes "entry_size d q rp tp lp ns reason e = Ok (Some (s, c)) e'"
    and "sound e" "0 < q" "rep q" "on_lot (en_size_increment e) q"
  shows "0 < s" "rep s" "on_lot (en_size_increment e) s"
proof -
  from assms(2) obtain k where k: "en_size_increment e = pow10 k" by (auto simp: sound_def)
  from assms(1) have "clip_entry e q rp = Inr (Some (s, c))"
    by (auto simp: entry_size_def Let_def andthen_Ok_iff lift_result_def reject_def
        split: sum.splits option.splits if_splits)
  then consider "s = q" | n where "size_paper_quantity n rp (en_size_increment e) = Inr s" "0 < s"
    by (auto simp: clip_entry_def res_bind_Inr_iff not_le split: option.splits if_splits)
  then have "0 < s \<and> rep s \<and> on_lot (en_size_increment e) s"
  proof cases
    case (2 n)
    then have f: "floor_size (ddiv n rp) (pow10 k) = Inr s" by (simp add: size_paper_quantity_Inr k)
    show ?thesis using 2(2) floor_size_rep [OF f] floor_size_on_lot [OF _ f] by (simp add: k)
  qed (use assms(3-5) in simp)
  then show "0 < s" "rep s" "on_lot (en_size_increment e) s" by simp_all
qed

lemma calm_kept:
  assumes "calm e e'"
  shows "en_working e' = en_working e" "en_kill e' = en_kill e" "position_of e' = position_of e"
    "en_size_increment e' = en_size_increment e" "en_config e' = en_config e"
  using assms by (auto simp: calm_def core_def static_def dest!: quiet_core)

lemma well_submit_priced:
  assumes "sound e" "guarded e" "en_working e = None" "do_reduce_only d \<or> en_kill e = NONE"
    "rep (do_quantity d)"
  shows "well e (submit_priced d tp ns reason imm e)"
  unfolding submit_priced_def Let_def
proof (intro well_lift, goal_cases)
  case (1 limit q)
  from assms(1) obtain k where k: "en_size_increment e = pow10 k" by (auto simp: sound_def)
  have lot: "rep q" "on_lot (en_size_increment e) q"
    using 1(2) floor_size_rep floor_size_on_lot [OF assms(5)] by (auto simp: k)
  have accept: "well e' (accept_order d s c limit tp ns reason imm e')"
    if "calm e e'" "sound e'" "0 < s" "rep s" "on_lot (en_size_increment e) s" for e' s c
    using that assms(3,4) by (intro well_accept) (simp_all add: calm_kept [OF that(1)])
  show ?case
  proof (cases "q \<le> 0")
    case True
    then show ?thesis using assms by (simp add: well_reject)
  next
    case False
    then have q: "0 < q" by simp
    show ?thesis
    proof (cases "do_reduce_only d")
      case True
      with False show ?thesis
        using assms(1,2) accept [OF _ _ q lot]
        by (auto intro!: well_calm_seq gate_calm good_refl)
    next
      case entry: False
      have "well e (andthen (entry_size d q (dmul tp (dadd 1 (cf_entry_price_band_fraction (en_config e)))) tp limit ns reason e)
          (\<lambda>sized e. case sized of None \<Rightarrow> skip e
             | Some (s, c) \<Rightarrow> accept_order d s c limit tp ns reason imm e))"
      proof (rule well_calm_seq [OF entry_size_calm assms(1,2)])
        fix x e' assume x: "entry_size d q (dmul tp (dadd 1 (cf_entry_price_band_fraction (en_config e)))) tp
            limit ns reason e = Ok x e'" and e': "calm e e'" "sound e'" "guarded e'"
        show "well e' (case x of None \<Rightarrow> skip e'
             | Some (s, c) \<Rightarrow> accept_order d s c limit tp ns reason imm e')"
        proof (cases x)
          case (Some y)
          obtain s c where y: "y = (s, c)" by force
          from entry_size_lot [OF x [unfolded Some y] assms(1) q lot] accept [OF e'(1,2)] show ?thesis
            by (simp add: Some y)
        qed (use e' in \<open>simp add: good_refl\<close>)
      qed
      with entry False show ?thesis by simp
    qed
  qed
qed

lemma well_submit:
  assumes "sound e" "guarded e" "\<And>d. desired = Some d \<Longrightarrow> rep (do_quantity d)"
  shows "well e (submit_desired desired ns reason imm fod e)"
proof (cases desired)
  case None
  have g: "good e (e\<lparr>en_last_block := None\<rparr>)" by (intro good_calm calm_fields assms)
  then have "well (e\<lparr>en_last_block := None\<rparr>) (cancel_working ns ''target-flat'' (e\<lparr>en_last_block := None\<rparr>))"
    by (intro well_cancel_guarded) (rule good_state)
  with None show ?thesis using g by (auto simp: submit_desired_def Let_def intro: well_after)
next
  case (Some d)
  let ?rest = "\<lambda>e. if en_kill e = HALT_NEW \<and> \<not> do_reduce_only d
      then reject ''halt_new'' (en_kill_reason e) ns (Some d) e
      else if en_kill e = FLATTEN_HALT \<and> \<not> do_reduce_only d
      then reject ''flatten_halt'' (en_kill_reason e) ns (Some d) e
      else case price_order e (do_side d) of
          None \<Rightarrow> reject ''missing_price'' (Some reason) ns (Some d)
            (e\<lparr>en_missing_flatten := do_reduce_only d\<rparr>)
        | Some (touch_price, touch_size) \<Rightarrow>
            if fod \<and> touch_used_up e (do_side d) ns
            then reject ''touch_consumed'' (Some reason) ns (Some d) e
            else submit_priced d touch_price ns reason imm e"
  have rest: "well e0 (?rest e0)" if "sound e0" "guarded e0" "en_working e0 = None" for e0
  proof -
    have "well e0 (reject ''missing_price'' (Some reason) ns (Some d) (e0\<lparr>en_missing_flatten := m\<rparr>))" for m
      using that(1,2) by (intro well_reject_after calm_fields)
    moreover have "well e0 (submit_priced d tp ns reason imm e0)" if "do_reduce_only d \<or> en_kill e0 = NONE" for tp
      using that \<open>sound e0\<close> \<open>guarded e0\<close> \<open>en_working e0 = None\<close> assms(3) Some by (intro well_submit_priced) simp_all
    ultimately show ?thesis
      using that(1,2) by (cases "en_kill e0") (auto simp: well_reject split: option.splits)
  qed
  have "okay (\<lambda>_ e'. good e e' \<and> en_working e' = None)
      (if en_working e \<noteq> None then cancel_working ns ''replaced'' e else skip e)"
    using holds_mono [OF well_cancel [OF assms(1)], of "\<lambda>_ e'. good e e' \<and> en_working e' = None"]
      good_refl [OF assms(1,2)] by auto
  then have "well e (seq (if en_working e \<noteq> None then cancel_working ns ''replaced'' e else skip e) ?rest)"
  proof (rule holds_andthen)
    fix x e' assume "good e e' \<and> en_working e' = None"
    then show "well e (?rest e')" using rest [of e'] good_state by (blast intro: well_after)
  qed
  with Some show ?thesis using good_refl [OF assms(1,2)] by (simp add: submit_desired_def)
qed

section \<open>Fills\<close>

lemma fill_permitted_calm: "calm e e' \<Longrightarrow> fill_permitted e' w q = fill_permitted e w q"
  unfolding fill_permitted_def reduction_ok_def by (simp only: calm_kept)

lemma entry_fill_calm: "calmly e (entry_fill_allows w q ns e)"
  unfolding entry_fill_allows_def Let_def
  by (auto intro!: calmly_seq calmly_reject gate_calm)

lemma quote_order_calm: "calmly e (quote_order w ev ns e)"
  unfolding quote_order_def Let_def
  by (auto split: prod.splits option.splits intro!: calmly_seq gate_calm entry_fill_calm)

text \<open>A quote that passes every check of \<open>quote_order\<close> is a fill the machine permits.\<close>

lemma quote_order_permitted:
  assumes "quote_order w ev ns e = Ok (Some q, u) e'" and "sound e" "guarded e" "en_working e = Some w"
  shows "fill_permitted e w q"
proof -
  from assms(2) obtain k where k: "en_size_increment e = pow10 k" by (auto simp: sound_def)
  from assms(2,4) have w: "order_sound e w" by (auto simp: sound_def)
  obtain tp ts used where a: "available e ev (wo_side w) ns = (tp, ts, used)" by (metis prod_cases3)
  define quote where "quote = quote_taker_fill (wo_side w) (wo_quantity w) tp ts
    (cf_slippage_fraction (en_config e)) (cf_taker_fee_rate (en_config e)) (en_size_increment e)
    (en_max_price_decimals e) (touch_source ev)"
  define gate where "gate q = (if wo_reduce_only w
    then paper_risk_allows (wo_side w) (wo_quantity w) (fq_price q) True ns
      \<lparr>do_side = wo_side w, do_quantity = wo_desired_quantity w, do_reduce_only = True\<rparr> (Some w) e
    else entry_fill_allows w q ns e)" for q
  have run: "quote_order w ev ns e =
      (if used then Ok (None, Some ''touch_consumed'') e
       else case quote of Inl ex \<Rightarrow> Raise ex e | Inr None \<Rightarrow> Ok (None, Some ''no_touch'') e
         | Inr (Some q) \<Rightarrow> if beyond_limit w q then Ok (None, Some ''price_band'') e
             else andthen (gate q) (\<lambda>ok e. if ok then Ok (Some q, None) e
               else Ok (None, Some ''risk_rejected'') e))"
    unfolding quote_order_def a Let_def prod.case quote_def [symmetric]
    by (cases quote; simp add: lift_result_def gate_def split: option.split)
  from assms(1) obtain e1 where quote: "quote = Inr (Some q)" and inside: "\<not> beyond_limit w q"
    and g: "gate q = Ok True e1"
    unfolding run by (auto simp: andthen_Ok_iff split: sum.splits option.splits if_splits)
  note gate = g [unfolded gate_def]
  have "\<exists>p z. floor_size (min (wo_quantity w) z) (en_size_increment e) = Inr (fq_quantity q)
    \<and> 0 < fq_quantity q \<and> fq_side q = wo_side w
    \<and> adverse_price (slipped_price (wo_side w) p (cf_slippage_fraction (en_config e))) (wo_side w)
       (en_max_price_decimals e) = Inr (fq_price q)
    \<and> fq_fee_usdc q = dmul (dmul (fq_price q) (fq_quantity q)) (cf_taker_fee_rate (en_config e))"
    by (rule quote_taker_fill_Some [OF quote [unfolded quote_def]]) (intro exI conjI)
  then obtain p z where q: "floor_size (min (wo_quantity w) z) (en_size_increment e) = Inr (fq_quantity q)"
    "0 < fq_quantity q" "fq_side q = wo_side w"
    "adverse_price (slipped_price (wo_side w) p (cf_slippage_fraction (en_config e))) (wo_side w)
       (en_max_price_decimals e) = Inr (fq_price q)"
    "fq_fee_usdc q = dmul (dmul (fq_price q) (fq_quantity q)) (cf_taker_fee_rate (en_config e))"
    by (elim exE conjE)
  have "fq_quantity q \<le> wo_quantity w"
    by (rule floor_size_le_lot [OF q(1) [unfolded k]]) (use w in \<open>simp_all add: k order_sound_def\<close>)
  moreover have "rep (fq_quantity q)" using floor_size_rep [OF q(1)] .
  moreover have "0 < fq_price q" "rep (fq_price q)"
    using adverse_price_pos [OF q(4)] adverse_price_rep [OF q(4)] by simp_all
  moreover have "reduction_ok e (wo_side w) (wo_quantity w)" if "wo_reduce_only w"
    using gate that by (intro gate_reduction) (simp only: if_P)
  moreover have "en_kill e = NONE \<and> position_of e = 0
      \<and> dabs (dadd (position_of e) (signed (wo_side w) (fq_quantity q)))
          \<le> cf_max_position_quantity (en_config e)
      \<and> dmul (dabs (dadd (position_of e) (signed (wo_side w) (fq_quantity q)))) (fq_price q)
          \<le> cf_max_notional_usdc (en_config e)" if ro: "\<not> wo_reduce_only w"
  proof -
    from gate have "entry_fill_allows w q ns e = Ok True e1" by (simp only: ro if_False)
    then have lim: "dabs (dadd (position_of e) (signed (wo_side w) (fq_quantity q)))
          \<le> cf_max_position_quantity (en_config e)"
        "dmul (dabs (dadd (position_of e) (signed (wo_side w) (fq_quantity q)))) (fq_price q)
          \<le> cf_max_notional_usdc (en_config e)"
      and g: "paper_risk_allows (wo_side w) (fq_quantity q) (fq_price q) False ns
        \<lparr>do_side = wo_side w, do_quantity = wo_desired_quantity w, do_reduce_only = False\<rparr> (Some w) e
        = Ok True e1"
      by (auto simp: entry_fill_allows_def Let_def andthen_Ok_iff not_less split: if_splits)
    have "position_of e = 0" using g by (rule gate_entry)
    moreover have "en_kill e = NONE" using assms(3,4) ro by (auto simp: guarded_def)
    ultimately show ?thesis using lim by blast
  qed
  ultimately show ?thesis
    unfolding fill_permitted_def using q(2,3,5) inside by (simp only: simp_thms split: if_split) blast
qed

lemma well_complete:
  assumes "sound e" "en_working e = Some w" "\<And>q. quote = Some q \<Longrightarrow> fill_permitted e w q"
  shows "well e (complete_ioc w quote ev ns u e)"
proof (cases "complete_ioc w quote ev ns u e")
  case (Ok x e')
  then have c: "complete_ioc w quote ev ns u e = Ok () e'" by simp
  have "guarded e' \<and> en_kill e' = en_kill e"
  proof (rule complete_ioc_OkE [OF c assms(2)], goal_cases)
    case (1 q)
    then show ?case using assms(3) by (simp add: fill_permitted_def)
  next
    case (2 r)
    then show ?case by (simp add: guarded_def frames_def fringe_def)
  qed
  moreover have "micro e e'" by (rule micro_complete [OF assms(2) _ c]) (rule assms(3))
  ultimately show ?thesis using Ok assms(1) by (auto intro: good_micro)
qed simp

lemma well_fill:
  assumes "sound e" "guarded e" "en_working e = Some w"
  shows "well e (fill_against w ev ns e)"
  unfolding fill_against_def
proof (rule well_calm_seq [OF _ assms(1,2)], goal_cases)
  case 1
  then show ?case by (auto simp: quote_order_calm split: touch_event.splits)
next
  case (2 x e')
  obtain quote u where x: "x = (quote, u)" by force
  have "fill_permitted e' w q" if "quote = Some q" for q
  proof -
    from 2(1) have "quote_order w ev ns e = Ok (Some q, u) e'"
      using that x by (auto split: if_splits touch_event.splits)
    then show ?thesis using assms 2(2) by (simp add: fill_permitted_calm quote_order_permitted)
  qed
  then show ?case using 2 assms(3) by (auto simp: x calm_kept intro!: well_complete)
qed

lemma well_try_fill: "sound e \<Longrightarrow> guarded e \<Longrightarrow> well e (try_fill ev e)"
  by (auto simp: try_fill_def good_refl intro!: well_fill split: option.splits market_event.splits)

lemma well_fill_book: "sound e \<Longrightarrow> guarded e \<Longrightarrow> well e (fill_working_from_book ns e)"
  by (auto simp: fill_working_from_book_def good_refl good_calm calm_fields intro!: well_fill
      split: option.splits)

section \<open>Exits and the kill switch\<close>

lemma flatten_desired_rep: "rep q \<Longrightarrow> flatten_desired q = Some d \<Longrightarrow> rep (do_quantity d)"
  by (auto simp: flatten_desired_def split: if_splits)

lemma desired_order_rep: "rep q \<Longrightarrow> desired_order_for q t = Some d \<Longrightarrow> rep (do_quantity d)"
  by (auto simp: desired_order_for_def Let_def min_def split: if_splits)

lemma well_exit:
  assumes "sound e" "guarded e" "\<And>d. desired = Some d \<Longrightarrow> rep (do_quantity d)"
  shows "well e (attempt_immediate_exit desired ns reason e)"
proof -
  have set: "well e m" if "good (e\<lparr>en_exit_waiting_for_quote := b\<rparr>) (e\<lparr>en_exit_waiting_for_quote := b\<rparr>)
      \<Longrightarrow> well (e\<lparr>en_exit_waiting_for_quote := b\<rparr>) m" for b m
  proof -
    have g: "good e (e\<lparr>en_exit_waiting_for_quote := b\<rparr>)" by (intro good_calm calm_fields assms)
    then show ?thesis using that good_refl [OF good_state [OF g]] by (blast intro: well_after)
  qed
  have "well e (case en_working e of None \<Rightarrow> skip (e\<lparr>en_exit_waiting_for_quote := True\<rparr>)
      | Some w \<Rightarrow> if \<not> wo_immediate_exit w
        then cancel_working ns (reason @ ''-pending'') (e\<lparr>en_exit_waiting_for_quote := True\<rparr>)
        else skip (e\<lparr>en_exit_waiting_for_quote := True\<rparr>))"
    by (rule set [of True]) (auto split: option.splits intro!: well_cancel_guarded dest: good_state)
  moreover have "well e (seq (submit_desired desired ns reason True False (e\<lparr>en_exit_waiting_for_quote := False\<rparr>))
      (fill_working_from_book ns))"
    by (rule set [of False], rule well_seq) (auto dest: good_state intro!: well_submit well_fill_book assms(3))
  ultimately show ?thesis by (simp add: attempt_immediate_exit_def Let_def cong: option.case_cong)
qed

lemma sound_rep: "sound e \<Longrightarrow> rep (position_of e)"
  by (simp add: sound_def)

lemma well_stop_exit: "sound e \<Longrightarrow> guarded e \<Longrightarrow> well e (stop_exit ns e)"
  by (auto simp: stop_exit_def good_refl intro!: well_exit flatten_desired_rep [OF sound_rep])

lemma well_check_stop:
  assumes "sound e" "guarded e"
  shows "well e (check_stop ns e)"
proof -
  have trigger: "well e (seq (emit (StopTriggered stop mark source (position_of e) ns)
      (e\<lparr>en_stop_exit_pending := True, en_stop_lockout := sign_of (position_of e)\<rparr>)) (stop_exit ns))"
    if "position_of e \<noteq> 0" for stop mark source
  proof (rule well_seq [OF well_calmly])
    let ?e = "e\<lparr>en_stop_exit_pending := True, en_stop_lockout := sign_of (position_of e)\<rparr>"
    have q: "quiet_by [] e ?e" using that by (simp add: quiet_by_def core_def static_def windows_paired_def)
    show "calmly e (emit (StopTriggered stop mark source (position_of e) ns) ?e)"
      by (rule calmly_kill [OF quietly_emit [OF q]]) (simp_all add: okay_emit)
  qed (use assms in \<open>simp_all add: well_stop_exit\<close>)
  show ?thesis
    using assms well_stop_exit [OF assms] trigger
    by (auto simp: check_stop_def good_refl split: option.splits)
qed

lemma well_enforce:
  assumes "sound e"
  shows "well e (enforce_flat ns e)"
proof (cases "en_kill e = NONE")
  case True
  then show ?thesis using assms by (simp add: enforce_flat_def good_refl guarded_def)
next
  case False
  have drop: "well e (case en_working e of None \<Rightarrow> skip e
      | Some w \<Rightarrow> if \<not> wo_reduce_only w then cancel_working ns ''halted'' e else skip e)"
    using well_cancel_guarded [OF assms]
    by (auto simp: assms guarded_def intro!: good_refl split: option.split)
  have flat: "well e (seq (if en_working e \<noteq> None then cancel_working ns ''flatten-already-flat'' e else skip e)
      (\<lambda>e. skip (e\<lparr>en_missing_flatten := False\<rparr>)))" if "sound e" "guarded e" for e :: "'a engine"
    by (rule well_seq) (use that in \<open>auto simp: well_cancel_guarded good_refl good_calm calm_fields\<close>)
  show ?thesis
    unfolding enforce_flat_def if_not_P [OF False]
  proof (rule well_seq [OF drop])
    fix e' :: "'a engine" assume e': "sound e'" "guarded e'"
    show "well e' (if en_kill e' \<noteq> FLATTEN_HALT then skip e'
        else case flatten_desired (position_of e') of
          None \<Rightarrow> seq (if en_working e' \<noteq> None then cancel_working ns ''flatten-already-flat'' e' else skip e')
            (\<lambda>e. skip (e\<lparr>en_missing_flatten := False\<rparr>))
        | Some d \<Rightarrow> attempt_immediate_exit (Some d) ns ''kill-flatten'' e')"
    proof (cases "flatten_desired (position_of e')")
      case None
      show ?thesis unfolding None option.case using flat [OF e'] good_refl [OF e'] by (simp only: holds_simps simp_thms split: if_split)
    next
      case (Some d)
      have "well e' (attempt_immediate_exit (Some d) ns ''kill-flatten'' e')"
        using e' by (rule well_exit) (use flatten_desired_rep [OF sound_rep [OF e'(1)] Some] in simp)
      then show ?thesis using good_refl [OF e'] by (simp add: Some)
    qed
  qed
qed

section \<open>The strategy step\<close>

lemma well_follow:
  assumes "sound e" "guarded e"
  shows "well e (follow_target ev target e)"
proof -
  define d where "d = desired_order_for (position_of e) (tp_target_quantity target)"
  have submit: "well e' (submit_desired d ns reason False fod e')" if "sound e'" "guarded e'" for e' ns reason fod
    using that by (rule well_submit) (auto simp: d_def desired_order_rep [OF sound_rep [OF assms(1)]])
  have clear: "calmly e (emit (StopLockoutCleared q ns) (e\<lparr>en_stop_lockout := 0\<rparr>))" for q ns
  proof (rule calmly_kill [OF quietly_emit])
    show "quiet_by [] e (e\<lparr>en_stop_lockout := 0\<rparr>)"
      by (simp add: quiet_by_def core_def static_def windows_paired_def)
  qed (simp_all add: okay_emit)
  show ?thesis
    unfolding follow_target_def Let_def d_def [symmetric]
    using assms by (auto simp: good_refl well_reject intro!: submit well_seq well_calmly [OF clear])
qed

lemma consult:
  assumes "sound e" "guarded e" "en_kill e \<noteq> FLATTEN_HALT"
  shows "good e (e\<lparr>en_strategy_state := s\<rparr>)"
  using assms by (intro good_micro micro_consult) (simp_all add: guarded_def)

lemma well_strategy:
  assumes "sound e" "guarded e" "en_kill e \<noteq> FLATTEN_HALT"
  shows "well e (apply_strategy ev e)"
proof -
  have "well e (follow_target ev t (e\<lparr>en_strategy_state := s\<rparr>))" for t s
    by (rule well_after [OF consult [OF assms, of s]])
      (intro well_follow good_state [OF consult [OF assms, of s]])
  then show ?thesis
    using consult [OF assms] by (auto simp: apply_strategy_def split: outcome.splits option.splits)
qed

lemma well_strategy_phase: "sound e \<Longrightarrow> guarded e \<Longrightarrow> well e (strategy_phase ev e)"
  unfolding strategy_phase_def
  by (auto simp: good_refl intro!: well_seq well_strategy well_try_fill well_check_stop)

section \<open>Events and clock ticks\<close>

text \<open>
  \<open>fine\<close> allows the kill switch to change on the way. A quiet step may leave an order the switch now
  forbids; \<open>enforce_flat\<close> then removes it.
\<close>

definition fine :: "'s engine \<Rightarrow> 's engine \<Rightarrow> bool" where
  "fine e e' \<longleftrightarrow> micro\<^sup>*\<^sup>* e e' \<and> sound e' \<and> guarded e'"

abbreviation safe :: "'s engine \<Rightarrow> ('a, 's engine) outcome \<Rightarrow> bool" where
  "safe e m \<equiv> okay (\<lambda>_. fine e) m"

lemma safe_well: "well e m \<Longrightarrow> safe e m"
  by (erule holds_mono) (simp_all add: good_def fine_def)

lemma safe_after: "micro\<^sup>*\<^sup>* e e0 \<Longrightarrow> safe e0 m \<Longrightarrow> safe e m"
  by (erule holds_mono) (auto simp: fine_def)

lemma safe_seq:
  assumes "safe e m" and "\<And>x e'. sound e' \<Longrightarrow> guarded e' \<Longrightarrow> safe e' (f x e')"
  shows "safe e (andthen m f)"
proof (cases m)
  case (Ok x e')
  with assms have "fine e e'" "safe e' (f x e')" by (auto simp: fine_def)
  with Ok show ?thesis by (auto simp: fine_def intro: safe_after)
qed simp

lemma safe_well_seq:
  assumes "well e m" and "\<And>x e'. sound e' \<Longrightarrow> guarded e' \<Longrightarrow> en_kill e' = en_kill e \<Longrightarrow> safe e' (f x e')"
  shows "safe e (andthen m f)"
proof (cases m)
  case (Ok x e')
  with assms(1) have g: "good e e'" by simp
  with assms(2) have "safe e' (f x e')" by (auto simp: good_def)
  with Ok g show ?thesis by (auto simp: good_def intro: safe_after)
qed simp

lemma safe_quiet_seq:
  assumes "quietly e m" "sound e" and "\<And>x e'. quiet e e' \<Longrightarrow> sound e' \<Longrightarrow> safe e' (f x e')"
  shows "safe e (andthen m f)"
proof (cases m)
  case (Ok x e')
  with assms(1) have q: "quiet e e'" by simp
  have "safe e' (f x e')" by (rule assms(3) [OF q quiet_sound [OF q assms(2)]])
  then have "safe e (f x e')" using micro_quiet [OF q] by (blast intro: safe_after)
  with Ok show ?thesis by simp
qed simp

lemma safe_close:
  assumes "sound e" "\<And>e. sound e \<Longrightarrow> guarded e \<Longrightarrow> safe e (f e)"
  shows "safe e (seq (mark_limits t e) (\<lambda>e. seq (enforce_flat ns e) f))"
  by (rule safe_quiet_seq [OF quietly_limits assms(1)], rule safe_seq [OF safe_well [OF well_enforce]])
    (use assms(2) in simp_all)

lemma calm_note: "calm e (note_event ev e)"
proof -
  have "en_kill (note_event ev e) = en_kill e" by (cases ev) (simp_all add: note_event_def)
  then show ?thesis by (simp add: calm_def quiet_note)
qed

lemma calm_clock: "calm e (advance_source_clock ns e)"
  by (simp add: calm_def quiet_clock) (simp add: advance_source_clock_def)

lemma kill_on_store: "okay (\<lambda>_ e'. en_kill e' = en_kill e) (on_store f e)"
  by (simp add: on_store_def split: outcome.split)

lemma calmly_commit: "calmly e (commit_ledger e)"
  by (rule calmly_kill [OF quietly_commit]) (simp add: commit_ledger_def kill_on_store)

lemma calmly_projection:
  "calmly e (on_store (write_state j) e)" "calmly e (on_store (write_health j) e)"
  by (rule calmly_kill [OF quietly_projection(1) kill_on_store])
    (rule calmly_kill [OF quietly_projection(2) kill_on_store])

lemma calmly_persist: "calmly e (persist t e)"
  unfolding persist_def write_health_at_def
  by (intro calmly_seq calmly_commit calmly_projection calmly_lift)

lemma safe_persist: "sound e \<Longrightarrow> guarded e \<Longrightarrow> safe e (persist t e)"
  by (intro safe_well well_calmly calmly_persist)

lemma safe_advance:
  assumes "sound e" "guarded e"
  shows "safe e (advance ev e)"
proof -
  let ?ns = "received_utc_ns ev" and ?t = "event_time_utc ev"
  have stale: "safe e0 (seq (flatten_halt ''stale_data'' e0) (\<lambda>e. seq (enforce_flat ?ns (note_event ev e)) (persist ?t)))"
    if "sound e0" for e0 :: "'a engine"
  proof (rule safe_quiet_seq [OF quietly_kill(2) that])
    fix x and e1 :: "'a engine" assume e1: "sound e1"
    have "sound (note_event ev e1)" by (rule quiet_sound [OF quiet_note e1])
    then have "safe (note_event ev e1) (seq (enforce_flat ?ns (note_event ev e1)) (persist ?t))"
      by (intro safe_seq [OF safe_well [OF well_enforce]] safe_persist)
    then show "safe e1 (seq (enforce_flat ?ns (note_event ev e1)) (persist ?t))"
      using micro_quiet [OF quiet_note [of e1 ev]] by (blast intro: safe_after)
  qed
  have fresh: "safe e0 (seq (try_fill ev (note_event ev e0)) (\<lambda>e.
      seq (check_stop ?ns e) (\<lambda>e. seq (mark_limits ?t e) (\<lambda>e. seq (enforce_flat ?ns e) (\<lambda>e.
      seq (strategy_phase ev e) (\<lambda>e. seq (mark_limits ?t e) (\<lambda>e. seq (enforce_flat ?ns e) (persist ?t))))))))"
    if "sound e0" "guarded e0" for e0 :: "'a engine"
  proof -
    have g: "good e0 (note_event ev e0)" using calm_note that by (rule good_calm)
    then have m: "micro\<^sup>*\<^sup>* e0 (note_event ev e0)" by (simp add: good_def)
    show ?thesis
      by (rule safe_after [OF m], rule safe_seq [OF safe_well [OF well_try_fill [OF good_state [OF g]]]],
          rule safe_seq [OF safe_well [OF well_check_stop]], assumption+, rule safe_close, assumption,
          rule safe_seq [OF safe_well [OF well_strategy_phase]], assumption+, rule safe_close, assumption,
          rule safe_persist)
  qed
  have g: "good e (advance_source_clock ?ns e)" using calm_clock assms by (rule good_calm)
  then have "micro\<^sup>*\<^sup>* e (advance_source_clock ?ns e)" by (simp add: good_def)
  then show ?thesis
    unfolding advance_def Let_def
    by (rule safe_after) (simp add: stale fresh good_state [OF g])
qed

lemma safe_tick:
  assumes "sound e" "guarded e"
  shows "safe e (tick now anchor observed e)"
proof -
  let ?e = "advance_source_clock now e"
  define stale where "stale = (cf_stale_after_ns (en_config ?e) < now - anchor)"
  define changed where "changed = (current_touch_event ?e \<noteq> current_touch_event e)"
  have g: "good e ?e" using calm_clock assms by (rule good_calm)
  note e0 = good_state [OF g]
  have kill: "en_kill ?e = en_kill e" using g by (simp add: good_def)
  have seen: "quietly e (mark_if_seen e)" for e :: "'a engine"
    by (simp add: mark_if_seen_def quietly_limits split: option.split)
  let ?last = "\<lambda>e2. seq (if en_fill_count e2 \<noteq> en_fill_count e \<and> en_last_event_time e2 \<noteq> None
      then seq (mark_if_seen e2) (enforce_flat now) else skip e2) (persist observed)"
  have last: "safe e2 (?last e2)" if "sound e2" "guarded e2" for e2 :: "'a engine"
  proof -
    have "safe e2 (seq (mark_if_seen e2) (enforce_flat now))"
      by (rule safe_quiet_seq [OF seen that(1)]) (intro safe_well well_enforce)
    moreover have "safe e2 (skip e2)" using that by (simp add: fine_def)
    ultimately show ?thesis by (intro safe_seq safe_persist) simp_all
  qed
  let ?mid = "\<lambda>e1. seq (mark_if_seen e1) (\<lambda>e2. seq
      (if stale \<or> en_exit_waiting_for_quote e2 \<or> changed \<or> en_kill e2 \<noteq> en_kill e
       then enforce_flat now e2 else skip e2) ?last)"
  have mid: "safe e1 (?mid e1)" if "sound e1" "stale \<or> guarded e1 \<and> en_kill e1 = en_kill e" for e1 :: "'a engine"
  proof (rule safe_quiet_seq [OF seen that(1)])
    fix x and e2 :: "'a engine" assume q: "quiet e1 e2" and e2: "sound e2"
    have "guarded e2" if "\<not> (stale \<or> en_exit_waiting_for_quote e2 \<or> changed \<or> en_kill e2 \<noteq> en_kill e)"
      using that \<open>stale \<or> guarded e1 \<and> en_kill e1 = en_kill e\<close> quiet_core [OF q]
      by (auto simp: guarded_def core_def)
    then have "safe e2 (if stale \<or> en_exit_waiting_for_quote e2 \<or> changed \<or> en_kill e2 \<noteq> en_kill e
        then enforce_flat now e2 else skip e2)"
      using e2 safe_well [OF well_enforce [OF e2]] by (simp add: fine_def)
    then show "safe e2 (seq (if stale \<or> en_exit_waiting_for_quote e2 \<or> changed \<or> en_kill e2 \<noteq> en_kill e
        then enforce_flat now e2 else skip e2) ?last)"
      by (rule safe_seq) (rule last)
  qed
  have "safe ?e (seq (if stale then flatten_halt ''stale_data'' ?e
      else if \<not> en_stop_exit_pending ?e \<or> en_exit_waiting_for_quote ?e \<or> changed
      then check_stop now ?e else skip ?e) ?mid)"
  proof (cases stale)
    case True
    have "safe ?e (seq (flatten_halt ''stale_data'' ?e) ?mid)"
      by (rule safe_quiet_seq [OF quietly_kill(2) e0(1)], rule mid) (simp_all add: True)
    then show ?thesis unfolding if_P [OF True] .
  next
    case False
    have "well ?e (if \<not> en_stop_exit_pending ?e \<or> en_exit_waiting_for_quote ?e \<or> changed
        then check_stop now ?e else skip ?e)"
      using well_check_stop [OF e0] good_refl [OF e0] by simp
    then show ?thesis unfolding if_not_P [OF False]
      by (rule safe_well_seq) (rule mid, simp_all add: kill)
  qed
  moreover have "micro\<^sup>*\<^sup>* e ?e" using g by (simp add: good_def)
  ultimately show ?thesis
    unfolding tick_def Let_def stale_def changed_def by (blast intro: safe_after)
qed

end
