(* ===== verification/EngineRuns.thy ===== *)
theory EngineRuns
  imports EngineRefines
begin

text \<open>
  Runs of the engine: a run is opened, then fed events and clock ticks until one of them raises.
  The states in between are \<open>reachable\<close>. An invariant of the abstract machine that holds when a run
  opens holds in all of them: the locale \<open>engine_invariant\<close>, interpreted below for the limits, the
  order book, the ledger and the stop.
\<close>

section \<open>Runs\<close>

datatype input = Event market_event | Clock int utc

fun feed :: "input \<Rightarrow> 's engine \<Rightarrow> (unit, 's engine) outcome" where
  "feed (Event event) e = on_event event e"
| "feed (Clock now observed) e = on_clock now observed e"

inductive reachable :: "'s engine \<Rightarrow> bool" where
  opened: "open_engine cf created zone st s io run_id dirs = Ok e dirs' \<Longrightarrow> reachable e"
| fed: "reachable e \<Longrightarrow> feed i e = Ok () e' \<Longrightarrow> reachable e'"

lemma fail_closed_Ok: "fail_closed t m = Ok x e \<longleftrightarrow> m = Ok x e"
  by (cases m) (simp_all add: fail_closed_def Let_def)

lemma lift_Ok_iff: "lift_result r s = Ok x t \<longleftrightarrow> r = Inr x \<and> t = s"
  by (auto simp: lift_result_def split: sum.split)

lemma require_open_Ok: "require_open e = Ok u e' \<longleftrightarrow> e' = e \<and> \<not> en_failed e \<and> \<not> en_closed e"
  by (auto simp: require_open_def)

lemma on_event_OkE:
  assumes "on_event event e = Ok u e'"
  obtains "\<not> en_failed e" "\<not> en_closed e" "advance event e = Ok () e'"
  using assms by (auto simp: on_event_def andthen_Ok_iff require_open_Ok check_event_def fail_closed_Ok split: if_splits)

lemma on_clock_OkE:
  assumes "on_clock now observed e = Ok u e'"
  obtains anchor where "\<not> en_failed e" "\<not> en_closed e" "0 \<le> now" "anchor \<le> now"
    "anchor = (case en_last_data_ns e of None \<Rightarrow> en_created_ns e | Some l \<Rightarrow> l)"
    "tick now anchor observed e = Ok () e'"
  using assms that
  by (auto simp: on_clock_def andthen_Ok_iff require_open_Ok fail_closed_Ok Let_def not_less split: if_splits)

text \<open>What a handler that returns did, in terms of the abstract machine.\<close>

lemma feed_fine:
  assumes "feed i e = Ok () e'" "sound e" "guarded e"
  shows "fine e e'"
proof (cases i)
  case (Event event)
  with assms(1) have "on_event event e = Ok () e'" by simp
  then show ?thesis using safe_advance [OF assms(2,3), of event] by (auto elim!: on_event_OkE)
next
  case (Clock now observed)
  with assms(1) have "on_clock now observed e = Ok () e'" by simp
  then obtain anchor where "tick now anchor observed e = Ok () e'" by (rule on_clock_OkE)
  then show ?thesis using safe_tick [OF assms(2,3), of now anchor observed] by simp
qed

section \<open>Opening a run\<close>

text \<open>The state before the claim is written, with what the checks before it established.\<close>

definition fresh_start :: "'s engine \<Rightarrow> bool" where
  "fresh_start e \<longleftrightarrow> (\<exists>cf mode created zone st s store inc md.
     e = initial_engine cf mode created zone st s store inc md
     \<and> validate_config cf = Inr () \<and> size_increment (cf_sz_decimals cf) = Inr inc
     \<and> require_local_paper_mode (cf_trading_mode cf) = Inr mode
     \<and> require_strategy st s = Inr () \<and> history store = [] \<and> rs_write_failed store = False)"

lemma construct_Ok_iff:
  "(case m of Ok _ e \<Rightarrow> Ok e dirs | Raise ex e \<Rightarrow> Raise ex dirs) = Ok e' dirs'
    \<longleftrightarrow> m = Ok () e' \<and> dirs' = dirs"
  by (cases m) auto

lemma write_claim_history:
  "write_claim j st = Ok u st' \<Longrightarrow> history st' = history st \<and> rs_run_id st' = rs_run_id st"
  by (auto simp: write_claim_def io_step_def history_def Let_def split: io_result.splits if_splits)

lemma open_engine_fresh:
  assumes "open_engine cf created zone st s io run_id dirs = Ok e dirs'"
  obtains e0 where "fresh_start e0" "quiet e0 e"
proof -
  from assms obtain mode store dirs1 inc md j e1 where
    v: "validate_config cf = Inr ()" "require_local_paper_mode (cf_trading_mode cf) = Inr mode"
      "require_strategy st s = Inr ()" "size_increment (cf_sz_decimals cf) = Inr inc"
    and o: "open_run_store io run_id (cf_durable_ledger cf) dirs = Ok store dirs1"
    and w: "claim_payload (initial_engine cf mode created zone st s store inc md) = Inr j"
      "on_store (write_claim j) (initial_engine cf mode created zone st s store inc md) = Ok () e1"
      "persist created e1 = Ok () e"
    unfolding open_engine_def
    by (clarsimp simp: andthen_Ok_iff lift_Ok_iff Let_def construct_Ok_iff)
  let ?e0 = "initial_engine cf mode created zone st s store inc md"
  have "history store = []" "\<not> rs_write_failed store"
    using o by (auto simp: open_run_store_def history_def split: sum.splits if_splits)
  with v have "fresh_start ?e0" unfolding fresh_start_def by (intro exI [of _ cf] exI conjI refl) simp_all
  moreover have "quietly ?e0 (andthen (lift_result (claim_payload ?e0) ?e0) (\<lambda>j e.
        seq (on_store (write_claim j) e) (persist created)))"
  proof (intro quietly_seq quietly_lift quietly_persist)
    fix j and e1 :: "'a engine"
    show "quietly e1 (on_store (write_claim j) e1)"
      by (auto simp: on_store_def dest!: write_claim_history intro!: quiet_store split: outcome.split)
  qed
  ultimately show ?thesis using w by (intro that) (simp_all add: lift_result_def)
qed

lemma fresh_sound:
  assumes "fresh_start e"
  shows "sound e" "guarded e"
proof -
  from assms obtain cf mode created zone st s store inc md where
    e: "e = initial_engine cf mode created zone st s store inc md"
    and v: "validate_config cf = Inr ()" "size_increment (cf_sz_decimals cf) = Inr inc"
    unfolding fresh_start_def by blast
  have "inc = pow10 (- cf_sz_decimals cf)" using v(2) by (auto simp: size_increment_def split: if_splits)
  then show "sound e" using v validated_positive [OF v(1)]
    by (auto simp: sound_def e initial_engine_def)
  show "guarded e" by (simp add: guarded_def e initial_engine_def)
qed

lemma reachable_sound: "reachable e \<Longrightarrow> sound e \<and> guarded e"
proof (induction rule: reachable.induct)
  case (opened cf created zone st s io run_id dirs e dirs')
  then obtain e0 where "fresh_start e0" "quiet e0 e" by (rule open_engine_fresh)
  then show ?case using fresh_sound [of e0] quiet_sound [of e0 e]
    by (auto simp: fresh_start_def guarded_def core_def initial_engine_def dest!: quiet_core)
next
  case (fed e i e')
  then show ?case using feed_fine [of i e e'] by (simp add: fine_def)
qed

section \<open>Invariants\<close>

locale engine_invariant =
  fixes I :: "'s engine \<Rightarrow> bool"
  assumes initially: "fresh_start e \<Longrightarrow> I e"
    and preserved: "sound e \<Longrightarrow> micro e e' \<Longrightarrow> I e \<Longrightarrow> I e'"
begin

lemma micros: "micro\<^sup>*\<^sup>* e e' \<Longrightarrow> sound e \<Longrightarrow> I e \<Longrightarrow> I e'"
  by (induction rule: rtranclp_induct) (auto intro: preserved micros_sound)

lemma fine: "fine e e' \<Longrightarrow> sound e \<Longrightarrow> I e \<Longrightarrow> I e'"
  by (auto simp: fine_def intro: micros)

lemma always: "reachable e \<Longrightarrow> I e"
proof (induction rule: reachable.induct)
  case (opened cf created zone st s io run_id dirs e dirs')
  then obtain e0 where "fresh_start e0" "quiet e0 e" by (rule open_engine_fresh)
  then show ?case by (blast intro: micro_quiet preserved initially fresh_sound)
next
  case (fed e i e')
  then show ?case using reachable_sound [OF fed.hyps(1)] by (blast intro: fine feed_fine)
qed

end

end
