(* ===== verification/EngineInvariants.thy ===== *)
theory EngineInvariants
  imports EngineRuns
begin

text \<open>
  The invariants of every reachable state, each an interpretation of \<open>engine_invariant\<close>: the order
  book against the ledger, the recent-record lists and counters against the ledger, the kill switch,
  the stop of the open position, and the peak equity. The properties of runs follow from them.
\<close>

section \<open>The cases of a step\<close>

lemma micro_elim:
  assumes "micro e e'" "sound e"
  obtains (quiet) "quiet e e'"
  | (consult) s where "en_kill e \<noteq> FLATTEN_HALT" "e' = e\<lparr>en_strategy_state := s\<rparr>"
  | (cancel) w r where "en_working e = Some w" "frames e e'" "en_working e' = None" "ca_order r = w"
      "en_orders e' = push_last STATE_RECENT_RECORD_LIMIT (en_orders e) (Canceled r)"
      "en_order_count e' = Suc (en_order_count e)" "en_next_order_number e' = en_next_order_number e"
      "engine_history e' = engine_history e @ [OrderRecord (Canceled r)]"
      "en_position e' = en_position e" "en_stop_price e' = en_stop_price e"
      "en_stop_exit_pending e' = en_stop_exit_pending e"
      "en_fills e' = en_fills e" "en_fill_count e' = en_fill_count e"
  | (accept) w touch where "en_working e = None" "wo_reduce_only w \<or> en_kill e = NONE"
      "frames e e'" "en_working e' = Some w" "en_position e' = en_position e"
      "en_stop_price e' = en_stop_price e" "en_stop_exit_pending e' = en_stop_exit_pending e"
      "en_fills e' = en_fills e" "en_fill_count e' = en_fill_count e"
      "en_orders e' = en_orders e" "en_order_count e' = en_order_count e"
      "en_next_order_number e' = Suc (en_next_order_number e)"
      "engine_history e' = engine_history e @ [OrderAccepted w touch]"
      "wo_client_order_id w = client_order_id e"
  | (unfilled) w r where "en_working e = Some w" "frames e e'" "en_working e' = None" "co_order r = w"
      "co_filled_quantity r = 0"
      "en_orders e' = push_last STATE_RECENT_RECORD_LIMIT (en_orders e) (Completed r)"
      "en_order_count e' = Suc (en_order_count e)" "en_next_order_number e' = en_next_order_number e"
      "engine_history e' = engine_history e @ [OrderRecord (Completed r)]"
      "en_position e' = en_position e" "en_stop_price e' = en_stop_price e"
      "en_stop_exit_pending e' = en_stop_exit_pending e"
      "en_fills e' = en_fills e" "en_fill_count e' = en_fill_count e"
  | (filled) w r q f rs where "en_working e = Some w" "frames e e'" "en_working e' = None" "co_order r = w"
      "co_filled_quantity r = fq_quantity q" "fill_permitted e w q"
      "en_orders e' = push_last STATE_RECENT_RECORD_LIMIT (en_orders e) (Completed r)"
      "en_order_count e' = Suc (en_order_count e)" "en_next_order_number e' = en_next_order_number e"
      "apply_fill (en_position e) q = Inr (en_position e')" "stop_placed e (position_of e) e'"
      "fr_quote f = q" "fr_client_order_id f = wo_client_order_id w"
      "en_fills e' = push_last STATE_RECENT_RECORD_LIMIT (en_fills e) f"
      "en_fill_count e' = Suc (en_fill_count e)"
      "engine_history e' = engine_history e @ [FillRecord f, OrderRecord (Completed r)] @ rs"
      "select accepted rs = []" "select order_records rs = []" "select fill_records rs = []"
      "select rejections rs = []" "\<forall>k. kill_after k rs = k"
  using assms(1)
proof cases
  case micro_quiet
  then show ?thesis by (rule quiet)
next
  case (micro_consult s)
  then show ?thesis by (intro consult)
next
  case (micro_cancel received why)
  then show ?thesis
  proof (cases rule: cancel_working_OkE)
    case none
    then show ?thesis by (intro quiet) simp
  next
    case (some w r)
    then show ?thesis by (intro cancel)
  qed
next
  case (micro_accept d q clipped limit touch received reason immediate)
  from micro_accept(6) show ?thesis
  proof (cases rule: accept_order_frames)
    case (1 w)
    then show ?thesis using micro_accept(1,2) by (intro accept [of w touch]) simp_all
  qed
next
  case (micro_complete w quote event received u)
  show ?thesis
  proof (rule complete_ioc_OkE [OF micro_complete(3,1)], goal_cases)
    case (1 q)
    then show ?case using micro_complete(2) by (simp add: fill_permitted_def)
  next
    case (2 r)
    show ?case
    proof (cases quote)
      case None
      with 2 show ?thesis using micro_complete(1) by (intro unfilled [of w r]) simp_all
    next
      case (Some q)
      with 2(8) obtain f rs where "fr_quote f = q" "fr_client_order_id f = wo_client_order_id w"
        "en_fills e' = push_last STATE_RECENT_RECORD_LIMIT (en_fills e) f"
        "en_fill_count e' = Suc (en_fill_count e)"
        "engine_history e' = engine_history e @ [FillRecord f, OrderRecord (Completed r)] @ rs"
        "select accepted rs = []" "select order_records rs = []" "select fill_records rs = []"
        "select rejections rs = []" "\<forall>k. kill_after k rs = k" by auto
      with 2 Some show ?thesis
        using micro_complete(1) micro_complete(2) [OF Some] by (intro filled [of w r q f rs]) simp_all
    qed
  qed
qed

lemmas step_frames = frames_def static_def fringe_def

section \<open>The order book and the ledger\<close>

fun closed_order :: "order_record \<Rightarrow> working_order" where
  "closed_order (Completed c) = co_order c"
| "closed_order (Canceled c) = ca_order c"

definition nth_order_id :: "string \<Rightarrow> nat \<Rightarrow> string" where
  "nth_order_id run_id n = run_id @ ''-'' @ zero_pad 6 (nat_text n)"

text \<open>
  The ledger closes the orders it accepted one by one and in order; only the working order is open.
  The identifiers are numbered from 1.
\<close>

definition balanced ::
  "string \<Rightarrow> working_order list \<Rightarrow> order_record list \<Rightarrow> working_order option \<Rightarrow> nat \<Rightarrow> bool" where
  "balanced run_id os rs working n \<longleftrightarrow>
     os = map closed_order rs @ (case working of None \<Rightarrow> [] | Some w \<Rightarrow> [w])
     \<and> n = Suc (length os)
     \<and> map wo_client_order_id os = map (nth_order_id run_id) [1..<n]"

definition orders_balanced :: "'s engine \<Rightarrow> bool" where
  "orders_balanced e \<longleftrightarrow>
     balanced (rs_run_id (en_store e)) (select accepted (engine_history e))
       (select order_records (engine_history e)) (en_working e) (en_next_order_number e)"

lemma balanced_close:
  "balanced run_id os cs (Some w) n \<Longrightarrow> closed_order r = w \<Longrightarrow> balanced run_id os (cs @ [r]) None n"
  by (auto simp: balanced_def simp del: upt_Suc)

lemma balanced_open:
  assumes "balanced run_id os cs None n" "wo_client_order_id w = nth_order_id run_id n"
  shows "balanced run_id (os @ [w]) cs (Some w) (Suc n)"
proof -
  have "1 \<le> n" using assms(1) by (simp add: balanced_def del: upt_Suc)
  then have "[1..<Suc n] = [1..<n] @ [n]" by (rule upt_Suc_append)
  with assms show ?thesis by (auto simp: balanced_def simp del: upt_Suc)
qed

interpretation order_book: engine_invariant orders_balanced
proof
  fix e :: "'s engine" assume "fresh_start e"
  then show "orders_balanced e"
    by (auto simp: fresh_start_def orders_balanced_def balanced_def initial_engine_def)
next
  fix e e' :: "'s engine" assume s: "sound e" "micro e e'" and I: "orders_balanced e"
  from s(2,1) show "orders_balanced e'"
  proof (cases rule: micro_elim)
    case quiet
    with I show ?thesis
      by (auto simp: quiet_def quiet_by_def core_def static_def orders_balanced_def)
  next
    case (consult s)
    with I show ?thesis by (simp add: orders_balanced_def)
  next
    case (cancel w r)
    with balanced_close [of _ _ _ w _ "Canceled r"] I show ?thesis
      by (simp add: orders_balanced_def step_frames)
  next
    case (accept w touch)
    with balanced_open [of _ _ _ _ w] I show ?thesis
      by (simp add: orders_balanced_def step_frames client_order_id_def nth_order_id_def)
  next
    case (unfilled w r)
    with balanced_close [of _ _ _ w _ "Completed r"] I show ?thesis
      by (simp add: orders_balanced_def step_frames)
  next
    case (filled w r q f rs)
    with balanced_close [of _ _ _ w _ "Completed r"] I show ?thesis
      by (simp add: orders_balanced_def step_frames)
  qed
qed

section \<open>Counters, recent records, kill switch and peak\<close>

definition tallied :: "'a list \<Rightarrow> 'a list \<Rightarrow> nat \<Rightarrow> bool" where
  "tallied rs recent n \<longleftrightarrow> recent = keep_recent [] rs \<and> n = length rs"

lemma tallied_append:
  "tallied rs recent n \<Longrightarrow> tallied (rs @ new) (keep_recent recent new) (n + length new)"
  by (simp add: tallied_def)

lemma tallied_snoc:
  "tallied rs recent n \<Longrightarrow> tallied (rs @ [r]) (push_last STATE_RECENT_RECORD_LIMIT recent r) (Suc n)"
  using tallied_append [of rs recent n "[r]"] by simp

definition recorded :: "'s engine \<Rightarrow> bool" where
  "recorded e \<longleftrightarrow>
     tallied (select order_records (engine_history e)) (en_orders e) (en_order_count e)
     \<and> tallied (select fill_records (engine_history e)) (en_fills e) (en_fill_count e)
     \<and> tallied (select rejections (engine_history e)) (en_rejections e) (en_rejection_count e)"

lemma fresh_fields:
  assumes "fresh_start e"
  shows "engine_history e = []" "en_orders e = []" "en_fills e = []" "en_rejections e = []"
    "en_order_count e = 0" "en_fill_count e = 0" "en_rejection_count e = 0" "en_kill e = NONE"
    "en_day e = None" "en_week e = None" "en_peak e = cf_starting_cash_usdc (en_config e)"
    "position_of e = 0" "en_stop_price e = None" "\<not> en_stop_exit_pending e" "en_working e = None"
    "validate_config (en_config e) = Inr ()" "\<not> en_failed e" "\<not> en_closed e"
  using assms by (auto simp: fresh_start_def initial_engine_def)

interpretation records: engine_invariant recorded
proof
  fix e :: "'s engine" assume "fresh_start e"
  then show "recorded e" by (simp add: recorded_def tallied_def fresh_fields)
next
  fix e e' :: "'s engine" assume s: "sound e" "micro e e'" and I: "recorded e"
  from s(2,1) show "recorded e'"
  proof (cases rule: micro_elim)
    case quiet
    then obtain rs where "quiet_by rs e e'" by (auto simp: quiet_def)
    with I tallied_append [of _ _ _ "select rejections rs"] show ?thesis
      by (simp add: quiet_by_def core_def recorded_def)
  qed (use I in \<open>simp_all add: recorded_def step_frames tallied_snoc\<close>)
qed

definition halts_match :: "'s engine \<Rightarrow> bool" where
  "halts_match e \<longleftrightarrow> en_kill e = kill_after NONE (engine_history e)"

interpretation halts: engine_invariant halts_match
proof
  fix e :: "'s engine" assume "fresh_start e"
  then show "halts_match e" by (simp add: halts_match_def fresh_fields)
next
  fix e e' :: "'s engine" assume s: "sound e" "micro e e'" and I: "halts_match e"
  from s(2,1) show "halts_match e'"
  proof (cases rule: micro_elim)
    case quiet
    with I show ?thesis by (auto simp: quiet_def quiet_by_def halts_match_def)
  qed (use I in \<open>simp_all add: halts_match_def step_frames\<close>)
qed

definition peak_positive :: "'s engine \<Rightarrow> bool" where
  "peak_positive e \<longleftrightarrow> 0 < en_peak e \<and> cf_starting_cash_usdc (en_config e) \<le> en_peak e \<and> windows_paired e"

interpretation peak: engine_invariant peak_positive
proof
  fix e :: "'s engine" assume "fresh_start e"
  then show "peak_positive e"
    using fresh_fields(16) [of e]
    by (auto simp: peak_positive_def fresh_fields windows_paired_def
        validate_config_def res_bind_Inr_iff checks_Inr_iff require_positive_def)
next
  fix e e' :: "'s engine" assume s: "sound e" "micro e e'" and I: "peak_positive e"
  from s(2,1) show "peak_positive e'"
  proof (cases rule: micro_elim)
    case quiet
    with I show ?thesis by (auto simp: quiet_def quiet_by_def core_def static_def peak_positive_def)
  qed (use I in \<open>simp_all add: peak_positive_def windows_paired_def step_frames\<close>)
qed

section \<open>The stop\<close>

text \<open>An open position has its stop at the configured distance from its average entry; a flat one has none.\<close>

definition stop_level :: "engine_config \<Rightarrow> position_state \<Rightarrow> dec option" where
  "stop_level cf p =
     (if ps_position_quantity p = 0 then None
      else case effective_stop_distance_fraction (cf_stop_distance_fraction cf) (cf_volatility_multiple cf) of
        Inl _ \<Rightarrow> None
      | Inr distance \<Rightarrow> Some (if ps_position_quantity p > 0
          then dmul (ps_average_entry_price p) (dsub 1 distance)
          else dmul (ps_average_entry_price p) (dadd 1 distance)))"

definition stop_in_place :: "'s engine \<Rightarrow> bool" where
  "stop_in_place e \<longleftrightarrow> en_stop_price e = stop_level (en_config e) (en_position e)
     \<and> (position_of e \<noteq> 0 \<longrightarrow> en_stop_price e \<noteq> None)
     \<and> (en_stop_exit_pending e \<longrightarrow> position_of e \<noteq> 0)"

lemma stop_in_place_cong:
  assumes "stop_in_place e" "en_position e' = en_position e" "en_config e' = en_config e"
    "en_stop_price e' = en_stop_price e"
    "en_stop_exit_pending e' \<Longrightarrow> en_stop_exit_pending e \<or> position_of e \<noteq> 0"
  shows "stop_in_place e'"
  using assms(1,5) unfolding stop_in_place_def assms(2-4) by blast

lemma sign_same_direction: "same_direction a b \<Longrightarrow> sign_of b = sign_of a"
  by (auto simp: same_direction_def sign_of_def)

lemma fill_keeps_stop:
  assumes "sound e" "stop_in_place e" "en_working e = Some w" "fill_permitted e w q"
    and "apply_fill (en_position e) q = Inr (en_position e')" "stop_placed e (position_of e) e'"
    and "en_config e' = en_config e"
  shows "stop_in_place e'"
proof -
  note p = permitted_position [OF assms(1,3,4,5)]
  have rep: "rep (position_of e)" using assms(1) by (simp add: sound_def)
  show ?thesis
  proof (cases "position_of e' = 0")
    case True
    with assms(6) show ?thesis by (simp add: stop_placed_def stop_in_place_def stop_level_def)
  next
    case held: False
    show ?thesis
    proof (cases "wo_reduce_only w")
      case True
      from p(3) [OF True] held have same: "same_direction (position_of e) (position_of e')" by simp
      have "dabs (position_of e') \<le> dabs (position_of e)" using p(4) [OF True] p(1) rep by (simp add: dabs_rep)
      with assms(6) held sign_same_direction [OF same]
      have stop: "en_stop_price e' = en_stop_price e" by (simp add: stop_placed_def)
      from assms(4) True have f: "0 < fq_quantity q" "fq_side q = wo_side w" "fq_quantity q \<le> wo_quantity w"
        "reduction_ok e (wo_side w) (wo_quantity w)" by (simp_all add: fill_permitted_def)
      then have "fq_quantity q \<le> \<bar>position_of e\<bar>" "(fq_side q = BUY) \<noteq> (0 < position_of e)"
        using rep by (auto simp: reduction_ok_def dabs_rep)
      from apply_fill_reducing [OF rep f(1) this] assms(5) held
      have "ps_average_entry_price (en_position e') = ps_average_entry_price (en_position e)" by auto
      moreover have "position_of e \<noteq> 0" "(0 < position_of e') = (0 < position_of e)"
        using same by (auto simp: same_direction_def)
      ultimately have "stop_level (en_config e) (en_position e') = stop_level (en_config e) (en_position e)"
        using held by (simp only: stop_level_def if_False)
      with assms(2,7) stop \<open>position_of e \<noteq> 0\<close> show ?thesis
        unfolding stop_in_place_def by (metis held)
    next
      case False
      then have flat: "position_of e = 0" by (rule p(5))
      then have "\<not> (dabs (position_of e') \<le> dabs (position_of e) \<and> sign_of (position_of e') = sign_of (position_of e))"
        using held by (auto simp: sign_of_def)
      with assms(2,6) held flat show ?thesis
        by (auto simp: stop_placed_def stop_in_place_def stop_level_def)
    qed
  qed
qed

interpretation stops: engine_invariant stop_in_place
proof
  fix e :: "'s engine" assume "fresh_start e"
  then show "stop_in_place e" by (simp add: stop_in_place_def stop_level_def fresh_fields)
next
  fix e e' :: "'s engine" assume s: "sound e" "micro e e'" and I: "stop_in_place e"
  from s(2,1) show "stop_in_place e'"
  proof (cases rule: micro_elim)
    case quiet
    with I show ?thesis
      by (intro stop_in_place_cong [OF I]) (auto simp: quiet_def quiet_by_def core_def static_def)
  next
    case (filled w r q f rs)
    show ?thesis
      using fill_keeps_stop [OF s(1) I filled(1,6,10,11)] filled(2) by (simp add: step_frames)
  qed (rule stop_in_place_cong [OF I]; simp add: step_frames)+
qed

end
