(* ===== verification/EngineDemo.thy ===== *)
theory EngineDemo
  imports Engine
begin

text \<open>
  One small run, evaluated by the kernel for the witnesses of the engine's properties: a strategy that
  asks for a hundredth of a coin on every book event, a book event that fills it, a clock tick past
  the staleness limit that halts it, and the same run on a disk that stops accepting writes. The
  content of the claim, state and health payloads plays no part, so their code equations only tell
  whether they can be built.
\<close>

section \<open>Payloads\<close>

definition health_json :: "'s engine \<Rightarrow> utc \<Rightarrow> json" where
  "health_json e t = projr (health_payload e t)"

definition claim_json :: "'s engine \<Rightarrow> json" where
  "claim_json e = projr (claim_payload e)"

lemma health_code:
  "health_payload e t =
     (case (case en_last_event_time e of None \<Rightarrow> Inr [] | Some t \<Rightarrow> format_amsterdam (en_zone e) t) of
        Inl ex \<Rightarrow> Inl ex
      | Inr _ \<Rightarrow> (case format_amsterdam (en_zone e) t of Inl ex \<Rightarrow> Inl ex | Inr _ \<Rightarrow> Inr (health_json e t)))"
  by (auto simp: health_json_def health_payload_def Let_def split: option.splits sum.splits)

lemma claim_code:
  "claim_payload e =
     (case effective_stop_distance_fraction (cf_stop_distance_fraction (en_config e))
         (cf_volatility_multiple (en_config e)) of
        Inl ex \<Rightarrow> Inl ex
      | Inr _ \<Rightarrow> (case format_amsterdam (en_zone e) (en_created_at e) of
            Inl ex \<Rightarrow> Inl ex | Inr _ \<Rightarrow> Inr (claim_json e)))"
  by (auto simp: claim_json_def claim_payload_def Let_def split: sum.splits)

declare state_payload_def [code del] health_payload_def [code del] claim_payload_def [code del]
  health_json_def [code del] claim_json_def [code del]

declare health_code [code] claim_code [code]

section \<open>The run\<close>

definition demo_config :: engine_config where
  "demo_config = DEFAULT_ENGINE_CONFIG\<lparr>cf_instrument_id := ''B'', cf_source_commit := ''c'',
     cf_image_digest := ''i'', cf_trading_mode := ModeText ''PAPER'', cf_latency_ns := 0,
     cf_allow_zero_latency := True\<rparr>"

definition demo_target ::
  "unit \<Rightarrow> market_event \<Rightarrow> strategy_view \<Rightarrow> (target_position option, unit) outcome" where
  "demo_target s event v = (case event of
     Bbo b \<Rightarrow> Ok (Some \<lparr>tp_instrument_id = ''B'', tp_target_quantity = 1 / 100, tp_reason = ''r''\<rparr>) s
   | _ \<Rightarrow> Ok None s)"

definition demo_strategy :: "unit paper_strategy" where
  "demo_strategy = \<lparr>st_strategy_id = \<lambda>_. ''s'', st_configuration_version = \<lambda>_. ''v'',
     st_production_eligible = \<lambda>_. False, st_label = \<lambda>_. ''l'', st_on_market = demo_target\<rparr>"

definition demo_open :: "(nat \<Rightarrow> io_result) \<Rightarrow> (unit engine, string set) outcome" where
  "demo_open io = open_engine demo_config 0 (\<lambda>_. 3600) demo_strategy () io ''r'' {}"

definition demo_bbo :: "int \<Rightarrow> dec \<Rightarrow> dec \<Rightarrow> market_event" where
  "demo_bbo t bid ask = Bbo \<lparr>eb_venue = ''hyperliquid'', eb_instrument_id = ''B'',
      eb_event_time_utc = t div 1000, eb_received_utc_ns = t, eb_source_event_id = ''1'',
      eb_message_ordinal = 0, eb_event_index = 0,
      be_bid_price = Some bid, be_bid_size = Some 1, be_ask_price = Some ask, be_ask_size = Some 2\<rparr>"

text \<open>The disk that fails from its ninth operation on.\<close>

definition demo_disk :: "nat \<Rightarrow> io_result" where
  "demo_disk n = (if n < 8 then Io_Ok else Io_Fail 0)"

lemma demo_trade:
  "case demo_open (\<lambda>_. Io_Ok) of Ok e d \<Rightarrow>
     (case on_event (demo_bbo 1000000 50000 50001) e of Ok u e1 \<Rightarrow>
        position_of e1 = 1 / 100 \<and> en_kill e1 = NONE \<and> en_fill_count e1 = 1 \<and>
        (case on_clock 20000000000 20000000 e1 of Ok u e2 \<Rightarrow> position_of e2 = 1 / 100 \<and> en_kill e2 = FLATTEN_HALT
         | _ \<Rightarrow> False)
      | _ \<Rightarrow> False)
   | _ \<Rightarrow> False"
  by code_simp

lemma demo_stale:
  "case demo_open (\<lambda>_. Io_Ok) of Ok e d \<Rightarrow>
     (case on_clock 20000000000 20000000 e of Ok u e1 \<Rightarrow>
        en_kill e1 = FLATTEN_HALT
        \<and> (case on_clock 21000000000 21000000 e1 of Ok u e2 \<Rightarrow> True | _ \<Rightarrow> False)
      | _ \<Rightarrow> False)
   | _ \<Rightarrow> False"
  by code_simp

lemma demo_broken:
  "case demo_open demo_disk of Ok e d \<Rightarrow>
     (case on_clock 20000000000 20000000 e of Ok u e1 \<Rightarrow> False | Raise ex e1 \<Rightarrow> en_failed e1)
   | _ \<Rightarrow> False"
  by code_simp

lemma demo_age:
  "case demo_open (\<lambda>_. Io_Ok) of Ok e d \<Rightarrow>
     cf_stale_after_ns (en_config e)
       < 20000000000 - (case en_last_data_ns e of None \<Rightarrow> en_created_ns e | Some l \<Rightarrow> l)
   | _ \<Rightarrow> False"
  by code_simp

end
