(* ===== verification/Replay.thy ===== *)
theory Replay
  imports DecimalText Events "HOL-Library.Multiset"
begin

text \<open>
  \<^verbatim>\<open>paper_engine/replay.py\<close>: a Parquet tape read as one ordered list of market events. The file
  system and DuckDB are parameters: the first is a record of the questions the code asks, the
  second a function from a configuration to a connection, and a connection the three result
  sets the code fetches. A fetched value is a \<open>cell\<close>. Proved: the deduplication window holds the
  identities used last and a short tape keeps exactly the first print of each identity; the tape
  is sorted and holds every normalised row; no path can leave its SQL literal.
\<close>

section \<open>Fetched values\<close>

datatype cell = Null | Boolean bool | Integer int | Text string

definition lstrip_minus :: "string \<Rightarrow> string" where
  "lstrip_minus s = dropWhile (\<lambda>c. c = CHR ''-'') s"

definition is_digits :: "string \<Rightarrow> bool" where
  "is_digits s \<longleftrightarrow> s \<noteq> [] \<and> list_all is_digit s"

text \<open>Python's \<open>int(text)\<close> for an optional sign and digits: at most 4300 of them.\<close>

definition py_int :: "string \<Rightarrow> int result" where
  "py_int s =
     (let (neg, ds) = split_sign s
      in if \<not> is_digits ds then Inl (ValueError ''invalid literal for int()'')
         else if 4300 < int (length ds) then Inl (ValueError ''Exceeds the limit for integer string conversion'')
         else Inr (if neg then - int (digits_value ds) else int (digits_value ds)))"

fun require_int :: "cell \<Rightarrow> string \<Rightarrow> int result" where
  "require_int (Integer i) field = Inr i"
| "require_int (Text s) field =
     (if is_digits (lstrip_minus s) then py_int s else Inl (PaperTapeError (field @ '' is not an integer.'')))"
| "require_int _ field = Inl (PaperTapeError (field @ '' is not an integer.''))"

fun require_text :: "cell \<Rightarrow> string \<Rightarrow> string result" where
  "require_text (Text s) field = (if s = [] then Inl (PaperTapeError (field @ '' is missing.'')) else Inr s)"
| "require_text _ field = Inl (PaperTapeError (field @ '' is missing.''))"

definition require_btc_coin :: "cell \<Rightarrow> string result" where
  "require_btc_coin v =
     res_bind (require_text v ''coin'') (\<lambda>coin.
     if coin \<noteq> ''BTC'' then Inl (PaperTapeError ''payload coin does not match the BTC-PERP tape.'')
     else Inr coin)"

definition positive_fields :: "string list" where
  "positive_fields = [''price'', ''size'', ''mark_price'', ''bid_price'', ''ask_price'']"

definition require_decimal :: "string \<Rightarrow> string \<Rightarrow> dec result" where
  "require_decimal s field =
     (case parse_decimal s of
        None \<Rightarrow> Inl (PaperTapeError (field @ '' is not a decimal.''))
      | Some Non_Finite \<Rightarrow> Inl (PaperTapeError (field @ '' must be a finite non-negative decimal.''))
      | Some (Finite x) \<Rightarrow>
          if x < 0 then Inl (PaperTapeError (field @ '' must be a finite non-negative decimal.''))
          else if x = 0 \<and> field \<in> set positive_fields
          then Inl (PaperTapeError (field @ '' must be positive.''))
          else Inr x)"

definition optional_decimal :: "cell \<Rightarrow> string \<Rightarrow> dec option result" where
  "optional_decimal v field =
     (if v = Null \<or> v = Text [] then Inr None
      else res_bind (require_text v field) (\<lambda>s.
           res_bind (require_decimal s field) (\<lambda>x. Inr (Some x))))"

definition aggressor_side :: "string \<Rightarrow> string result" where
  "aggressor_side s =
     (if s = ''B'' then Inr ''BUY'' else if s = ''A'' then Inr ''SELL''
      else Inl (PaperTapeError ''trade side must be Hyperliquid B or A.''))"

definition utc_from_ns :: "int \<Rightarrow> utc result" where
  "utc_from_ns epoch_ns = utc_from_epoch_us (epoch_ns div 1000)"

section \<open>Resources, paths and the SQL relation\<close>

record replay_resources =
  rr_threads :: int
  rr_memory_mib :: int

definition make_replay_resources :: "int \<Rightarrow> int \<Rightarrow> replay_resources result" where
  "make_replay_resources threads memory_mib =
     (if threads \<noteq> 1 then Inl (PaperTapeError ''bounded offline replay requires one DuckDB thread.'')
      else if \<not> (32 \<le> memory_mib \<and> memory_mib \<le> 128)
      then Inl (PaperTapeError ''DuckDB memory_mib must be between 32 and 128.'')
      else Inr \<lparr>rr_threads = threads, rr_memory_mib = memory_mib\<rparr>)"

definition connection_config :: "replay_resources \<Rightarrow> (string \<times> json) list" where
  "connection_config r =
     [(''threads'', JInt (rr_threads r)),
      (''memory_limit'', JText (int_text (rr_memory_mib r) @ ''MiB'')),
      (''max_temp_directory_size'', JText ''0B''),
      (''autoload_known_extensions'', JBool False),
      (''autoinstall_known_extensions'', JBool False)]"

text \<open>A \<open>pathlib.Path\<close> is its \<open>parts\<close>; the root of an absolute path is the part \<open>/\<close>.\<close>

type_synonym path = "string list"

definition path_name :: "path \<Rightarrow> string" where
  "path_name p = (if p = [] \<or> p = [''/''] then '''' else last p)"

text \<open>\<open>Path.suffix\<close>: from the last dot of the name, unless it is the first or last character.\<close>

definition path_suffix :: "path \<Rightarrow> string" where
  "path_suffix p =
     (let name = path_name p; tail = takeWhile (\<lambda>c. c \<noteq> CHR ''.'') (rev name)
      in if tail = [] \<or> length name \<le> length tail + 1 then '''' else CHR ''.'' # rev tail)"

fun as_posix :: "path \<Rightarrow> string" where
  "as_posix [] = ''.''"
| "as_posix (x # p) = (if x = ''/'' then ''/'' @ join ''/'' p else join ''/'' (x # p))"

definition is_hidden :: "path \<Rightarrow> bool" where
  "is_hidden p \<longleftrightarrow> take 1 (path_name p) = ''.''"

record file_system =
  fs_is_dir :: "path \<Rightarrow> bool"
  fs_is_file :: "path \<Rightarrow> bool"
  fs_names :: "path \<Rightarrow> string list"
  fs_resolve :: "path \<Rightarrow> path"

text \<open>\<open>path.glob("*.parquet")\<close>: the entries of a directory whose names end so.\<close>

definition glob_parquet :: "file_system \<Rightarrow> path \<Rightarrow> path list" where
  "glob_parquet fs p =
     map (\<lambda>n. p @ [n]) (filter (\<lambda>n. drop (length n - 8) n = ''.parquet'') (fs_names fs p))"

fun collect_files :: "file_system \<Rightarrow> path list \<Rightarrow> path list \<Rightarrow> path list result" where
  "collect_files fs [] files = Inr files"
| "collect_files fs (p # ps) files =
     (if fs_is_dir fs p
      then collect_files fs ps
        (files @ sort (filter (\<lambda>item. fs_is_file fs item \<and> \<not> is_hidden item) (glob_parquet fs p)))
      else if fs_is_file fs p \<and> path_suffix p = ''.parquet'' \<and> \<not> is_hidden p
      then collect_files fs ps (files @ [fs_resolve fs p])
      else Inl (PaperTapeError (''not a completed parquet part: '' @ as_posix p)))"

definition parquet_files :: "file_system \<Rightarrow> path list \<Rightarrow> path list result" where
  "parquet_files fs paths =
     (if paths = [] then Inl (PaperTapeError ''at least one parquet path is required.'')
      else res_bind (collect_files fs paths []) (\<lambda>files.
        if files = [] then Inl (PaperTapeError ''no completed parquet parts were found.'')
        else Inr files))"

definition sql_string :: "string \<Rightarrow> string result" where
  "sql_string value =
     (if CHR 0x27 \<in> set value \<or> CHR 0x00 \<in> set value
      then Inl (PaperTapeError ''parquet path contains a character that cannot be embedded in SQL.'')
      else Inr value)"

definition read_parquet_sql :: "file_system \<Rightarrow> path list \<Rightarrow> string result" where
  "read_parquet_sql fs files =
     res_bind (traverse (\<lambda>p. sql_string (as_posix (fs_resolve fs p))) files) (\<lambda>texts.
       Inr (''read_parquet(['' @ join '', '' (map (\<lambda>t. [CHR 0x27] @ t @ [CHR 0x27]) texts)
            @ ''], union_by_name = true)''))"

section \<open>Result sets\<close>

record trade_row =
  tr_message_ordinal :: cell
  tr_received_utc_ns :: cell
  tr_event_index :: cell
  tr_side :: cell
  tr_price :: cell
  tr_size :: cell
  tr_event_time_ms :: cell
  tr_trade_id :: cell
  tr_coin :: cell
  tr_hash :: cell
  tr_users :: cell

record bbo_row =
  bw_message_ordinal :: cell
  bw_received_utc_ns :: cell
  bw_event_time_ms :: cell
  bw_bid_price :: cell
  bw_bid_size :: cell
  bw_ask_price :: cell
  bw_ask_size :: cell
  bw_coin :: cell

record mark_row =
  mw_message_ordinal :: cell
  mw_received_utc_ns :: cell
  mw_mark_price :: cell
  mw_coin :: cell

text \<open>The three queries of a connection, by the relation and the product they are run with.\<close>

record connection =
  cn_trades :: "string \<Rightarrow> string \<Rightarrow> trade_row list result"
  cn_bbos :: "string \<Rightarrow> string \<Rightarrow> bbo_row list result"
  cn_marks :: "string \<Rightarrow> string \<Rightarrow> mark_row list result"

section \<open>Trades and their deduplication\<close>

definition TRADE_DEDUP_CAPACITY :: int where
  "TRADE_DEDUP_CAPACITY = 10000"

type_synonym identity = "int \<times> string \<times> string"
type_synonym fingerprint = "string \<times> dec \<times> dec \<times> cell \<times> cell"

record trade_print =
  tp_message_ordinal :: int
  tp_received_utc_ns :: int
  tp_event_index :: int
  tp_side :: string
  tp_price :: dec
  tp_quantity :: dec
  tp_event_time_ms :: int
  tp_trade_id :: string
  tp_coin :: string
  tp_hash :: cell
  tp_users :: cell

definition read_trade_row :: "trade_row \<Rightarrow> trade_print result" where
  "read_trade_row row =
     res_bind (require_int (tr_message_ordinal row) ''message_ordinal'') (\<lambda>message_ordinal.
     res_bind (require_int (tr_received_utc_ns row) ''received_utc_ns'') (\<lambda>received.
     res_bind (require_int (tr_event_index row) ''event_index'') (\<lambda>event_index.
     res_bind (require_text (tr_side row) ''side'') (\<lambda>side_text.
     res_bind (aggressor_side side_text) (\<lambda>sd.
     res_bind (require_text (tr_price row) ''price'') (\<lambda>price_text.
     res_bind (require_decimal price_text ''price'') (\<lambda>price.
     res_bind (require_text (tr_size row) ''size'') (\<lambda>size_text.
     res_bind (require_decimal size_text ''size'') (\<lambda>quantity.
     res_bind (require_int (tr_event_time_ms row) ''event_time_ms'') (\<lambda>event_time_ms.
     res_bind (require_text (tr_trade_id row) ''trade_id'') (\<lambda>trade_id.
     res_bind (require_btc_coin (tr_coin row)) (\<lambda>coin.
     Inr \<lparr>tp_message_ordinal = message_ordinal, tp_received_utc_ns = received,
          tp_event_index = event_index, tp_side = sd, tp_price = price, tp_quantity = quantity,
          tp_event_time_ms = event_time_ms, tp_trade_id = trade_id, tp_coin = coin,
          tp_hash = tr_hash row, tp_users = tr_users row\<rparr>))))))))))))"

definition print_identity :: "trade_print \<Rightarrow> identity" where
  "print_identity p = (tp_event_time_ms p, tp_coin p, tp_trade_id p)"

definition print_fingerprint :: "trade_print \<Rightarrow> fingerprint" where
  "print_fingerprint p = (tp_side p, tp_price p, tp_quantity p, tp_hash p, tp_users p)"

text \<open>The \<open>OrderedDict\<close>: its items, the one used longest ago first.\<close>

type_synonym window = "(identity \<times> fingerprint) list"

definition move_to_end :: "identity \<Rightarrow> window \<Rightarrow> window" where
  "move_to_end k w = filter (\<lambda>kv. fst kv \<noteq> k) w @ filter (\<lambda>kv. fst kv = k) w"

function evict :: "int \<Rightarrow> 'a list \<Rightarrow> 'a list" where
  "evict capacity w = (if w \<noteq> [] \<and> int (length w) > capacity then evict capacity (tl w) else w)"
  by pat_completeness auto
termination by (relation "measure (length \<circ> snd)") auto

declare evict.simps [simp del]

definition print_event :: "string \<Rightarrow> string \<Rightarrow> trade_print \<Rightarrow> trade_event result" where
  "print_event venue instrument_id p =
     res_bind (utc_from_epoch_ms (tp_event_time_ms p)) (\<lambda>event_time.
     make_trade_event
       \<lparr>eb_venue = venue, eb_instrument_id = instrument_id, eb_event_time_utc = event_time,
        eb_received_utc_ns = tp_received_utc_ns p, eb_source_event_id = ''trade-'' @ tp_trade_id p,
        eb_message_ordinal = tp_message_ordinal p, eb_event_index = tp_event_index p\<rparr>
       (tp_price p) (tp_quantity p) (tp_side p))"

definition trade_step ::
  "int \<Rightarrow> string \<Rightarrow> string \<Rightarrow> trade_row \<Rightarrow> window \<times> trade_event list \<Rightarrow> (window \<times> trade_event list) result" where
  "trade_step capacity venue instrument_id row s =
     (case s of (seen, events) \<Rightarrow>
     res_bind (read_trade_row row) (\<lambda>p.
       case map_of seen (print_identity p) of
         Some known \<Rightarrow>
           if known \<noteq> print_fingerprint p
           then Inl (PaperTapeError (''trade id '' @ tp_trade_id p @ '' appears with different prints.''))
           else Inr (move_to_end (print_identity p) seen, events)
       | None \<Rightarrow>
           let seen = evict capacity (seen @ [(print_identity p, print_fingerprint p)])
           in res_bind (print_event venue instrument_id p) (\<lambda>event. Inr (seen, events @ [event]))))"

fun trade_loop ::
  "int \<Rightarrow> string \<Rightarrow> string \<Rightarrow> trade_row list \<Rightarrow> window \<times> trade_event list \<Rightarrow> (window \<times> trade_event list) result" where
  "trade_loop capacity venue instrument_id [] s = Inr s"
| "trade_loop capacity venue instrument_id (row # rows) s =
     res_bind (trade_step capacity venue instrument_id row s) (trade_loop capacity venue instrument_id rows)"

definition load_trades :: "connection \<Rightarrow> string \<Rightarrow> string \<Rightarrow> string \<Rightarrow> string \<Rightarrow> trade_event list result" where
  "load_trades c relation instrument_id venue product =
     res_bind (cn_trades c relation product) (\<lambda>rows.
     res_bind (trade_loop TRADE_DEDUP_CAPACITY venue instrument_id rows ([], [])) (\<lambda>(seen, events). Inr events))"

section \<open>Books and marks\<close>

definition bbo_row_event :: "string \<Rightarrow> string \<Rightarrow> bbo_row \<Rightarrow> bbo_event result" where
  "bbo_row_event venue instrument_id row =
     res_bind (require_btc_coin (bw_coin row)) (\<lambda>_.
     res_bind (require_int (bw_message_ordinal row) ''message_ordinal'') (\<lambda>message_ordinal.
     res_bind (require_int (bw_received_utc_ns row) ''received_utc_ns'') (\<lambda>received.
     res_bind (require_int (bw_event_time_ms row) ''event_time_ms'') (\<lambda>event_time_ms.
     res_bind (utc_from_epoch_ms event_time_ms) (\<lambda>event_time.
     res_bind (optional_decimal (bw_bid_price row) ''bid_price'') (\<lambda>bid_price.
     res_bind (optional_decimal (bw_bid_size row) ''bid_size'') (\<lambda>bid_size.
     res_bind (optional_decimal (bw_ask_price row) ''ask_price'') (\<lambda>ask_price.
     res_bind (optional_decimal (bw_ask_size row) ''ask_size'') (\<lambda>ask_size.
     make_bbo_event
       \<lparr>eb_venue = venue, eb_instrument_id = instrument_id, eb_event_time_utc = event_time,
        eb_received_utc_ns = received, eb_source_event_id = ''bbo-'' @ int_text message_ordinal,
        eb_message_ordinal = message_ordinal, eb_event_index = 0\<rparr>
       bid_price bid_size ask_price ask_size)))))))))"

definition load_bbos :: "connection \<Rightarrow> string \<Rightarrow> string \<Rightarrow> string \<Rightarrow> string \<Rightarrow> bbo_event list result" where
  "load_bbos c relation instrument_id venue product =
     res_bind (cn_bbos c relation product) (traverse (bbo_row_event venue instrument_id))"

text \<open>A row whose mark is missing is checked and skipped.\<close>

definition mark_row_event :: "string \<Rightarrow> string \<Rightarrow> mark_row \<Rightarrow> mark_event option result" where
  "mark_row_event venue instrument_id row =
     res_bind (require_btc_coin (mw_coin row)) (\<lambda>_.
     res_bind (require_int (mw_message_ordinal row) ''message_ordinal'') (\<lambda>message_ordinal.
     res_bind (require_int (mw_received_utc_ns row) ''received_utc_ns'') (\<lambda>received.
     if mw_mark_price row = Null \<or> mw_mark_price row = Text [] then Inr None
     else
       res_bind (utc_from_ns received) (\<lambda>event_time.
       res_bind (require_text (mw_mark_price row) ''mark_price'') (\<lambda>mark_text.
       res_bind (require_decimal mark_text ''mark_price'') (\<lambda>mark.
       res_bind (make_mark_event
         \<lparr>eb_venue = venue, eb_instrument_id = instrument_id, eb_event_time_utc = event_time,
          eb_received_utc_ns = received, eb_source_event_id = ''mark-'' @ int_text message_ordinal,
          eb_message_ordinal = message_ordinal, eb_event_index = 0\<rparr> (Some mark))
         (\<lambda>event. Inr (Some event))))))))"

definition load_marks :: "connection \<Rightarrow> string \<Rightarrow> string \<Rightarrow> string \<Rightarrow> string \<Rightarrow> mark_event list result" where
  "load_marks c relation instrument_id venue product =
     res_bind (cn_marks c relation product) (\<lambda>rows.
     res_bind (traverse (mark_row_event venue instrument_id) rows) (\<lambda>events.
     Inr (List.map_filter id events)))"

section \<open>The tape\<close>

definition load_hyperliquid_parquet_tape ::
  "file_system \<Rightarrow> ((string \<times> json) list option \<Rightarrow> connection result) \<Rightarrow> path list \<Rightarrow> string \<Rightarrow> string
    \<Rightarrow> string \<Rightarrow> replay_resources option \<Rightarrow> market_event list result" where
  "load_hyperliquid_parquet_tape fs connect parquet_paths instrument_id venue product resources =
     res_bind (parquet_files fs parquet_paths) (\<lambda>files.
     if instrument_id = [] then Inl (PaperTapeError ''instrument_id must be non-empty text.'')
     else if venue \<noteq> ''hyperliquid'' \<or> product \<noteq> ''BTC-PERP''
     then Inl (PaperTapeError ''this replay reader is the Hyperliquid BTC-PERP raw tape.'')
     else
       res_bind (read_parquet_sql fs files) (\<lambda>relation.
       res_bind (connect (map_option connection_config resources)) (\<lambda>c.
       res_bind (load_trades c relation instrument_id venue product) (\<lambda>trades.
       res_bind (load_bbos c relation instrument_id venue product) (\<lambda>bbos.
       res_bind (load_marks c relation instrument_id venue product) (\<lambda>marks.
       let events = map Trade trades @ map Bbo bbos @ map Mark marks
       in if events = [] then Inl (PaperTapeError ''parquet tape produced no trades, bbo, or mark events.'')
          else Inr (sort_key event_sort_key events)))))))"

section \<open>The deduplication window\<close>

text \<open>The identities used last, oldest first: what a window of the capacity should hold.\<close>

definition recent :: "int \<Rightarrow> 'a list \<Rightarrow> 'a list" where
  "recent capacity ids = (let r = remdups ids in drop (length r - nat capacity) r)"

text \<open>The prints a replay keeps, by the identities seen before each.\<close>

fun kept :: "int \<Rightarrow> identity list \<Rightarrow> trade_print list \<Rightarrow> trade_print list" where
  "kept capacity ids [] = []"
| "kept capacity ids (p # ps) =
     (if print_identity p \<in> set (recent capacity ids) then [] else [p])
     @ kept capacity (ids @ [print_identity p]) ps"

lemma evict_drop: "0 \<le> capacity \<Longrightarrow> evict capacity w = drop (length w - nat capacity) w"
proof (induction capacity w rule: evict.induct)
  case (1 capacity w)
  show ?case
  proof (cases "w \<noteq> [] \<and> int (length w) > capacity")
    case True
    then have "evict capacity w = drop (length (tl w) - nat capacity) (tl w)"
      using 1 by (simp add: evict.simps [of capacity w])
    also have "\<dots> = drop (Suc (length (tl w) - nat capacity)) w" by (simp add: drop_Suc)
    also have "Suc (length (tl w) - nat capacity) = length w - nat capacity"
      using True 1(2) by (cases w) auto
    finally show ?thesis .
  next
    case False
    with 1(2) have "length w - nat capacity = 0" by (cases "w = []") auto
    moreover have "evict capacity w = w" unfolding evict.simps [of capacity w] by (simp only: False if_False)
    ultimately show ?thesis by simp
  qed
qed

lemma remdups_snoc: "remdups (xs @ [x]) = filter (\<lambda>y. y \<noteq> x) (remdups xs) @ [x]"
  by (induction xs) auto

lemma filter_neq_id: "x \<notin> set xs \<Longrightarrow> filter (\<lambda>y. y \<noteq> x) xs = xs"
  by (rule filter_id_conv [THEN iffD2]) auto

lemma filter_neq_length:
  "distinct xs \<Longrightarrow> x \<in> set xs \<Longrightarrow> Suc (length (filter (\<lambda>y. y \<noteq> x) xs)) = length xs"
  by (induction xs) (auto simp: filter_neq_id)

lemma recent_hit:
  assumes "x \<in> set (recent capacity ids)"
  shows "recent capacity (ids @ [x]) = filter (\<lambda>y. y \<noteq> x) (recent capacity ids) @ [x]"
proof -
  define r where "r = remdups ids"
  define d where "d = length r - nat capacity"
  have dist: "distinct (take d r @ drop d r)" by (simp add: r_def)
  have x: "x \<in> set (drop d r)" using assms by (simp add: recent_def Let_def r_def d_def)
  then have nx: "x \<notin> set (take d r)" using dist unfolding distinct_append by blast
  have "filter (\<lambda>y. y \<noteq> x) r = filter (\<lambda>y. y \<noteq> x) (take d r @ drop d r)" by simp
  also have "\<dots> = take d r @ filter (\<lambda>y. y \<noteq> x) (drop d r)"
    unfolding filter_append filter_neq_id [OF nx] ..
  finally have f: "filter (\<lambda>y. y \<noteq> x) r = take d r @ filter (\<lambda>y. y \<noteq> x) (drop d r)" .
  have "x \<in> set r" using x by (rule in_set_dropD)
  then have len: "Suc (length (filter (\<lambda>y. y \<noteq> x) r)) = length r"
    by (intro filter_neq_length) (simp_all add: r_def)
  have new: "remdups (ids @ [x]) = (take d r @ filter (\<lambda>y. y \<noteq> x) (drop d r)) @ [x]"
    by (simp only: remdups_snoc r_def [symmetric] f)
  have "length (remdups (ids @ [x])) = length r"
    using len by (simp only: remdups_snoc r_def [symmetric] length_append list.size)
  moreover have "length (take d r) = d" by (simp add: d_def)
  ultimately show ?thesis
    unfolding recent_def Let_def new r_def [symmetric] d_def [symmetric]
    by (simp add: d_def)
qed

lemma recent_miss:
  assumes "x \<notin> set (recent capacity ids)" and "0 \<le> capacity"
  shows "recent capacity (ids @ [x]) = evict capacity (recent capacity ids @ [x])"
proof -
  define r where "r = remdups ids"
  define d where "d = length r - nat capacity"
  have rec: "recent capacity ids = drop d r" by (simp add: recent_def Let_def r_def d_def)
  have nx: "x \<notin> set (drop d r)" using assms(1) unfolding rec .
  have step: "evict capacity (drop d r @ [x]) = drop (length (drop d r @ [x]) - nat capacity) (drop d r @ [x])"
    by (rule evict_drop [OF assms(2)])
  show ?thesis
  proof (cases "x \<in> set r")
    case False
    then have "remdups (ids @ [x]) = r @ [x]"
      by (simp add: remdups_snoc filter_neq_id flip: r_def)
    then show ?thesis
      unfolding rec step by (cases "length r \<le> nat capacity") (auto simp: recent_def Let_def d_def Suc_diff_le)
  next
    case True
    then have tk: "x \<in> set (take d r)" using nx by (metis Un_iff append_take_drop_id set_append)
    have dist: "distinct r" by (simp add: r_def)
    have "filter (\<lambda>y. y \<noteq> x) (take d r @ drop d r) = filter (\<lambda>y. y \<noteq> x) (take d r) @ drop d r"
      unfolding filter_append filter_neq_id [OF nx] ..
    then have f: "filter (\<lambda>y. y \<noteq> x) r = filter (\<lambda>y. y \<noteq> x) (take d r) @ drop d r" by simp
    have len: "Suc (length (filter (\<lambda>y. y \<noteq> x) (take d r))) = d"
      using filter_neq_length [OF _ tk] dist by (simp add: d_def)
    have new: "remdups (ids @ [x]) = filter (\<lambda>y. y \<noteq> x) (take d r) @ drop d r @ [x]"
      by (simp only: remdups_snoc r_def [symmetric] f append_assoc)
    have total: "length (remdups (ids @ [x])) = length r"
      unfolding new using len by (simp add: d_def)
    have "0 < d" using len by linarith
    then have "length (drop d r) = nat capacity" by (simp add: d_def)
    then have "evict capacity (drop d r @ [x]) = drop 1 (drop d r @ [x])" unfolding step by simp
    moreover have "recent capacity (ids @ [x]) = drop d (remdups (ids @ [x]))"
      by (simp add: recent_def Let_def total d_def)
    moreover have "drop d (remdups (ids @ [x])) = drop 1 (drop d r @ [x])"
    proof -
      have "d = length (filter (\<lambda>y. y \<noteq> x) (take d r)) + 1" using len by simp
      then have "drop d (remdups (ids @ [x]))
          = drop (length (filter (\<lambda>y. y \<noteq> x) (take d r)) + 1) (filter (\<lambda>y. y \<noteq> x) (take d r) @ drop d r @ [x])"
        unfolding new by simp
      also have "\<dots> = drop 1 (drop d r @ [x])" by (simp only: drop_append) simp
      finally show ?thesis .
    qed
    ultimately show ?thesis unfolding rec by simp
  qed
qed

text \<open>One step on a row that reads as \<open>p\<close>, and the whole loop.\<close>

definition window_ids :: "window \<times> 'a \<Rightarrow> identity list" where
  "window_ids s = map fst (fst s)"

lemma map_of_None_iff: "map_of w k = None \<longleftrightarrow> k \<notin> set (map fst w)"
  by (simp add: map_of_eq_None_iff)

lemma move_to_end_ids:
  assumes "map_of w k = Some v" and "distinct (map fst w)"
  shows "map fst (move_to_end k w) = filter (\<lambda>y. y \<noteq> k) (map fst w) @ [k]"
    and "map_of (move_to_end k w) = map_of w"
proof -
  have hit: "filter (\<lambda>kv. fst kv = k) w = [(k, v)]"
    using assms
  proof (induction w)
    case (Cons kv w)
    show ?case
    proof (cases "fst kv = k")
      case True
      with Cons.prems have "k \<notin> fst ` set w" "kv = (k, v)" by (auto simp: prod_eq_iff)
      then have "filter (\<lambda>kv. fst kv = k) w = []" by (auto simp: filter_empty_conv)
      with True \<open>kv = (k, v)\<close> show ?thesis by simp
    next
      case False
      with Cons show ?thesis by (cases kv) simp
    qed
  qed simp
  show "map fst (move_to_end k w) = filter (\<lambda>y. y \<noteq> k) (map fst w) @ [k]"
    by (simp add: move_to_end_def hit filter_map comp_def)
  have "map_of (filter (\<lambda>kv. fst kv \<noteq> k) w) j = (if j = k then None else map_of w j)" for j
    by (induction w) auto
  then show "map_of (move_to_end k w) = map_of w"
    using assms(1) by (auto simp: move_to_end_def hit map_add_def fun_eq_iff split: option.splits)
qed

definition window_ok :: "int \<Rightarrow> identity list \<Rightarrow> window \<Rightarrow> bool" where
  "window_ok capacity ids w \<longleftrightarrow> map fst w = recent capacity ids"

lemma recent_distinct: "distinct (recent capacity ids)"
  by (simp add: recent_def Let_def)

lemma evict_map: "0 \<le> capacity \<Longrightarrow> map f (evict capacity w) = evict capacity (map f w)"
  by (simp add: evict_drop drop_map)

lemma trade_step_ok:
  assumes "trade_step capacity venue instrument_id row (w, events) = Inr (w', events')"
    and "window_ok capacity ids w" and "0 \<le> capacity"
  obtains p where "read_trade_row row = Inr p"
    "window_ok capacity (ids @ [print_identity p]) w'"
    "if print_identity p \<in> set (recent capacity ids) then events' = events
     else \<exists>event. print_event venue instrument_id p = Inr event \<and> events' = events @ [event]"
proof -
  from assms(1) obtain p where p: "read_trade_row row = Inr p"
    by (auto simp: trade_step_def res_bind_Inr_iff)
  define k where "k = print_identity p"
  have keys: "map fst w = recent capacity ids" using assms(2) by (simp add: window_ok_def)
  show ?thesis
  proof (cases "map_of w k")
    case None
    then have miss: "k \<notin> set (recent capacity ids)" by (simp add: map_of_None_iff keys)
    from None p assms(1) obtain event where event: "print_event venue instrument_id p = Inr event"
      "events' = events @ [event]" "w' = evict capacity (w @ [(k, print_fingerprint p)])"
      by (auto simp: trade_step_def k_def Let_def res_bind_Inr_iff)
    show ?thesis
    proof (rule that [OF p])
      show "window_ok capacity (ids @ [print_identity p]) w'"
        using recent_miss [OF miss assms(3)] assms(3) keys
        by (simp add: window_ok_def event(3) evict_map flip: k_def)
      show "if print_identity p \<in> set (recent capacity ids) then events' = events
        else \<exists>event. print_event venue instrument_id p = Inr event \<and> events' = events @ [event]"
        using miss event by (simp flip: k_def)
    qed
  next
    case (Some known)
    then have hit: "k \<in> set (recent capacity ids)"
      unfolding keys [symmetric] by (metis map_of_None_iff option.distinct(1))
    from Some p assms(1) have new: "events' = events" "w' = move_to_end k w"
      by (auto simp: trade_step_def k_def Let_def split: if_splits)
    show ?thesis
    proof (rule that [OF p])
      show "window_ok capacity (ids @ [print_identity p]) w'"
        using move_to_end_ids(1) [OF Some] recent_hit [OF hit] recent_distinct [of capacity ids]
        by (simp add: window_ok_def new(2) keys flip: k_def)
      show "if print_identity p \<in> set (recent capacity ids) then events' = events
        else \<exists>event. print_event venue instrument_id p = Inr event \<and> events' = events @ [event]"
        using hit new by (simp flip: k_def)
    qed
  qed
qed

lemma trade_loop_kept:
  assumes "trade_loop capacity venue instrument_id rows (w, events) = Inr (w', events')"
    and "window_ok capacity ids w" and "0 \<le> capacity"
  shows "\<exists>ps new. traverse read_trade_row rows = Inr ps \<and> events' = events @ new
    \<and> traverse (print_event venue instrument_id) (kept capacity ids ps) = Inr new
    \<and> window_ok capacity (ids @ map print_identity ps) w'"
  using assms
proof (induction rows arbitrary: w events ids)
  case (Cons row rows)
  from Cons.prems(1) obtain w1 events1
    where step: "trade_step capacity venue instrument_id row (w, events) = Inr (w1, events1)"
      and rest: "trade_loop capacity venue instrument_id rows (w1, events1) = Inr (w', events')"
    by (auto simp: res_bind_Inr_iff)
  from trade_step_ok [OF step Cons.prems(2,3)] obtain p where p: "read_trade_row row = Inr p"
    and w1: "window_ok capacity (ids @ [print_identity p]) w1"
    and ev: "if print_identity p \<in> set (recent capacity ids) then events1 = events
     else \<exists>event. print_event venue instrument_id p = Inr event \<and> events1 = events @ [event]" .
  from Cons.IH [OF rest w1 Cons.prems(3)] obtain ps new
    where "traverse read_trade_row rows = Inr ps" "events' = events1 @ new"
      "traverse (print_event venue instrument_id) (kept capacity (ids @ [print_identity p]) ps) = Inr new"
      "window_ok capacity ((ids @ [print_identity p]) @ map print_identity ps) w'" by blast
  then show ?case
    using p ev
    by (intro exI [of _ "p # ps"] exI [of _ "drop (length events) events'"]) (auto split: if_splits)
qed simp

text \<open>
  C25: The deduplication window of a returned tape is exact: after any rows it holds the identities
  used last, at most the capacity of them, and the tape keeps, in order, the prints whose identity
  the window did not hold when they came.
\<close>

theorem trade_loop_refines_window:
  assumes "trade_loop TRADE_DEDUP_CAPACITY venue instrument_id rows ([], []) = Inr (seen, events)"
  shows "\<exists>ps. traverse read_trade_row rows = Inr ps
    \<and> map fst seen = recent TRADE_DEDUP_CAPACITY (map print_identity ps)
    \<and> traverse (print_event venue instrument_id) (kept TRADE_DEDUP_CAPACITY [] ps) = Inr events"
proof -
  have "window_ok TRADE_DEDUP_CAPACITY [] []" by (simp add: window_ok_def recent_def)
  from trade_loop_kept [OF assms this] show ?thesis by (auto simp: TRADE_DEDUP_CAPACITY_def window_ok_def)
qed

text \<open>With no more identities than the capacity nothing is evicted: the window forgets nothing.\<close>

lemma recent_all:
  "int (length (remdups ids)) \<le> capacity \<Longrightarrow> recent capacity ids = remdups ids"
  by (simp add: recent_def Let_def)

fun first_prints :: "identity set \<Rightarrow> trade_print list \<Rightarrow> trade_print list" where
  "first_prints done [] = []"
| "first_prints done (p # ps) =
     (if print_identity p \<in> done then first_prints done ps
      else p # first_prints (insert (print_identity p) done) ps)"

lemma card_remdups_mono: "length (remdups xs) \<le> length (remdups (xs @ ys))"
  by (simp add: length_remdups_card_conv card_mono)

lemma kept_first_prints:
  "int (length (remdups (ids @ map print_identity ps))) \<le> capacity \<Longrightarrow>
   kept capacity ids ps = first_prints (set ids) ps"
proof (induction ps arbitrary: ids)
  case (Cons p ps)
  have "int (length (remdups ids)) \<le> capacity"
    using Cons.prems card_remdups_mono [of ids "map print_identity (p # ps)"] by linarith
  then have "set (recent capacity ids) = set ids" by (simp add: recent_all)
  moreover have "kept capacity (ids @ [print_identity p]) ps = first_prints (insert (print_identity p) (set ids)) ps"
    using Cons.IH [of "ids @ [print_identity p]"] Cons.prems by simp
  ultimately show ?case by (auto simp: insert_absorb)
qed simp

text \<open>One print per identity: among the rows of a window that forgets nothing, equal identities
  have equal fingerprints.\<close>

definition window_prints :: "trade_print list \<Rightarrow> window \<Rightarrow> bool" where
  "window_prints ps w \<longleftrightarrow> distinct (map fst w)
     \<and> (\<forall>p \<in> set ps. map_of w (print_identity p) = Some (print_fingerprint p))"

lemma trade_loop_prints:
  assumes "trade_loop capacity venue instrument_id rows (w, events) = Inr (w', events')"
    and "traverse read_trade_row rows = Inr ps"
    and "window_prints before w" and "set (map fst w) = set (map print_identity before)"
    and "int (card (set (map print_identity (before @ ps)))) \<le> capacity"
  shows "window_prints (before @ ps) w'"
  using assms
proof (induction rows arbitrary: w events before ps)
  case (Cons row rows)
  from Cons.prems(2) obtain p qs where p: "read_trade_row row = Inr p" "traverse read_trade_row rows = Inr qs"
    "ps = p # qs" by (auto simp: res_bind_Inr_iff)
  define k where "k = print_identity p"
  from Cons.prems(1) obtain w1 events1
    where step: "trade_step capacity venue instrument_id row (w, events) = Inr (w1, events1)"
      and rest: "trade_loop capacity venue instrument_id rows (w1, events1) = Inr (w', events')"
    by (auto simp: res_bind_Inr_iff)
  have dist: "distinct (map fst w)" using Cons.prems(3) by (simp add: window_prints_def)
  have "window_prints (before @ [p]) w1 \<and> set (map fst w1) = set (map print_identity (before @ [p]))"
  proof (cases "map_of w k")
    case None
    then have k: "k \<notin> set (map fst w)" using None by (simp add: map_of_eq_None_iff)
    let ?w = "w @ [(k, print_fingerprint p)]"
    have "length ?w = card (set (map fst ?w))" using dist k distinct_card [of "map fst ?w"] by simp
    also have "\<dots> \<le> card (set (map print_identity (before @ ps)))"
      using Cons.prems(4) by (intro card_mono) (auto simp: k_def p(3))
    finally have "int (length ?w) \<le> capacity" using Cons.prems(5) by linarith
    then have "evict capacity ?w = ?w" unfolding evict.simps [of capacity ?w] by simp
    then have w1: "w1 = ?w" using step p(1) None by (auto simp: trade_step_def k_def Let_def res_bind_Inr_iff)
    have "map_of ?w (print_identity q) = Some (print_fingerprint q)" if "q \<in> set (before @ [p])" for q
      using that Cons.prems(3) None k by (auto simp: window_prints_def k_def map_add_Some_iff)
    then show ?thesis using dist k Cons.prems(4) by (auto simp: w1 window_prints_def k_def)
  next
    case (Some known)
    then have eq: "known = print_fingerprint p" and w1: "w1 = move_to_end k w"
      using step p(1) by (auto simp: trade_step_def k_def split: if_splits)
    have "k \<in> set (map fst w)" using Some by (metis map_of_None_iff option.distinct(1))
    then show ?thesis
      using Cons.prems(3,4) Some dist move_to_end_ids [OF Some dist]
      by (auto simp: w1 window_prints_def k_def eq)
  qed
  from Cons.IH [OF rest p(2) this [THEN conjunct1] this [THEN conjunct2]] Cons.prems(5)
  show ?case by (simp add: p(3))
qed simp

text \<open>
  C24: A tape of at most 10,000 trade identities keeps exactly the first print of each, and is
  returned only when every later print of an identity is equal to the first.
\<close>

theorem short_tape_first_prints:
  assumes "trade_loop TRADE_DEDUP_CAPACITY venue instrument_id rows ([], []) = Inr (seen, events)"
    and "traverse read_trade_row rows = Inr ps"
    and "card (print_identity ` set ps) \<le> 10000"
  shows "traverse (print_event venue instrument_id) (first_prints {} ps) = Inr events
    \<and> (\<forall>p \<in> set ps. \<forall>q \<in> set ps. print_identity p = print_identity q \<longrightarrow>
          print_fingerprint p = print_fingerprint q)"
proof
  have start: "window_ok TRADE_DEDUP_CAPACITY [] []" "window_prints [] []"
    by (simp_all add: window_ok_def recent_def window_prints_def)
  have cap: "int (length (remdups ([] @ map print_identity ps))) \<le> TRADE_DEDUP_CAPACITY"
    using assms(3) by (simp add: TRADE_DEDUP_CAPACITY_def length_remdups_card_conv)
  from trade_loop_kept [OF assms(1) start(1)] assms(2)
  show "traverse (print_event venue instrument_id) (first_prints {} ps) = Inr events"
    using kept_first_prints [OF cap] by (auto simp: TRADE_DEDUP_CAPACITY_def)
  have "window_prints ([] @ ps) seen"
    using cap by (intro trade_loop_prints [OF assms(1,2) start(2)]) (simp_all add: length_remdups_card_conv)
  then show "\<forall>p \<in> set ps. \<forall>q \<in> set ps. print_identity p = print_identity q \<longrightarrow>
      print_fingerprint p = print_fingerprint q"
    unfolding window_prints_def by (metis append_Nil option.inject)
qed

definition example_row :: "int \<Rightarrow> string \<Rightarrow> string \<Rightarrow> trade_row" where
  "example_row received tid price =
     \<lparr>tr_message_ordinal = Integer received, tr_received_utc_ns = Integer (1000 * received),
      tr_event_index = Integer 0, tr_side = Text ''B'', tr_price = Text price, tr_size = Text ''0.5'',
      tr_event_time_ms = Text ''17'', tr_trade_id = Text tid, tr_coin = Text ''BTC'',
      tr_hash = Text ''0xab'', tr_users = Null\<rparr>"

text \<open>A reconnect re-sends the first print.\<close>

definition example_rows :: "trade_row list" where
  "example_rows = [example_row 1 ''a'' ''50000'', example_row 2 ''b'' ''50001'', example_row 3 ''a'' ''50000.0'']"

lemma example_loop:
  obtains seen events ps where
    "trade_loop TRADE_DEDUP_CAPACITY ''hyperliquid'' ''BTC-PERP'' example_rows ([], []) = Inr (seen, events)"
    "traverse read_trade_row example_rows = Inr ps" "length events = 2" "length ps = 3"
    "card (print_identity ` set ps) \<le> 10000"
proof -
  let ?loop = "trade_loop TRADE_DEDUP_CAPACITY ''hyperliquid'' ''BTC-PERP'' example_rows ([], [])"
  let ?ps = "traverse read_trade_row example_rows"
  have "\<not> isl ?loop" "length (snd (projr ?loop)) = 2" "\<not> isl ?ps" "length (projr ?ps) = 3"
    by code_simp+
  then obtain seen events ps where r: "?loop = Inr (seen, events)" "length events = 2"
      "?ps = Inr ps" "length ps = 3"
    by (metis prod.collapse sum.collapse(2))
  have "card (print_identity ` set ps) \<le> length ps"
    using card_image_le [of "set ps" print_identity] card_length [of ps] by simp
  with r(4) have "card (print_identity ` set ps) \<le> 10000" by linarith
  with r show ?thesis by (intro that)
qed

theorem trade_loop_refines_window_witness:
  "\<exists>(seen :: window) events ps. length events = 2 \<and> traverse read_trade_row example_rows = Inr ps
     \<and> map fst seen = recent TRADE_DEDUP_CAPACITY (map print_identity ps)
     \<and> traverse (print_event ''hyperliquid'' ''BTC-PERP'') (kept TRADE_DEDUP_CAPACITY [] ps) = Inr events"
proof (rule example_loop)
  fix seen events ps
  assume "trade_loop TRADE_DEDUP_CAPACITY ''hyperliquid'' ''BTC-PERP'' example_rows ([], []) = Inr (seen, events)"
    and n: "length events = 2"
  from trade_loop_refines_window [OF this(1)] n show ?thesis by blast
qed

theorem short_tape_first_prints_witness:
  "\<exists>events ps. length ps = 3 \<and> length events = 2
     \<and> traverse (print_event ''hyperliquid'' ''BTC-PERP'') (first_prints {} ps) = Inr events"
proof (rule example_loop)
  fix seen events ps
  assume "trade_loop TRADE_DEDUP_CAPACITY ''hyperliquid'' ''BTC-PERP'' example_rows ([], []) = Inr (seen, events)"
    and "traverse read_trade_row example_rows = Inr ps" and "card (print_identity ` set ps) \<le> 10000"
    and n: "length events = 2" "length ps = 3"
  from short_tape_first_prints [OF this(1-3)] n show ?thesis by blast
qed

section \<open>The tape is ordered and valid\<close>

definition tape_row_ok :: "string \<Rightarrow> string \<Rightarrow> event_base \<Rightarrow> bool" where
  "tape_row_ok venue instrument_id b \<longleftrightarrow> eb_venue b = venue \<and> eb_instrument_id b = instrument_id
     \<and> 0 \<le> eb_received_utc_ns b \<and> 0 \<le> eb_message_ordinal b \<and> 0 \<le> eb_event_index b"

fun tape_event_ok :: "string \<Rightarrow> string \<Rightarrow> market_event \<Rightarrow> bool" where
  "tape_event_ok venue instrument_id (Trade t) \<longleftrightarrow>
     tape_row_ok venue instrument_id (event_base.truncate t) \<and> 0 < te_price t \<and> 0 < te_quantity t"
| "tape_event_ok venue instrument_id (Bbo b) \<longleftrightarrow>
     tape_row_ok venue instrument_id (event_base.truncate b)
     \<and> (\<forall>x \<in> set_option (be_bid_price b) \<union> set_option (be_ask_price b). 0 < x)
     \<and> (\<forall>x \<in> set_option (be_bid_size b) \<union> set_option (be_ask_size b). 0 \<le> x)"
| "tape_event_ok venue instrument_id (Mark m) \<longleftrightarrow>
     tape_row_ok venue instrument_id (event_base.truncate m) \<and> (\<exists>x. me_mark_price m = Some x \<and> 0 < x)"
| "tape_event_ok venue instrument_id (Bar b) \<longleftrightarrow> False"

lemma check_optional_decimal_pos:
  "check_optional_decimal v field True = Inr u \<longleftrightarrow> (\<forall>x \<in> set_option v. 0 < x)"
  "check_optional_decimal v field False = Inr u \<longleftrightarrow> (\<forall>x \<in> set_option v. 0 \<le> x)"
  by (cases v; simp add: check_optional_decimal_def not_le not_less)+

lemma market_event_base_Inr:
  "market_event_base b = Inr b' \<longleftrightarrow> b' = b \<and> eb_venue b \<noteq> [] \<and> eb_venue b = strip (eb_venue b)
     \<and> eb_instrument_id b \<noteq> [] \<and> eb_instrument_id b = strip (eb_instrument_id b) \<and> 0 \<le> eb_received_utc_ns b
     \<and> eb_source_event_id b \<noteq> [] \<and> eb_source_event_id b = strip (eb_source_event_id b)
     \<and> 0 \<le> eb_message_ordinal b \<and> 0 \<le> eb_event_index b"
  by (auto simp: market_event_base_def res_bind_Inr_iff require_event_text_def require_ns_def)

lemmas event_makers = make_trade_event_def make_bbo_event_def make_mark_event_def res_bind_Inr_iff
  market_event_base_Inr check_optional_decimal_pos event_base.extend_def event_base.truncate_def
  trade_event.fields_def bbo_event.fields_def mark_event.fields_def tape_row_ok_def

lemma print_event_ok:
  "print_event venue instrument_id p = Inr t \<Longrightarrow> tape_event_ok venue instrument_id (Trade t)"
  by (auto simp: print_event_def event_makers split: option.splits)

lemma bbo_row_event_ok:
  "bbo_row_event venue instrument_id row = Inr b \<Longrightarrow> tape_event_ok venue instrument_id (Bbo b)"
  by (auto simp: bbo_row_event_def event_makers)

lemma mark_row_event_ok:
  "mark_row_event venue instrument_id row = Inr (Some m) \<Longrightarrow> tape_event_ok venue instrument_id (Mark m)"
  by (auto simp: mark_row_event_def event_makers split: if_splits)

lemma traverse_all:
  "traverse f xs = Inr ys \<Longrightarrow> (\<And>x y. f x = Inr y \<Longrightarrow> P y) \<Longrightarrow> y \<in> set ys \<Longrightarrow> P y"
  unfolding traverse_Inr_iff by (auto simp: list_all2_conv_all_nth in_set_conv_nth)

lemma load_trades_ok:
  assumes "load_trades c relation instrument_id venue product = Inr ts" and "t \<in> set ts"
  shows "tape_event_ok venue instrument_id (Trade t)"
proof -
  from assms(1) obtain rows seen
    where "trade_loop TRADE_DEDUP_CAPACITY venue instrument_id rows ([], []) = Inr (seen, ts)"
    by (auto simp: load_trades_def res_bind_Inr_iff)
  moreover have "window_ok TRADE_DEDUP_CAPACITY [] []" by (simp add: window_ok_def recent_def)
  ultimately obtain ps where "traverse (print_event venue instrument_id) ps = Inr ts"
    by (auto dest!: trade_loop_kept simp: TRADE_DEDUP_CAPACITY_def)
  from traverse_all [OF this, where P = "\<lambda>t. tape_event_ok venue instrument_id (Trade t)"] assms(2)
  show ?thesis using print_event_ok by blast
qed

lemma load_bbos_ok:
  "load_bbos c relation instrument_id venue product = Inr bs \<Longrightarrow> b \<in> set bs \<Longrightarrow>
   tape_event_ok venue instrument_id (Bbo b)"
  using traverse_all [of "bbo_row_event venue instrument_id" _ bs "\<lambda>b. tape_event_ok venue instrument_id (Bbo b)"]
    bbo_row_event_ok by (auto simp: load_bbos_def res_bind_Inr_iff)

lemma load_marks_ok:
  assumes "load_marks c relation instrument_id venue product = Inr ms" and "m \<in> set ms"
  shows "tape_event_ok venue instrument_id (Mark m)"
proof -
  from assms obtain rows os where os: "traverse (mark_row_event venue instrument_id) rows = Inr os"
    and ms: "ms = List.map_filter id os" by (auto simp: load_marks_def res_bind_Inr_iff)
  have "\<forall>m. o' = Some m \<longrightarrow> tape_event_ok venue instrument_id (Mark m)" if "o' \<in> set os" for o'
    by (rule traverse_all [OF os _ that]) (use mark_row_event_ok in blast)
  moreover have "Some m \<in> set os" using assms(2) by (auto simp: ms List.map_filter_def)
  ultimately show ?thesis by blast
qed

lemma load_tape_Inr:
  assumes "load_hyperliquid_parquet_tape fs connect paths instrument_id venue product resources = Inr tape"
  obtains files relation c trades bbos marks where
    "parquet_files fs paths = Inr files" "read_parquet_sql fs files = Inr relation"
    "connect (map_option connection_config resources) = Inr c"
    "load_trades c relation instrument_id venue product = Inr trades"
    "load_bbos c relation instrument_id venue product = Inr bbos"
    "load_marks c relation instrument_id venue product = Inr marks"
    "tape = sort_key event_sort_key (map Trade trades @ map Bbo bbos @ map Mark marks)"
    "map Trade trades @ map Bbo bbos @ map Mark marks \<noteq> []"
    "venue = ''hyperliquid''" "product = ''BTC-PERP''" "instrument_id \<noteq> []"
proof -
  from assms have v: "instrument_id \<noteq> []" "venue = ''hyperliquid''" "product = ''BTC-PERP''"
    by (auto simp: load_hyperliquid_parquet_tape_def res_bind_Inr_iff split: if_splits)
  from assms obtain files where files: "parquet_files fs paths = Inr files"
    by (auto simp: load_hyperliquid_parquet_tape_def res_bind_Inr_iff)
  from assms files v obtain relation c where "read_parquet_sql fs files = Inr relation"
      "connect (map_option connection_config resources) = Inr c"
    and rest: "res_bind (load_trades c relation instrument_id venue product) (\<lambda>trades.
       res_bind (load_bbos c relation instrument_id venue product) (\<lambda>bbos.
       res_bind (load_marks c relation instrument_id venue product) (\<lambda>marks.
       let events = map Trade trades @ map Bbo bbos @ map Mark marks
       in if events = [] then Inl (PaperTapeError ''parquet tape produced no trades, bbo, or mark events.'')
          else Inr (sort_key event_sort_key events)))) = Inr tape"
    by (auto simp: load_hyperliquid_parquet_tape_def res_bind_Inr_iff)
  with files v show ?thesis
    by (auto simp: res_bind_Inr_iff Let_def intro!: that split: if_splits)
qed

lemma tape_events_ok:
  assumes "load_hyperliquid_parquet_tape fs connect paths instrument_id venue product resources = Inr tape"
    and "e \<in> set tape"
  shows "tape_event_ok venue instrument_id e"
proof -
  from load_tape_Inr [OF assms(1)] obtain c relation trades bbos marks
    where "load_trades c relation instrument_id venue product = Inr trades"
      "load_bbos c relation instrument_id venue product = Inr bbos"
      "load_marks c relation instrument_id venue product = Inr marks"
      "tape = sort_key event_sort_key (map Trade trades @ map Bbo bbos @ map Mark marks)" by metis
  note l = this
  from assms(2) l(4) consider t where "t \<in> set trades" "e = Trade t" | b where "b \<in> set bbos" "e = Bbo b"
    | m where "m \<in> set marks" "e = Mark m" by auto
  then show ?thesis
    using load_trades_ok [OF l(1)] load_bbos_ok [OF l(2)] load_marks_ok [OF l(3)] by cases simp_all
qed

text \<open>
  C26: A returned tape is not empty, is in tape order, and every event is of the asked venue and
  instrument, with no negative time, ordinal or index and only positive prices. It holds exactly
  the events of the three result sets that the connection opened under the asked resources
  gives for the relation of the Parquet files found under the asked paths.
\<close>

theorem parquet_tape_sorted_and_valid:
  assumes "load_hyperliquid_parquet_tape fs connect paths instrument_id venue product resources = Inr tape"
  shows "tape \<noteq> [] \<and> sorted (map event_sort_key tape)
    \<and> (\<forall>e \<in> set tape. tape_event_ok venue instrument_id e)
    \<and> (\<exists>files relation c trades bbos marks. parquet_files fs paths = Inr files
        \<and> read_parquet_sql fs files = Inr relation
        \<and> connect (map_option connection_config resources) = Inr c
        \<and> load_trades c relation instrument_id venue product = Inr trades
        \<and> load_bbos c relation instrument_id venue product = Inr bbos
        \<and> load_marks c relation instrument_id venue product = Inr marks
        \<and> mset tape = mset (map Trade trades @ map Bbo bbos @ map Mark marks))"
proof (intro conjI ballI)
  from load_tape_Inr [OF assms] obtain files relation c trades bbos marks
    where l: "parquet_files fs paths = Inr files" "read_parquet_sql fs files = Inr relation"
      "connect (map_option connection_config resources) = Inr c"
      "load_trades c relation instrument_id venue product = Inr trades"
      "load_bbos c relation instrument_id venue product = Inr bbos"
      "load_marks c relation instrument_id venue product = Inr marks"
      and tape: "tape = sort_key event_sort_key (map Trade trades @ map Bbo bbos @ map Mark marks)"
      and some: "map Trade trades @ map Bbo bbos @ map Mark marks \<noteq> []" by metis
  show "sorted (map event_sort_key tape)" unfolding tape by (rule sorted_sort_key)
  have bag: "mset tape = mset (map Trade trades @ map Bbo bbos @ map Mark marks)" by (simp add: tape)
  with some show "tape \<noteq> []" by force
  show "tape_event_ok venue instrument_id e" if "e \<in> set tape" for e by (rule tape_events_ok [OF assms that])
  show "\<exists>files relation c trades bbos marks. parquet_files fs paths = Inr files
        \<and> read_parquet_sql fs files = Inr relation
        \<and> connect (map_option connection_config resources) = Inr c
        \<and> load_trades c relation instrument_id venue product = Inr trades
        \<and> load_bbos c relation instrument_id venue product = Inr bbos
        \<and> load_marks c relation instrument_id venue product = Inr marks
        \<and> mset tape = mset (map Trade trades @ map Bbo bbos @ map Mark marks)"
    using l bag by blast
qed

definition example_fs :: file_system where
  "example_fs = \<lparr>fs_is_dir = (\<lambda>p. p = [''/'', ''tape'']), fs_is_file = (\<lambda>p. True),
     fs_names = (\<lambda>p. [''b.parquet'', ''.a.parquet'', ''a.parquet'', ''note.txt'']), fs_resolve = (\<lambda>p. p)\<rparr>"

definition example_connection :: connection where
  "example_connection = \<lparr>cn_trades = (\<lambda>relation product. Inr example_rows),
     cn_bbos = (\<lambda>relation product. Inr []),
     cn_marks = (\<lambda>relation product. Inr [\<lparr>mw_message_ordinal = Integer 2, mw_received_utc_ns = Integer 1500,
       mw_mark_price = Text ''50000.5'', mw_coin = Text ''BTC''\<rparr>])\<rparr>"

theorem parquet_tape_sorted_and_valid_witness:
  "\<exists>tape. load_hyperliquid_parquet_tape example_fs (\<lambda>_. Inr example_connection) [[''/'', ''tape'']]
      ''BTC-PERP'' ''hyperliquid'' ''BTC-PERP'' None = Inr tape \<and> length tape = 3
    \<and> sorted (map event_sort_key tape)"
proof -
  let ?tape = "load_hyperliquid_parquet_tape example_fs (\<lambda>_. Inr example_connection) [[''/'', ''tape'']]
      ''BTC-PERP'' ''hyperliquid'' ''BTC-PERP'' None"
  have "\<not> isl ?tape" "length (projr ?tape) = 3" by code_simp+
  then obtain tape where tape: "?tape = Inr tape" "length tape = 3" by (cases ?tape) auto
  with parquet_tape_sorted_and_valid [OF tape(1)] show ?thesis by blast
qed

section \<open>The relation\<close>

lemma join_count:
  "\<forall>t \<in> set ts. count_list t c = n \<Longrightarrow> count_list sep c = 0 \<Longrightarrow> count_list (join sep ts) c = n * length ts"
  by (induction sep ts rule: join.induct) (auto simp: count_list_append)

text \<open>
  The SQL relation holds two quotes for each file and no NUL character: the text of a path
  never ends the literal it is embedded in.
\<close>

theorem sql_literals_closed:
  assumes "read_parquet_sql fs files = Inr sql"
  shows "count_list sql (CHR 0x27) = 2 * length files \<and> CHR 0x00 \<notin> set sql"
proof -
  from assms obtain texts where texts: "list_all2 (\<lambda>p t. sql_string (as_posix (fs_resolve fs p)) = Inr t) files texts"
    and sql: "sql = ''read_parquet(['' @ join '', '' (map (\<lambda>t. [CHR 0x27] @ t @ [CHR 0x27]) texts)
            @ ''], union_by_name = true)''"
    by (auto simp: read_parquet_sql_def res_bind_Inr_iff traverse_Inr_iff)
  have safe: "CHR 0x27 \<notin> set t \<and> CHR 0x00 \<notin> set t" if "t \<in> set texts" for t
    using that texts by (auto simp: list_all2_conv_all_nth in_set_conv_nth sql_string_def split: if_splits)
  have "count_list (join '', '' (map (\<lambda>t. [CHR 0x27] @ t @ [CHR 0x27]) texts)) (CHR 0x27) = 2 * length texts"
    using safe by (subst join_count [of _ _ 2]) (auto simp: count_list_append count_list_0_iff)
  moreover have "CHR 0x00 \<notin> set (join '', '' (map (\<lambda>t. [CHR 0x27] @ t @ [CHR 0x27]) texts))"
  proof -
    have "CHR 0x00 \<notin> set (join sep ts)" if "CHR 0x00 \<notin> set sep" "\<forall>t \<in> set ts. CHR 0x00 \<notin> set t" for sep ts
      using that by (induction sep ts rule: join.induct) auto
    then show ?thesis using safe by auto
  qed
  moreover have "length texts = length files" using texts by (simp add: list_all2_lengthD)
  ultimately show ?thesis by (simp add: sql count_list_append)
qed

theorem sql_literals_closed_witness:
  "count_list (projr (read_parquet_sql example_fs [[''/'', ''a.parquet''], [''/'', ''b.parquet'']])) (CHR 0x27) = 4"
proof -
  let ?sql = "read_parquet_sql example_fs [[''/'', ''a.parquet''], [''/'', ''b.parquet'']]"
  have "\<not> isl ?sql" by code_simp
  then obtain sql where sql: "?sql = Inr sql" by (cases ?sql) auto
  with sql_literals_closed [OF sql] show ?thesis by simp
qed

section \<open>Integers as text\<close>

lemma require_int_minus_digits:
  assumes ds: "is_digits ds"
  shows "require_int (Text (replicate k (CHR ''-'') @ ds)) field =
     (if 2 \<le> k then Inl (ValueError ''invalid literal for int()'')
      else if 4300 < int (length ds) then Inl (ValueError ''Exceeds the limit for integer string conversion'')
      else Inr ((- 1) ^ k * int (digits_value ds)))"
proof -
  from ds obtain c r where c: "ds = c # r" "is_digit c" by (cases ds) (auto simp: is_digits_def)
  have minus: "\<not> is_digit (CHR ''-'')" by (simp add: is_digit_def)
  have strip: "lstrip_minus (replicate k (CHR ''-'') @ ds) = ds"
    using digit_plain(3) [OF c(2)] by (induction k) (simp_all add: lstrip_minus_def c(1))
  have read: "require_int (Text (replicate k (CHR ''-'') @ ds)) field = py_int (replicate k (CHR ''-'') @ ds)"
    by (simp only: require_int.simps strip ds if_True)
  have plain: "split_sign ds = (False, ds)" and neg: "split_sign (CHR ''-'' # s) = (True, s)" for s
    using digit_plain(3,4) [OF c(2)] by (simp_all add: split_sign_def c(1))
  consider "k = 0" | "k = 1" | j where "k = Suc (Suc j)" by (metis One_nat_def not0_implies_Suc)
  then show "require_int (Text (replicate k (CHR ''-'') @ ds)) field =
     (if 2 \<le> k then Inl (ValueError ''invalid literal for int()'')
      else if 4300 < int (length ds) then Inl (ValueError ''Exceeds the limit for integer string conversion'')
      else Inr ((- 1) ^ k * int (digits_value ds)))"
  proof cases
    case 1
    then show ?thesis unfolding read by (simp add: py_int_def plain ds)
  next
    case 2
    then show ?thesis unfolding read by (simp add: py_int_def neg ds)
  next
    case (3 j)
    have "\<not> is_digits (CHR ''-'' # s)" for s using minus by (simp add: is_digits_def)
    then show ?thesis unfolding read by (simp add: 3 py_int_def neg)
  qed
qed

text \<open>Every text is a run of minus signs and what the tape's own test looks at.\<close>

lemma minus_runE:
  obtains k where "s = replicate k (CHR ''-'') @ lstrip_minus s"
proof -
  have "takeWhile (\<lambda>c. c = CHR ''-'') s = replicate (length (takeWhile (\<lambda>c. c = CHR ''-'') s)) (CHR ''-'')"
    by (induction s) auto
  then show ?thesis using that takeWhile_dropWhile_id [of "\<lambda>c. c = CHR ''-''" s]
    unfolding lstrip_minus_def by metis
qed

lemma lstrip_minus_digits: "is_digits ds \<Longrightarrow> lstrip_minus (replicate k (CHR ''-'') @ ds) = ds"
proof -
  assume "is_digits ds"
  then obtain c r where "ds = c # r" "is_digit c" by (cases ds) (auto simp: is_digits_def)
  then show ?thesis using digit_plain(3) by (induction k) (simp_all add: lstrip_minus_def)
qed

lemma require_int_cases:
  obtains (digits) k ds where "s = replicate k (CHR ''-'') @ ds" "is_digits ds"
      "\<And>j es. s = replicate j (CHR ''-'') @ es \<Longrightarrow> is_digits es \<Longrightarrow> j = k \<and> es = ds"
  | (other) "\<And>k ds. s = replicate k (CHR ''-'') @ ds \<Longrightarrow> \<not> is_digits ds"
      "require_int (Text s) field = Inl (PaperTapeError (field @ '' is not an integer.''))"
proof (cases "is_digits (lstrip_minus s)")
  case True
  obtain k where k: "s = replicate k (CHR ''-'') @ lstrip_minus s" by (rule minus_runE)
  have "j = k \<and> es = lstrip_minus s" if es: "s = replicate j (CHR ''-'') @ es" "is_digits es" for j es
  proof -
    have "es = lstrip_minus s" using lstrip_minus_digits [OF es(2), of j] unfolding es(1) by simp
    with k es(1) show ?thesis by (metis append_same_eq length_replicate)
  qed
  with True k show ?thesis by (intro digits)
next
  case False
  then show ?thesis by (intro other) (auto simp: lstrip_minus_digits)
qed

text \<open>
  C27: which texts are integers, for every text. A text is read as an integer exactly when it is
  at most 4300 digits after an optional minus, and then as that number; it raises a plain
  \<open>ValueError\<close> exactly when it is digits after two or more minus signs, or more than 4300 digits
  after minus signs, which the tape's own test lets through; and every other text, one with a
  plus sign for instance, is refused with the tape's own error.
\<close>

theorem require_int_text:
  "(require_int (Text s) field = Inr n \<longleftrightarrow> (\<exists>ds. is_digits ds \<and> length ds \<le> 4300
      \<and> (s = ds \<and> n = int (digits_value ds) \<or> s = ''-'' @ ds \<and> n = - int (digits_value ds))))
   \<and> ((\<exists>message. require_int (Text s) field = Inl (ValueError message)) \<longleftrightarrow>
      (\<exists>k ds. is_digits ds \<and> s = replicate k (CHR ''-'') @ ds \<and> (2 \<le> k \<or> 4300 < length ds)))
   \<and> ((\<exists>message. require_int (Text s) field = Inl (PaperTapeError message)) \<longleftrightarrow>
      (\<nexists>k ds. is_digits ds \<and> s = replicate k (CHR ''-'') @ ds))"
proof (cases rule: require_int_cases [where s = s and field = field])
  case (digits k ds)
  have shape: "s = replicate j (CHR ''-'') @ es \<and> is_digits es \<longleftrightarrow> j = k \<and> es = ds" for j es
    using digits by blast
  have forms: "s = es \<and> is_digits es \<longleftrightarrow> 0 = k \<and> es = ds" "s = ''-'' @ es \<and> is_digits es \<longleftrightarrow> 1 = k \<and> es = ds" for es
    using shape [of 0 es] shape [of 1 es] by (simp_all only: replicate_0 append_Nil One_nat_def replicate_Suc)
  note read = require_int_minus_digits [OF digits(2), of k field, folded digits(1)]
  show ?thesis
  proof (intro conjI)
    have "(\<exists>es. is_digits es \<and> length es \<le> 4300
        \<and> (s = es \<and> n = int (digits_value es) \<or> s = ''-'' @ es \<and> n = - int (digits_value es)))
      \<longleftrightarrow> length ds \<le> 4300 \<and> (0 = k \<and> n = int (digits_value ds) \<or> 1 = k \<and> n = - int (digits_value ds))"
      by (metis forms)
    then show "require_int (Text s) field = Inr n \<longleftrightarrow> (\<exists>ds. is_digits ds \<and> length ds \<le> 4300
      \<and> (s = ds \<and> n = int (digits_value ds) \<or> s = ''-'' @ ds \<and> n = - int (digits_value ds)))"
      unfolding read by (cases "k = 0"; cases "k = 1") auto
    have "(\<exists>j es. is_digits es \<and> s = replicate j (CHR ''-'') @ es \<and> (2 \<le> j \<or> 4300 < length es))
      \<longleftrightarrow> 2 \<le> k \<or> 4300 < length ds" by (metis shape)
    then show "(\<exists>message. require_int (Text s) field = Inl (ValueError message)) \<longleftrightarrow>
      (\<exists>k ds. is_digits ds \<and> s = replicate k (CHR ''-'') @ ds \<and> (2 \<le> k \<or> 4300 < length ds))"
      unfolding read by auto
    show "(\<exists>message. require_int (Text s) field = Inl (PaperTapeError message)) \<longleftrightarrow>
      (\<nexists>k ds. is_digits ds \<and> s = replicate k (CHR ''-'') @ ds)"
      unfolding read using digits(1,2) by auto
  qed
next
  case other
  have "\<not> is_digits s" "s = ''-'' @ es \<Longrightarrow> \<not> is_digits es" for es
    using other(1) [of 0 s] other(1) [of 1 es] by auto
  then show ?thesis using other by auto
qed

theorem require_int_text_witness:
  "require_int (Text ''-42'') ''x'' = Inr (- 42)
    \<and> (\<exists>message. require_int (Text ''--5'') ''x'' = Inl (ValueError message))
    \<and> (\<exists>message. require_int (Text ''+5'') ''x'' = Inl (PaperTapeError message))"
proof (intro conjI)
  have "is_digits ''42''" "int (digits_value ''42'') = 42" by code_simp+
  then show "require_int (Text ''-42'') ''x'' = Inr (- 42)"
    using require_int_text [of "''-42''" "''x''" "- 42"] by auto
  have "is_digits ''5''" by code_simp
  moreover have "''--5'' = replicate 2 (CHR ''-'') @ ''5''" by (simp add: numeral_2_eq_2)
  ultimately show "\<exists>message. require_int (Text ''--5'') ''x'' = Inl (ValueError message)"
    using require_int_text [of "''--5''" "''x''" 0] by blast
  have "\<not> is_digits ds" if "''+5'' = replicate k (CHR ''-'') @ ds" for k ds
    using that by (cases k) (auto simp: is_digits_def is_digit_def)
  then show "\<exists>message. require_int (Text ''+5'') ''x'' = Inl (PaperTapeError message)"
    using require_int_text [of "''+5''" "''x''" 0] by blast
qed

end
