(* ===== verification/EngineTape.thy ===== *)
theory EngineTape
  imports EngineInvariants EngineDemo Replay
begin

text \<open>
  A run over a Parquet tape (\<open>PaperEngine.run_parquet\<close>): the tape is loaded with the instrument and
  the venue of the run, then its events are fed one by one.
\<close>

section \<open>Running a tape\<close>

definition run_parquet ::
  "file_system \<Rightarrow> ((string \<times> json) list option \<Rightarrow> connection result) \<Rightarrow> path list \<Rightarrow> 's engine \<Rightarrow> (unit, 's engine) outcome" where
  "run_parquet fs connect paths e =
     andthen (lift_result (load_hyperliquid_parquet_tape fs connect paths
         (cf_instrument_id (en_config e)) (cf_venue (en_config e)) ''BTC-PERP'' None) e)
       (\<lambda>tape. run_events tape)"

section \<open>Open runs\<close>

definition run_open :: "'s engine \<Rightarrow> bool" where
  "run_open e \<longleftrightarrow> reachable e \<and> \<not> en_failed e \<and> \<not> en_closed e"

lemma open_engine_open:
  assumes "open_engine cf created zone st s io run_id dirs = Ok e dirs'"
  shows "run_open e"
proof -
  obtain e0 where "fresh_start e0" "quiet e0 e" by (rule open_engine_fresh [OF assms])
  then have "\<not> en_failed e \<and> \<not> en_closed e"
    using fresh_fields [of e0] quiet_core [of e0 e] by (simp add: core_def static_def)
  with reachable.opened [OF assms] show ?thesis by (simp add: run_open_def)
qed

lemma demo_reachable: "demo_open io = Ok e d \<Longrightarrow> reachable e"
  unfolding demo_open_def by (rule reachable.opened)

lemma micro_open:
  assumes "micro e e'" "sound e"
  shows "en_failed e' = en_failed e \<and> en_closed e' = en_closed e \<and> en_config e' = en_config e"
  using assms by (cases rule: micro_elim) (auto simp: quiet_def quiet_by_def core_def step_frames)

lemma micros_open:
  assumes "micro\<^sup>*\<^sup>* e e'" "sound e"
  shows "en_failed e' = en_failed e \<and> en_closed e' = en_closed e \<and> en_config e' = en_config e"
  using assms(1)
proof (induction rule: rtranclp_induct)
  case (step e1 e2)
  with micro_open micros_sound [OF step.hyps(1) assms(2)] show ?case by metis
qed simp

lemma on_event_open:
  assumes "run_open e" "on_event ev e = Ok u e'"
  shows "run_open e' \<and> en_config e' = en_config e"
proof -
  have "feed (Event ev) e = Ok () e'" using assms(2) by simp
  moreover note feed_fine [OF this] reachable.fed [OF _ this]
  ultimately show ?thesis
    using assms(1) reachable_sound [of e] micros_open [of e e'] by (auto simp: run_open_def fine_def)
qed

text \<open>Events of the venue and the instrument of a configuration pass the check.\<close>

definition own_event :: "engine_config \<Rightarrow> market_event \<Rightarrow> bool" where
  "own_event cf ev \<longleftrightarrow> eb_venue (event_base_of ev) = cf_venue cf
     \<and> eb_instrument_id (event_base_of ev) = cf_instrument_id cf"

lemma check_event_passes: "own_event (en_config e) ev \<Longrightarrow> check_event ev e = skip e"
  by (simp add: own_event_def check_event_def)

lemma on_event_raises:
  assumes "run_open e" "check_event ev e = skip e" "on_event ev e = Raise ex e'"
  shows "en_failed e'"
  using assms
  by (auto simp: run_open_def on_event_def require_open_def fail_closed_def Let_def suppress_def
      commit_ledger_def write_failed_projections_def write_health_at_def on_store_def lift_result_def
      split: outcome.splits sum.splits)

lemma run_events_cases:
  assumes "run_open e" "list_all (own_event (en_config e)) tape"
  shows "case run_events tape e of
      Ok u e' \<Rightarrow> run_open e'
    | Raise ex e' \<Rightarrow> en_failed e' \<and> (\<exists>past ev rest e1. tape = past @ ev # rest
        \<and> run_events past e = Ok () e1 \<and> check_event ev e1 = skip e1 \<and> on_event ev e1 = Raise ex e')"
  using assms
proof (induction tape arbitrary: e)
  case (Cons ev tape)
  note pass = check_event_passes [of e ev]
  show ?case
  proof (cases "on_event ev e")
    case (Raise ex e')
    have p: "check_event ev e = skip e" by (rule pass) (use Cons.prems(2) in simp)
    have "ev # tape = [] @ ev # tape" "run_events [] e = Ok () e" by simp_all
    then have "\<exists>past' ev'' rest' e3. ev # tape = past' @ ev'' # rest'
        \<and> run_events past' e = Ok () e3 \<and> check_event ev'' e3 = skip e3 \<and> on_event ev'' e3 = Raise ex e'"
      using p Raise by (intro exI conjI)
    moreover have "run_events (ev # tape) e = Raise ex e'" using Raise by simp
    ultimately show ?thesis
      using on_event_raises [OF Cons.prems(1) p Raise] by (simp only: outcome.case simp_thms)
  next
    case (Ok u e1)
    have e1: "run_open e1" "en_config e1 = en_config e"
      using on_event_open [OF Cons.prems(1) Ok] by simp_all
    with Cons.prems(2) have t: "list_all (own_event (en_config e1)) tape" by simp
    show ?thesis
    proof (cases "run_events tape e1")
      case (Raise ex e')
      with Cons.IH [OF e1(1) t] obtain past ev' rest e2 where p: "en_failed e'" "tape = past @ ev' # rest"
        "run_events past e1 = Ok () e2" "check_event ev' e2 = skip e2" "on_event ev' e2 = Raise ex e'" by auto
      have "run_events (ev # past) e = Ok () e2" using p(3) Ok by simp
      moreover have "ev # tape = (ev # past) @ ev' # rest" using p(2) by simp
      ultimately have "\<exists>past' ev'' rest' e3. ev # tape = past' @ ev'' # rest'
          \<and> run_events past' e = Ok () e3 \<and> check_event ev'' e3 = skip e3 \<and> on_event ev'' e3 = Raise ex e'"
        using p(4,5) by (intro exI conjI)
      moreover have "run_events (ev # tape) e = Raise ex e'" using Ok Raise by simp
      ultimately show ?thesis using p(1) by (simp only: outcome.case simp_thms)
    next
      case (Ok u e')
      with Cons.IH [OF e1(1) t] \<open>on_event ev e = _\<close> show ?thesis by simp
    qed
  qed
qed simp

lemma tape_of_run:
  assumes "load_hyperliquid_parquet_tape fs connect paths (cf_instrument_id cf) (cf_venue cf) ''BTC-PERP'' None
    = Inr tape"
  shows "list_all (own_event cf) tape"
  unfolding list_all_iff
proof
  fix ev assume "ev \<in> set tape"
  then have "tape_event_ok (cf_venue cf) (cf_instrument_id cf) ev" by (rule tape_events_ok [OF assms])
  then show "own_event cf ev"
    by (cases ev) (auto simp: own_event_def tape_row_ok_def event_base.defs)
qed

text \<open>
  C11: A Parquet run completes, or changes nothing, or fails closed. When it returns, the whole tape was
  fed and the run is open; when it raises, either the tape could not be loaded and the engine is as it
  was, or one event of the tape raised, after the events before it were processed, and the run is
  marked as failed. No event of a loaded tape is refused for its venue or instrument.
\<close>
theorem parquet_run_completes_or_fails_closed:
  assumes "run_open e"
    and load: "load = load_hyperliquid_parquet_tape fs connect paths
      (cf_instrument_id (en_config e)) (cf_venue (en_config e)) ''BTC-PERP'' None"
  shows "case run_parquet fs connect paths e of
      Ok u e' \<Rightarrow> run_open e' \<and> (\<exists>tape. load = Inr tape \<and> run_events tape e = Ok () e')
    | Raise ex e' \<Rightarrow> load = Inl ex \<and> e' = e \<or>
        en_failed e' \<and> (\<exists>past ev rest e1. load = Inr (past @ ev # rest)
          \<and> run_events past e = Ok () e1 \<and> check_event ev e1 = skip e1 \<and> on_event ev e1 = Raise ex e')"
proof (cases load)
  case (Inl ex)
  then show ?thesis unfolding run_parquet_def load [symmetric] by (simp add: lift_result_def)
next
  case (Inr tape)
  then have t: "list_all (own_event (en_config e)) tape" using load tape_of_run by metis
  have run: "run_parquet fs connect paths e = run_events tape e"
    unfolding run_parquet_def load [symmetric] by (simp add: Inr lift_result_def)
  show ?thesis
    using run_events_cases [OF assms(1) t] unfolding run by (auto simp: Inr split: outcome.splits)
qed

theorem parquet_run_completes_or_fails_closed_witness:
  "\<exists>e :: unit engine. run_open e \<and>
     (case run_parquet example_fs (\<lambda>_. Inr example_connection) [] e of
        Ok u e' \<Rightarrow> False | Raise ex e' \<Rightarrow> e' = e)"
proof -
  from demo_stale obtain e d where "demo_open (\<lambda>_. Io_Ok) = Ok e d" by (auto split: outcome.splits)
  then have e: "run_open e" unfolding demo_open_def by (rule open_engine_open)
  have "isl (load_hyperliquid_parquet_tape example_fs (\<lambda>_. Inr example_connection) []
      (cf_instrument_id (en_config e)) (cf_venue (en_config e)) ''BTC-PERP'' None)"
    by (simp add: load_hyperliquid_parquet_tape_def parquet_files_def res_bind_def)
  then obtain ex where "load_hyperliquid_parquet_tape example_fs (\<lambda>_. Inr example_connection) []
      (cf_instrument_id (en_config e)) (cf_venue (en_config e)) ''BTC-PERP'' None = Inl ex"
    by (auto simp: isl_def)
  with parquet_run_completes_or_fails_closed [OF e, of "Inl ex" example_fs "\<lambda>_. Inr example_connection" "[]"] e
  show ?thesis by (intro exI [of _ e]) (auto split: outcome.splits)
qed

end
