(* ===== verification/EngineProperties.thy ===== *)
theory EngineProperties
  imports EngineTape
begin

text \<open>
  What holds of every run of the engine, from its opening through any events and clock ticks that
  return: the position, the orders, the ledger, the stop, the kill switch, and what a failed run
  refuses. The invariants are those of \<open>EngineInvariants\<close>; two more, on the fills of the ledger, are
  interpreted here.
\<close>

section \<open>Several inputs\<close>

fun feeds :: "input list \<Rightarrow> 's engine \<Rightarrow> (unit, 's engine) outcome" where
  "feeds [] e = skip e"
| "feeds (i # inputs) e = seq (feed i e) (feeds inputs)"

lemma feeds_Ok:
  "feeds inputs e = Ok () e' \<Longrightarrow> reachable e \<Longrightarrow> reachable e' \<and> micro\<^sup>*\<^sup>* e e'"
proof (induction inputs arbitrary: e)
  case (Cons i inputs)
  then obtain e1 where 1: "feed i e = Ok () e1" "feeds inputs e1 = Ok () e'"
    by (auto simp: andthen_Ok_iff)
  then have "fine e e1" "reachable e1"
    using feed_fine reachable_sound [OF Cons.prems(2)] reachable.fed [OF Cons.prems(2)] by auto
  with Cons.IH [OF 1(2)] show ?case by (auto simp: fine_def)
qed simp

text \<open>A relation that every step of a sound engine respects holds between the ends of a run.\<close>

lemma micros_relate:
  assumes "micro\<^sup>*\<^sup>* e e'" "sound e" "R e e"
    and "\<And>e1 e2. sound e1 \<Longrightarrow> R e e1 \<Longrightarrow> micro e1 e2 \<Longrightarrow> R e e2"
  shows "R e e'"
  using assms(1)
proof (induction rule: rtranclp_induct)
  case (step e1 e2)
  with assms(2,4) micros_sound [OF step.hyps(1)] show ?case by blast
qed (rule assms(3))

section \<open>The fills of the ledger\<close>

text \<open>Applying the fills of a ledger, in order, to a position.\<close>

fun replay_fills :: "position_state \<Rightarrow> fill_record list \<Rightarrow> position_state result" where
  "replay_fills p [] = Inr p"
| "replay_fills p (f # fs) = res_bind (apply_fill p (fr_quote f)) (\<lambda>p. replay_fills p fs)"

lemma replay_fills_snoc:
  "replay_fills p fs = Inr p1 \<Longrightarrow> replay_fills p (fs @ [f]) = apply_fill p1 (fr_quote f)"
proof (induction fs arbitrary: p)
  case Nil
  then show ?case by (cases "apply_fill p1 (fr_quote f)") (simp_all add: res_bind_def)
next
  case (Cons g fs)
  then show ?case by (cases "apply_fill p (fr_quote g)") (simp_all add: res_bind_def)
qed

definition opening_position :: "engine_config \<Rightarrow> position_state" where
  "opening_position cf = \<lparr>ps_cash_usdc = cf_starting_cash_usdc cf, ps_position_quantity = 0,
     ps_average_entry_price = 0, ps_realized_pnl_usdc = 0, ps_fees_usdc = 0\<rparr>"

definition position_replayed :: "'s engine \<Rightarrow> bool" where
  "position_replayed e \<longleftrightarrow>
     replay_fills (opening_position (en_config e)) (select fill_records (engine_history e))
       = Inr (en_position e)"

interpretation replayed: engine_invariant position_replayed
proof
  fix e :: "'s engine" assume "fresh_start e"
  then show "position_replayed e"
    by (auto simp: fresh_start_def position_replayed_def opening_position_def initial_engine_def)
next
  fix e e' :: "'s engine" assume s: "sound e" "micro e e'" and I: "position_replayed e"
  from s(2,1) show "position_replayed e'"
  proof (cases rule: micro_elim)
    case quiet
    with I show ?thesis by (auto simp: quiet_def quiet_by_def core_def static_def position_replayed_def)
  next
    case (filled w r q f rs)
    with I replay_fills_snoc [of _ _ _ f] show ?thesis
      by (simp add: position_replayed_def step_frames)
  qed (use I in \<open>simp_all add: position_replayed_def step_frames\<close>)
qed

text \<open>A fill honours an order: it is for it, on its side, no larger than it and within its limit price.\<close>

definition honours :: "fill_record \<Rightarrow> working_order \<Rightarrow> bool" where
  "honours f w \<longleftrightarrow> fr_client_order_id f = wo_client_order_id w \<and> fq_side (fr_quote f) = wo_side w
     \<and> 0 < fq_quantity (fr_quote f) \<and> fq_quantity (fr_quote f) \<le> wo_quantity w
     \<and> \<not> beyond_limit w (fr_quote f)"

definition fills_honour :: "'s engine \<Rightarrow> bool" where
  "fills_honour e \<longleftrightarrow> orders_balanced e \<and>
     (\<forall>f \<in> set (select fill_records (engine_history e)).
        \<exists>w \<in> set (select accepted (engine_history e)). honours f w)"

interpretation honoured: engine_invariant fills_honour
proof
  fix e :: "'s engine" assume f: "fresh_start e"
  then show "fills_honour e" by (simp add: fills_honour_def order_book.initially fresh_fields)
next
  fix e e' :: "'s engine" assume s: "sound e" "micro e e'" and I: "fills_honour e"
  have b: "orders_balanced e'" using I by (intro order_book.preserved [OF s]) (simp add: fills_honour_def)
  from s(2,1) show "fills_honour e'"
  proof (cases rule: micro_elim)
    case quiet
    with I b show ?thesis by (auto simp: quiet_def quiet_by_def fills_honour_def)
  next
    case (consult s)
    with I b show ?thesis by (simp add: fills_honour_def)
  next
    case (filled w r q f rs)
    have "w \<in> set (select accepted (engine_history e))"
      using I filled(1) by (simp add: fills_honour_def orders_balanced_def balanced_def)
    moreover have "honours f w"
      using filled(6,12,13) by (simp add: honours_def fill_permitted_def)
    ultimately show ?thesis using I b filled(16-19) by (auto simp: fills_honour_def)
  qed (use I b in \<open>auto simp: fills_honour_def\<close>)
qed

section \<open>Every reachable state\<close>

text \<open>
  C1: The position never exceeds the configured maximum. In every reachable state it is a 28-digit
  decimal within it; a waiting order has a positive quantity on the lot and the identity of the run's
  position; and while the kill switch is on, such an order can only reduce the position.
\<close>
theorem run_stays_within_limits:
  assumes "reachable e"
  shows "rep (position_of e) \<and> \<bar>position_of e\<bar> \<le> cf_max_position_quantity (en_config e)
    \<and> (case en_working e of None \<Rightarrow> True
       | Some w \<Rightarrow> order_sound e w \<and> (wo_reduce_only w \<or> en_kill e = NONE))"
  using reachable_sound [OF assms] by (auto simp: sound_def guarded_def split: option.split)

text \<open>
  C5: The orders are answered one by one. In every reachable state the accepted orders of the ledger
  are its order records in the same order, followed by the waiting order when there is one; they are
  numbered from 1 without a gap and no two have the same client order identifier.
\<close>
theorem orders_answered_in_order:
  assumes "reachable e"
  shows "select accepted (engine_history e)
      = map closed_order (select order_records (engine_history e))
        @ (case en_working e of None \<Rightarrow> [] | Some w \<Rightarrow> [w])
    \<and> map wo_client_order_id (select accepted (engine_history e))
      = map (nth_order_id (rs_run_id (en_store e))) [1..<en_next_order_number e]
    \<and> distinct (map wo_client_order_id (select accepted (engine_history e)))"
proof -
  let ?os = "select accepted (engine_history e)" and ?id = "nth_order_id (rs_run_id (en_store e))"
  have b: "balanced (rs_run_id (en_store e)) ?os (select order_records (engine_history e))
      (en_working e) (en_next_order_number e)"
    using order_book.always [OF assms] by (simp add: orders_balanced_def)
  have "inj ?id" by (rule injI) (simp add: nth_order_id_def zero_pad_inject)
  then have "distinct (map ?id [1..<en_next_order_number e])"
    by (auto simp: distinct_map intro: inj_on_subset)
  with b show ?thesis unfolding balanced_def by metis
qed

text \<open>
  C3: The position is what the ledger says. In every reachable state, applying the fills of the ledger
  one after the other to the starting cash gives exactly the position, its average entry, the cash,
  the realized PnL and the fees of the engine.
\<close>
theorem position_is_ledger_replay:
  assumes "reachable e"
  shows "replay_fills (opening_position (en_config e)) (select fill_records (engine_history e))
    = Inr (en_position e)"
  using replayed.always [OF assms] by (simp add: position_replayed_def)

text \<open>
  C4: No fill is better than its order allows. In every reachable state each fill of the ledger is for
  an accepted order of the ledger, on its side, positive, no larger than the order, and at a price
  within the order's limit price.
\<close>
theorem every_fill_honours_an_order:
  assumes "reachable e" "f \<in> set (select fill_records (engine_history e))"
  shows "\<exists>w \<in> set (select accepted (engine_history e)).
    fr_client_order_id f = wo_client_order_id w \<and> fq_side (fr_quote f) = wo_side w
    \<and> 0 < fq_quantity (fr_quote f) \<and> fq_quantity (fr_quote f) \<le> wo_quantity w
    \<and> \<not> beyond_limit w (fr_quote f)"
  using honoured.always [OF assms(1)] assms(2) by (auto simp: fills_honour_def honours_def)

text \<open>
  C10: The counters, the lists of recent records and the kill switch of the state are projections of
  the ledger: the counts of its order, fill and rejection records, the last hundred of each, and the
  level of its last kill-switch record.
\<close>
theorem state_is_ledger_projection:
  assumes "reachable e"
  shows "en_order_count e = length (select order_records (engine_history e))
    \<and> en_orders e = keep_recent [] (select order_records (engine_history e))
    \<and> en_fill_count e = length (select fill_records (engine_history e))
    \<and> en_fills e = keep_recent [] (select fill_records (engine_history e))
    \<and> en_rejection_count e = length (select rejections (engine_history e))
    \<and> en_rejections e = keep_recent [] (select rejections (engine_history e))
    \<and> en_kill e = kill_after NONE (engine_history e)"
  using records.always [OF assms] halts.always [OF assms]
  by (simp add: recorded_def tallied_def halts_match_def)

text \<open>
  C6: An open position always has its stop. In every reachable state the stop price of a long (short)
  position is its average entry less (plus) the effective stop distance; a flat position has no stop
  and no pending stop exit.
\<close>
theorem open_position_has_stop:
  assumes "reachable e"
  shows "if position_of e = 0 then en_stop_price e = None \<and> \<not> en_stop_exit_pending e
    else \<exists>distance. effective_stop_distance_fraction (cf_stop_distance_fraction (en_config e))
          (cf_volatility_multiple (en_config e)) = Inr distance
      \<and> en_stop_price e = Some (if 0 < position_of e
          then dmul (ps_average_entry_price (en_position e)) (dsub 1 distance)
          else dmul (ps_average_entry_price (en_position e)) (dadd 1 distance))"
  using stops.always [OF assms]
  by (auto simp: stop_in_place_def stop_level_def split: sum.splits)

section \<open>Between two states of a run\<close>

text \<open>
  A run only moves forward. Over any inputs the ledger is extended at its end, the numbers of the
  orders never go back, the peak equity never falls and stays at least the starting cash, and the day
  and the week of the loss windows never go back.
\<close>
theorem run_moves_forward:
  assumes "reachable e" "feeds inputs e = Ok () e'"
  shows "(\<exists>rs. engine_history e' = engine_history e @ rs)
    \<and> en_next_order_number e \<le> en_next_order_number e'
    \<and> en_peak e \<le> en_peak e' \<and> cf_starting_cash_usdc (en_config e') \<le> en_peak e'
    \<and> opt_le (en_day e) (en_day e') \<and> opt_le (en_week e) (en_week e')"
proof -
  note run = feeds_Ok [OF assms(2,1)]
  let ?R = "\<lambda>e e' :: 'a engine. (\<exists>rs. engine_history e' = engine_history e @ rs)
    \<and> en_next_order_number e \<le> en_next_order_number e' \<and> en_peak e \<le> en_peak e' \<and> windows_paired e'
    \<and> opt_le (en_day e) (en_day e') \<and> opt_le (en_week e) (en_week e')"
  have "?R e e'"
  proof (rule micros_relate [where R = ?R])
    show "micro\<^sup>*\<^sup>* e e'" "sound e" using run reachable_sound [OF assms(1)] by auto
    show "?R e e" using peak.always [OF assms(1)] by (simp add: peak_positive_def)
    fix e1 e2 :: "'a engine" assume s: "sound e1" and R: "?R e e1" and m: "micro e1 e2"
    from m s show "?R e e2"
    proof (cases rule: micro_elim)
      case quiet
      with R show ?thesis
        by (auto simp: quiet_def quiet_by_def core_def intro: opt_le_trans order_trans)
    qed (use R in \<open>auto simp: step_frames windows_paired_def\<close>)
  qed
  moreover have "peak_positive e'" using peak.always run by blast
  ultimately show ?thesis by (simp add: peak_positive_def)
qed

text \<open>
  C2: A halted run only winds down. Once the kill switch is at \<open>FLATTEN_HALT\<close> it stays there over any
  inputs, the strategy is not consulted again, every order accepted from then on is reduce-only, and
  the position never grows.
\<close>
theorem halted_run_winds_down:
  assumes "reachable e" "en_kill e = FLATTEN_HALT" "feeds inputs e = Ok () e'"
  shows "en_kill e' = FLATTEN_HALT \<and> en_strategy_state e' = en_strategy_state e
    \<and> \<bar>position_of e'\<bar> \<le> \<bar>position_of e\<bar>
    \<and> (\<exists>rs. engine_history e' = engine_history e @ rs
         \<and> (\<forall>w \<in> set (select accepted rs). wo_reduce_only w))"
proof -
  let ?R = "\<lambda>e' :: 'a engine. en_kill e' = FLATTEN_HALT \<and> en_strategy_state e' = en_strategy_state e
    \<and> \<bar>position_of e'\<bar> \<le> \<bar>position_of e\<bar>
    \<and> (\<exists>rs. engine_history e' = engine_history e @ rs
         \<and> (\<forall>w \<in> set (select accepted rs). wo_reduce_only w))"
  show ?thesis
  proof (rule micros_relate [where R = "\<lambda>_. ?R"])
    show "micro\<^sup>*\<^sup>* e e'" "sound e"
      using feeds_Ok [OF assms(3,1)] reachable_sound [OF assms(1)] by auto
    show "?R e" using assms(2) by simp
    fix e1 e2 :: "'a engine" assume s: "sound e1" and R: "?R e1" and m: "micro e1 e2"
    then obtain rs where rs: "engine_history e1 = engine_history e @ rs"
      "\<forall>w \<in> set (select accepted rs). wo_reduce_only w" by blast
    from m s show "?R e2"
    proof (cases rule: micro_elim)
      case quiet
      with R rs show ?thesis by (auto simp: quiet_def quiet_by_def core_def static_def)
    next
      case (consult s)
      with R show ?thesis by simp
    next
      case (cancel w r)
      with R rs show ?thesis by (auto simp: step_frames)
    next
      case (accept w touch)
      with R rs show ?thesis by (auto simp: step_frames)
    next
      case (unfilled w r)
      with R rs show ?thesis by (auto simp: step_frames)
    next
      case (filled w r q f ts)
      have "wo_reduce_only w" using filled(6) R by (auto simp: fill_permitted_def split: if_splits)
      then have "\<bar>position_of e2\<bar> \<le> \<bar>position_of e1\<bar>" by (rule permitted_position(4) [OF s filled(1,6,10)])
      with filled R rs show ?thesis by (auto simp: step_frames)
    qed
    qed
qed

section \<open>Handlers\<close>

text \<open>
  C9: The handlers refine the abstract machine. A market event or clock tick that returns, from any
  reachable state, is a sequence of its steps (quiet bookkeeping, consulting the strategy, canceling,
  accepting and completing one order under its guards), and ends in a state that keeps the limits.
\<close>
theorem handlers_refine_machine:
  assumes "reachable e" "feed i e = Ok () e'"
  shows "micro\<^sup>*\<^sup>* e e' \<and> sound e' \<and> guarded e'"
  using feed_fine [OF assms(2)] reachable_sound [OF assms(1)] by (simp add: fine_def)

lemma on_store_fields: "on_store f e = m \<Longrightarrow> \<exists>st. out_state m = e\<lparr>en_store := st\<rparr>"
  by (auto simp: on_store_def split: outcome.split)

lemma suppressed_fields:
  "en_failed (suppress commit_ledger e) = en_failed e"
  "en_failed (write_failed_projections t e) = en_failed e"
  "en_position (suppress commit_ledger e) = en_position e"
  "en_position (write_failed_projections t e) = en_position e"
  by (auto simp: suppress_def commit_ledger_def write_failed_projections_def write_health_at_def Let_def
      on_store_def lift_result_def split: outcome.splits sum.splits)

lemma fail_closed_Raise: "fail_closed t m = Raise ex e \<Longrightarrow> en_failed e"
  by (auto simp: fail_closed_def Let_def suppressed_fields split: outcome.splits)

lemma failed_refuses:
  "en_failed e \<Longrightarrow> feed i e = Raise (PaperEngineError ''run failed mid-event; start a new run_id.'') e"
  by (cases i) (simp_all add: on_event_def on_clock_def require_open_def)

text \<open>
  C7: The engine fails closed. When a handler raises, either it refused the input at its guards, with
  a \<open>PaperEngineError\<close> and the state untouched, or the run is marked as failed; and a failed run
  refuses every further input with the state untouched.
\<close>
theorem raising_handler_fails_closed:
  assumes "feed i e = Raise ex e'"
  shows "(e' = e \<and> (\<exists>msg. ex = PaperEngineError msg)) \<or>
    (en_failed e' \<and> (\<forall>inputs. inputs \<noteq> [] \<longrightarrow>
       feeds inputs e' = Raise (PaperEngineError ''run failed mid-event; start a new run_id.'') e'))"
proof -
  have "e' = e \<and> (\<exists>msg. ex = PaperEngineError msg) \<or> en_failed e'"
    using assms
    by (cases i) (auto simp: on_event_def on_clock_def require_open_def check_event_def Let_def
        dest: fail_closed_Raise split: if_splits)
  moreover have "feeds inputs e' = Raise (PaperEngineError ''run failed mid-event; start a new run_id.'') e'"
    if "en_failed e'" "inputs \<noteq> []" for inputs
    using that by (cases inputs) (simp_all add: failed_refuses)
  ultimately show ?thesis by blast
qed

section \<open>Stale data\<close>

text \<open>The rest of a handler keeps \<open>FLATTEN_HALT\<close>.\<close>

abbreviation halting :: "'s engine \<Rightarrow> (unit, 's engine) outcome \<Rightarrow> bool" where
  "halting e m \<equiv> sound e \<and> en_kill e = FLATTEN_HALT \<longrightarrow> okay (\<lambda>_ e'. sound e' \<and> en_kill e' = FLATTEN_HALT) m"

lemma halting_seq: "halting e m \<Longrightarrow> (\<And>e'. halting e' (f e')) \<Longrightarrow> halting e (seq m f)"
  by (cases m) auto

lemma quiet_halted: "quiet e e' \<Longrightarrow> en_kill e = FLATTEN_HALT \<Longrightarrow> en_kill e' = FLATTEN_HALT"
  by (auto simp: quiet_def quiet_by_def)

lemma halting_quiet: "quietly e m \<Longrightarrow> halting e m"
  by (cases m) (auto intro: quiet_sound quiet_halted)

lemma halting_enforce: "halting e (enforce_flat ns e)"
proof
  assume "sound e \<and> en_kill e = FLATTEN_HALT"
  then show "okay (\<lambda>_ e'. sound e' \<and> en_kill e' = FLATTEN_HALT) (enforce_flat ns e)"
    using well_enforce [of e ns] by (cases "enforce_flat ns e") (auto simp: good_def)
qed

lemma halting_persist: "halting e (persist t e)"
  using calmly_persist [of e t] by (intro halting_quiet) (cases "persist t e", auto simp: calm_def)

lemma halting_seen: "halting e (mark_if_seen e)"
  by (intro halting_quiet) (simp add: mark_if_seen_def quietly_limits split: option.split)

lemma flatten_halt_sets:
  "sound e \<Longrightarrow> okay (\<lambda>_ e'. sound e' \<and> en_kill e' = FLATTEN_HALT) (flatten_halt reason e)"
  using quietly_kill(2) [of e reason]
  by (cases "flatten_halt reason e")
    (auto simp: flatten_halt_def emit_def on_store_def intro: quiet_sound split: if_splits outcome.splits)

lemma after_flatten_halt:
  assumes "sound e" "\<And>e. halting e (f e)"
  shows "okay (\<lambda>_ e'. en_kill e' = FLATTEN_HALT) (seq (flatten_halt reason e) f)"
proof (cases "flatten_halt reason e")
  case (Ok u e1)
  with flatten_halt_sets [OF assms(1), of reason] have "sound e1 \<and> en_kill e1 = FLATTEN_HALT" by simp
  with assms(2) [of e1] Ok show ?thesis by (cases "f e1") auto
qed simp

fun stale_input :: "input \<Rightarrow> 's engine \<Rightarrow> bool" where
  "stale_input (Event event) e = stale_gap (received_utc_ns event) e"
| "stale_input (Clock now observed) e =
     (now - (case en_last_data_ns e of None \<Rightarrow> en_created_ns e | Some l \<Rightarrow> l) > cf_stale_after_ns (en_config e))"

lemma clock_fields:
  "en_config (advance_source_clock now e) = en_config e"
  "stale_gap ns (advance_source_clock now e) = stale_gap ns e"
  by (simp_all add: advance_source_clock_def stale_gap_def split: option.split)

lemma reachable_clock_sound: "reachable e \<Longrightarrow> sound (advance_source_clock now e)"
  using reachable_sound [of e] calm_clock [of e now] by (auto simp: calm_def intro: quiet_sound)

lemma halting_stale_event:
  "halting e (seq (enforce_flat ns (note_event ev e)) (persist t))"
proof -
  have "halting e (skip (note_event ev e))" by (rule halting_quiet) (simp add: quiet_note)
  moreover have "halting e' (seq (enforce_flat ns e') (persist t))" for e'
    by (rule halting_seq [OF halting_enforce halting_persist])
  ultimately have "halting e (seq (skip (note_event ev e)) (\<lambda>e'. seq (enforce_flat ns e') (persist t)))"
    by (rule halting_seq)
  then show ?thesis by simp
qed

lemma halting_skip: "halting e (skip e)"
  by simp

text \<open>
  C8: Stale data always halts the run. A clock tick, or an event after an earlier one, that comes
  later than the staleness limit after the last data and returns leaves the kill switch at
  \<open>FLATTEN_HALT\<close>.
\<close>
theorem stale_data_halts:
  assumes "reachable e" "feed i e = Ok () e'" "stale_input i e"
  shows "en_kill e' = FLATTEN_HALT"
proof (cases i)
  case (Event ev)
  let ?ns = "received_utc_ns ev"
  from Event assms(2) have adv: "advance ev e = Ok () e'" by (auto elim: on_event_OkE)
  from Event assms(3) have stale: "stale_gap ?ns (advance_source_clock ?ns e)" by (simp add: clock_fields)
  have "okay (\<lambda>_ e'. en_kill e' = FLATTEN_HALT) (advance ev e)"
    unfolding advance_def Let_def if_P [OF stale]
    by (rule after_flatten_halt [OF reachable_clock_sound [OF assms(1)] halting_stale_event])
  with adv show ?thesis by simp
next
  case (Clock now observed)
  from Clock assms(2,3) obtain anchor where t: "tick now anchor observed e = Ok () e'"
    and stale: "cf_stale_after_ns (en_config e) < now - anchor"
    by (auto elim!: on_clock_OkE)
  have "okay (\<lambda>_ e'. en_kill e' = FLATTEN_HALT) (tick now anchor observed e)"
    unfolding tick_def Let_def clock_fields if_P [OF stale]
    by (intro after_flatten_halt [OF reachable_clock_sound [OF assms(1)]] halting_seq halting_seen
        halting_persist) (simp_all add: stale halting_enforce halting_seq halting_seen)
  with t show ?thesis by simp
qed

section \<open>Witnesses\<close>

text \<open>The demonstration run: after the fill, after the stale tick, and on the failing disk.\<close>

lemma demo_filled:
  obtains e1 e2 :: "unit engine" where "reachable e1" "position_of e1 = 1 / 100" "en_kill e1 = NONE"
    "en_fill_count e1 = 1" "feed (Clock 20000000000 20000000) e1 = Ok () e2"
    "position_of e2 = 1 / 100" "en_kill e2 = FLATTEN_HALT"
proof -
  from demo_trade obtain e d e1 e2 where "demo_open (\<lambda>_. Io_Ok) = Ok e d"
    and 1: "on_event (demo_bbo 1000000 50000 50001) e = Ok () e1"
    and 2: "position_of e1 = 1 / 100" "en_kill e1 = NONE" "en_fill_count e1 = 1"
      "on_clock 20000000000 20000000 e1 = Ok () e2" "position_of e2 = 1 / 100" "en_kill e2 = FLATTEN_HALT"
    by (auto split: outcome.splits)
  then have "reachable e" by (blast intro: demo_reachable)
  then have "reachable e1" by (rule reachable.fed [where i = "Event (demo_bbo 1000000 50000 50001)"]) (simp add: 1)
  with 2 show ?thesis by (intro that [of e1 e2]) simp_all
qed

lemma demo_halted:
  obtains e e1 e2 :: "unit engine" and d where "demo_open (\<lambda>_. Io_Ok) = Ok e d" "reachable e" "reachable e1"
    "feed (Clock 20000000000 20000000) e = Ok () e1" "en_kill e1 = FLATTEN_HALT"
    "feed (Clock 21000000000 21000000) e1 = Ok () e2"
proof -
  from demo_stale obtain e d e1 e2 where 1: "demo_open (\<lambda>_. Io_Ok) = Ok e d"
    "on_clock 20000000000 20000000 e = Ok () e1" "en_kill e1 = FLATTEN_HALT"
    "on_clock 21000000000 21000000 e1 = Ok () e2"
    by (auto split: outcome.splits)
  then have "reachable e" by (blast intro: demo_reachable)
  moreover from this have "reachable e1"
    by (rule reachable.fed [where i = "Clock 20000000000 20000000"]) (simp add: 1)
  ultimately show ?thesis using 1 by (intro that [of e d e1 e2]) simp_all
qed

theorem run_stays_within_limits_witness:
  "\<exists>e :: unit engine. reachable e \<and> position_of e = 1 / 100
     \<and> \<bar>position_of e\<bar> \<le> cf_max_position_quantity (en_config e)"
  using run_stays_within_limits demo_filled by metis

theorem orders_answered_in_order_witness:
  "\<exists>e :: unit engine. reachable e \<and> position_of e = 1 / 100
     \<and> distinct (map wo_client_order_id (select accepted (engine_history e)))"
  using orders_answered_in_order demo_filled by metis

theorem position_is_ledger_replay_witness:
  "\<exists>e :: unit engine. reachable e \<and> ps_position_quantity (en_position e) = 1 / 100
     \<and> replay_fills (opening_position (en_config e)) (select fill_records (engine_history e)) = Inr (en_position e)"
  using position_is_ledger_replay demo_filled by metis

theorem every_fill_honours_an_order_witness:
  "\<exists>(e :: unit engine) f w. reachable e \<and> f \<in> set (select fill_records (engine_history e))
     \<and> w \<in> set (select accepted (engine_history e)) \<and> fq_quantity (fr_quote f) \<le> wo_quantity w"
proof -
  obtain e :: "unit engine" where e: "reachable e" "en_fill_count e = 1" using demo_filled by metis
  then have "length (select fill_records (engine_history e)) = 1"
    using records.always [of e] by (simp add: recorded_def tallied_def)
  then obtain f where "f \<in> set (select fill_records (engine_history e))"
    by (cases "select fill_records (engine_history e)") auto
  with every_fill_honours_an_order [OF e(1) this] e show ?thesis by blast
qed

theorem state_is_ledger_projection_witness:
  "\<exists>e :: unit engine. reachable e \<and> length (select fill_records (engine_history e)) = 1
     \<and> kill_after NONE (engine_history e) = NONE"
  using state_is_ledger_projection demo_filled by metis

theorem open_position_has_stop_witness:
  "\<exists>e :: unit engine. reachable e \<and> position_of e = 1 / 100 \<and> en_stop_price e \<noteq> None"
proof -
  obtain e :: "unit engine" where e: "reachable e" "position_of e = 1 / 100" using demo_filled by metis
  with open_position_has_stop [OF e(1)] show ?thesis by force
qed

theorem run_moves_forward_witness:
  "\<exists>e e' :: unit engine. reachable e \<and> feeds [Clock 20000000000 20000000] e = Ok () e' \<and> en_peak e \<le> en_peak e'"
proof -
  obtain e e' :: "unit engine" where e: "reachable e" "feed (Clock 20000000000 20000000) e = Ok () e'"
    using demo_filled by metis
  then have "feeds [Clock 20000000000 20000000] e = Ok () e'" by simp
  with run_moves_forward [OF e(1) this] e(1) show ?thesis by blast
qed

theorem halted_run_winds_down_witness:
  "\<exists>e e' :: unit engine. reachable e \<and> en_kill e = FLATTEN_HALT
     \<and> feeds [Clock 21000000000 21000000] e = Ok () e' \<and> \<bar>position_of e'\<bar> \<le> \<bar>position_of e\<bar>"
proof -
  obtain e e' :: "unit engine" where e: "reachable e" "en_kill e = FLATTEN_HALT"
    "feed (Clock 21000000000 21000000) e = Ok () e'" using demo_halted by metis
  then have "feeds [Clock 21000000000 21000000] e = Ok () e'" by simp
  with halted_run_winds_down [OF e(1,2) this] e(1,2) show ?thesis by blast
qed

theorem handlers_refine_machine_witness:
  "\<exists>e e' :: unit engine. reachable e \<and> position_of e = 1 / 100 \<and> micro\<^sup>*\<^sup>* e e' \<and> en_kill e' = FLATTEN_HALT"
  using handlers_refine_machine demo_filled by metis

theorem raising_handler_fails_closed_witness:
  "\<exists>(e :: unit engine) e' ex. feed (Clock 20000000000 20000000) e = Raise ex e' \<and> en_failed e'
     \<and> feeds [Clock 21000000000 21000000] e'
         = Raise (PaperEngineError ''run failed mid-event; start a new run_id.'') e'"
proof -
  from demo_broken obtain e d ex and e' :: "unit engine" where o: "demo_open demo_disk = Ok e d"
    "on_clock 20000000000 20000000 e = Raise ex e'" "en_failed e'"
    by (auto split: outcome.splits)
  have f: "feed (Clock 20000000000 20000000) e = Raise ex e'" using o(2) by simp
  have "\<not> en_failed e" using open_engine_open [OF o(1) [unfolded demo_open_def]] by (simp add: run_open_def)
  with raising_handler_fails_closed [OF f] o(3) f show ?thesis by blast
qed

theorem stale_data_halts_witness:
  "\<exists>e e' :: unit engine. reachable e \<and> stale_input (Clock 20000000000 20000000) e
     \<and> feed (Clock 20000000000 20000000) e = Ok () e' \<and> en_kill e' = FLATTEN_HALT"
proof -
  obtain e e' :: "unit engine" and d where e: "demo_open (\<lambda>_. Io_Ok) = Ok e d" "reachable e"
    "feed (Clock 20000000000 20000000) e = Ok () e'" using demo_halted by metis
  have "stale_input (Clock 20000000000 20000000) e"
    using demo_age unfolding e(1) by simp
  with stale_data_halts [OF e(2,3) this] e(2,3) show ?thesis by blast
qed

end
