(* ===== verification/OfflineInputs.thy ===== *)
theory OfflineInputs
  imports Replay "HOL-Library.Sublist"
begin

text \<open>
  \<^verbatim>\<open>paper_engine/offline_inputs.py\<close>: the bounded snapshot of the input parts and the preflight of
  their rows. What the operating system answers is a parameter: a part is what opening it shows (the
  device and mount of each directory on the way, whether it is a regular file, its signature before
  and after, and what its reads return one after the other), the digest is a function \<open>sha\<close> from
  bytes to text, bytes are a \<open>string\<close>, and DuckDB a record of the result sets the code fetches. Proved:
  the copy loop ends after at most one read more than the file has bytes and returns the whole file;
  the snapshots are of distinct files with distinct content, within the bounds, and each digest is
  that of its copy; a part never leaves its root; a preflight that passes keeps every bound.
\<close>

section \<open>Limits and paths\<close>

record replay_limits =
  ol_files :: int
  ol_physical_bytes :: int
  ol_uncompressed_bytes :: int
  ol_payload_bytes :: int
  ol_rows :: int
  ol_events :: int

definition DEFAULT_REPLAY_LIMITS :: replay_limits where
  "DEFAULT_REPLAY_LIMITS = \<lparr>ol_files = 4, ol_physical_bytes = 16 * 1024 * 1024,
     ol_uncompressed_bytes = 64 * 1024 * 1024, ol_payload_bytes = 16 * 1024 * 1024,
     ol_rows = 5000, ol_events = 2000\<rparr>"

definition limit_ok :: "string \<Rightarrow> int \<Rightarrow> int \<Rightarrow> bool \<times> exn" where
  "limit_ok name maximum v =
     (1 \<le> v \<and> v \<le> maximum,
      OfflineInputError (name @ '' must be a positive integer at most '' @ int_text maximum @ ''.''))"

definition make_replay_limits :: "replay_limits \<Rightarrow> replay_limits result" where
  "make_replay_limits lm =
     res_bind (checks
       [limit_ok ''files'' 4 (ol_files lm),
        limit_ok ''physical_bytes'' (16 * 1024 * 1024) (ol_physical_bytes lm),
        limit_ok ''uncompressed_bytes'' (64 * 1024 * 1024) (ol_uncompressed_bytes lm),
        limit_ok ''payload_bytes'' (16 * 1024 * 1024) (ol_payload_bytes lm),
        limit_ok ''rows'' 5000 (ol_rows lm),
        limit_ok ''events'' 2000 (ol_events lm)]) (\<lambda>_. Inr lm)"

definition path_absolute :: "path \<Rightarrow> bool" where
  "path_absolute p \<longleftrightarrow> p \<noteq> [] \<and> take 1 (p ! 0) = ''/''"

definition absolute :: "path \<Rightarrow> path result" where
  "absolute p =
     (if \<not> path_absolute p \<or> ''..'' \<in> set p
      then Inl (OfflineInputError ''Explicit absolute roots without parent traversal are required.'')
      else Inr p)"

text \<open>\<open>Path(text)\<close>: empty and single-dot components are dropped, the leading slash is a part.\<close>

fun split_on :: "char \<Rightarrow> string \<Rightarrow> string list" where
  "split_on c [] = [[]]"
| "split_on c (x # s) =
     (if x = c then [] # split_on c s
      else (case split_on c s of [] \<Rightarrow> [[x]] | w # ws \<Rightarrow> (x # w) # ws))"

definition path_of_text :: "string \<Rightarrow> path" where
  "path_of_text s =
     (if take 1 s = ''/'' then [if take 2 s = ''//'' \<and> take 3 s \<noteq> ''///'' then ''//'' else ''/''] else [])
     @ filter (\<lambda>w. w \<noteq> [] \<and> w \<noteq> ''.'') (split_on (CHR ''/'') s)"

definition ascii_alnum :: "char \<Rightarrow> bool" where
  "ascii_alnum c =
     (let n = (of_char c :: int)
      in (48 \<le> n \<and> n \<le> 57) \<or> (65 \<le> n \<and> n \<le> 90) \<or> (97 \<le> n \<and> n \<le> 122))"

text \<open>The pattern \<^verbatim>\<open>[A-Za-z0-9][A-Za-z0-9._=-]*\<close> with \<open>fullmatch\<close>.\<close>

fun part_name :: "string \<Rightarrow> bool" where
  "part_name [] = False"
| "part_name (c # s) = (ascii_alnum c \<and> list_all (\<lambda>c. ascii_alnum c \<or> c \<in> set ''._=-'') s)"

definition relative_part :: "string \<Rightarrow> path result" where
  "relative_part text =
     (let p = path_of_text text
      in if text = [] \<or> path_absolute p \<or> ''..'' \<in> set p \<or> path_suffix p \<noteq> ''.parquet''
            \<or> 512 < length text
            \<or> list_ex (\<lambda>w. \<not> part_name w \<or> sublist ''.partial'' (map lower w)) p
         then Inl (OfflineInputError ''Parts must be explicit relative completed non-hidden .parquet paths.'')
         else Inr p)"

section \<open>Mounts\<close>

record mount_identity =
  mi_target :: path
  mi_source :: string
  mi_filesystem :: string
  mi_device :: string
  mi_mount_id :: string

definition LOCAL_FILESYSTEMS :: "string list" where
  "LOCAL_FILESYSTEMS = [''ext4'', ''xfs'', ''btrfs'', ''tmpfs'', ''overlay'', ''zfs'']"

text \<open>The mount table, and the device text and mount id of the descriptor, are arguments.\<close>

definition descriptor_mount :: "mount_identity list \<Rightarrow> string \<Rightarrow> string \<Rightarrow> mount_identity result" where
  "descriptor_mount mounts device mount_id =
     (case filter (\<lambda>m. mi_mount_id m = mount_id \<and> mi_device m = device) mounts of
        [m] \<Rightarrow> Inr m
      | _ \<Rightarrow> Inl (OfflineInputError ''Directory descriptor has no unique kernel mount identity.''))"

definition require_local :: "mount_identity list \<Rightarrow> string \<Rightarrow> string \<Rightarrow> mount_identity result" where
  "require_local mounts device mount_id =
     res_bind (descriptor_mount mounts device mount_id) (\<lambda>m.
     if mi_filesystem m \<notin> set LOCAL_FILESYSTEMS
     then Inl (OfflineInputError ''Local fixture/scratch storage must use an explicitly supported local filesystem.'')
     else Inr m)"

section \<open>Parts\<close>

text \<open>Device, inode, size, modification and change time.\<close>

type_synonym file_signature = "int \<times> int \<times> int \<times> int \<times> int"

definition sig_file :: "file_signature \<Rightarrow> int \<times> int" where
  "sig_file sg = (fst sg, fst (snd sg))"

definition sig_size :: "file_signature \<Rightarrow> int" where
  "sig_size sg = fst (snd (snd sg))"

text \<open>
  What one opening of a part shows. Each component of the walk is opened (or raises) and has a device
  and a mount id; \<open>pv_reads k\<close> is what the read number \<open>k\<close> has available, or the exception it, or
  the writing of its block to the copy, raises.
\<close>

record part_view =
  pv_walk :: "(int \<times> string) result list"
  pv_regular :: bool
  pv_before :: file_signature
  pv_reads :: "nat \<Rightarrow> string result"
  pv_after :: file_signature

fun walk_inside :: "int \<times> string \<Rightarrow> (int \<times> string) result list \<Rightarrow> unit result" where
  "walk_inside origin [] = Inr ()"
| "walk_inside origin (Inl ex # walk) = Inl ex"
| "walk_inside origin (Inr actual # walk) =
     (if actual \<noteq> origin then Inl (OfflineInputError ''Input crosses a changed or nested mount.'')
      else walk_inside origin walk)"

definition part_descriptor :: "int \<times> string \<Rightarrow> part_view \<Rightarrow> unit result" where
  "part_descriptor origin v =
     res_bind (walk_inside origin (pv_walk v)) (\<lambda>_.
     guard (pv_regular v) (OfflineInputError ''Input part must be a regular file.''))"

text \<open>The copy loop of \<open>hash_descriptor\<close>, with the bytes read so far.\<close>

function hash_loop :: "(nat \<Rightarrow> string result) \<Rightarrow> nat \<Rightarrow> nat \<Rightarrow> string \<Rightarrow> string result" where
  "hash_loop reads len k acc =
     (case reads k of
        Inl ex \<Rightarrow> Inl ex
      | Inr available \<Rightarrow>
          (let block = take (min 65536 (len + 1 - length acc)) available
           in if block = [] then
                (if length acc \<noteq> len then Inl (OfflineInputError ''Input was truncated during the snapshot.'')
                 else Inr acc)
              else if len < length acc + length block
              then Inl (OfflineInputError ''Input grew during the bounded snapshot.'')
              else hash_loop reads len (Suc k) (acc @ block)))"
  by pat_completeness auto

termination
proof (relation "measure (\<lambda>(reads, len, k, acc). len - length acc)", goal_cases)
  case (2 reads len k acc available block)
  then have "0 < length block" by simp
  with 2(4) have "len - length (acc @ block) < len - length acc" unfolding length_append by linarith
  then show ?case by simp
qed simp

declare hash_loop.simps [simp del]

text \<open>The digest, and the bytes of the copy.\<close>

definition hash_descriptor ::
  "(string \<Rightarrow> string) \<Rightarrow> (nat \<Rightarrow> string result) \<Rightarrow> int \<Rightarrow> (string \<times> string) result" where
  "hash_descriptor sha reads len =
     res_bind (hash_loop reads (nat len) 0 []) (\<lambda>content. Inr (sha content, content))"

record input_snapshot =
  is_relative :: path
  is_path :: path
  is_signature :: file_signature
  is_sha256 :: string

definition snapshot_claim :: "input_snapshot \<Rightarrow> json" where
  "snapshot_claim sn = JObject
     [(''part'', JText (as_posix (is_relative sn))), (''bytes'', JInt (sig_size (is_signature sn))),
      (''sha256'', JText (is_sha256 sn))]"

section \<open>Snapshots\<close>

text \<open>
  The body of the loop for one part; \<open>copies\<close> are the files written so far, the snapshots carry the
  identities and digests seen so far.
\<close>

definition snapshot_part ::
  "(string \<Rightarrow> string) \<Rightarrow> int \<times> string \<Rightarrow> (path \<Rightarrow> part_view) \<Rightarrow> path \<Rightarrow> replay_limits \<Rightarrow> path
    \<Rightarrow> input_snapshot list \<times> string list \<times> int \<Rightarrow> (input_snapshot list \<times> string list \<times> int) result" where
  "snapshot_part sha origin open_part staging lm relative = (\<lambda>(snapshots, copies, total).
     let v = open_part relative; before = pv_before v; total = total + sig_size before
     in res_bind (part_descriptor origin v) (\<lambda>_.
        if sig_file before \<in> set (map (\<lambda>s. sig_file (is_signature s)) snapshots) \<or> sig_size before < 1
        then Inl (OfflineInputError ''Duplicate file identity or empty input part.'')
        else if ol_physical_bytes lm < total
        then Inl (OfflineInputError ''Physical input byte bound exceeded.'')
        else res_bind (hash_descriptor sha (pv_reads v) (sig_size before)) (\<lambda>(digest, content).
          if pv_after v \<noteq> before
          then Inl (OfflineInputError ''Input changed while copying to local staging.'')
          else if digest \<in> set (map is_sha256 snapshots)
          then Inl (OfflineInputError ''Duplicate input content is not a second part.'')
          else Inr (snapshots @ [\<lparr>is_relative = relative,
              is_path = staging @ [''part-'' @ zero_pad 6 (nat_text (length snapshots)) @ ''.parquet''],
              is_signature = before, is_sha256 = digest\<rparr>], copies @ [content], total))))"

fun snapshot_loop ::
  "(path \<Rightarrow> input_snapshot list \<times> string list \<times> int \<Rightarrow> (input_snapshot list \<times> string list \<times> int) result)
    \<Rightarrow> path list \<Rightarrow> input_snapshot list \<times> string list \<times> int
    \<Rightarrow> (input_snapshot list \<times> string list \<times> int) result" where
  "snapshot_loop body [] st = Inr st"
| "snapshot_loop body (p # ps) st = res_bind (body p st) (snapshot_loop body ps)"

definition snapshot_parts ::
  "(string \<Rightarrow> string) \<Rightarrow> int \<times> string \<Rightarrow> (path \<Rightarrow> part_view) \<Rightarrow> path list \<Rightarrow> path \<Rightarrow> replay_limits
    \<Rightarrow> (input_snapshot list \<times> string list) result" where
  "snapshot_parts sha origin open_part parts staging lm =
     (if \<not> (1 \<le> int (length parts) \<and> int (length parts) \<le> ol_files lm) \<or> \<not> distinct parts
      then Inl (OfflineInputError ''Explicit part count/uniqueness exceeds the input bound.'')
      else res_bind (snapshot_loop (snapshot_part sha origin open_part staging lm) parts ([], [], 0))
        (\<lambda>(snapshots, copies, total). Inr (snapshots, copies)))"

text \<open>The parts are opened again after the replay.\<close>

definition revalidate_part ::
  "(string \<Rightarrow> string) \<Rightarrow> int \<times> string \<Rightarrow> (path \<Rightarrow> part_view) \<Rightarrow> input_snapshot \<Rightarrow> unit result" where
  "revalidate_part sha origin open_part sn =
     (let v = open_part (is_relative sn)
      in res_bind (part_descriptor origin v) (\<lambda>_.
         if pv_before v \<noteq> is_signature sn
         then Inl (OfflineInputError ''Input identity changed after the snapshot.'')
         else res_bind (hash_descriptor sha (pv_reads v) (sig_size (is_signature sn))) (\<lambda>(digest, content).
           guard (digest = is_sha256 sn \<and> pv_after v = is_signature sn)
             (OfflineInputError ''Input bytes changed after the snapshot.''))))"

definition revalidate_parts ::
  "(string \<Rightarrow> string) \<Rightarrow> int \<times> string \<Rightarrow> (path \<Rightarrow> part_view) \<Rightarrow> input_snapshot list \<Rightarrow> unit result" where
  "revalidate_parts sha origin open_part snapshots =
     res_bind (traverse (revalidate_part sha origin open_part) snapshots) (\<lambda>_. Inr ())"

section \<open>The copy loop\<close>

lemma hash_loop_read:
  assumes "reads k = Inr available" "block = take (min 65536 (len + 1 - length acc)) available"
  shows "hash_loop reads len k acc =
    (if block = [] then
       (if length acc \<noteq> len then Inl (OfflineInputError ''Input was truncated during the snapshot.'') else Inr acc)
     else if len < length acc + length block
     then Inl (OfflineInputError ''Input grew during the bounded snapshot.'')
     else hash_loop reads len (Suc k) (acc @ block))"
  unfolding hash_loop.simps [of reads len k acc] assms(1) sum.case Let_def assms(2) [symmetric] ..

lemma hash_loop_cong:
  "\<forall>j. k \<le> j \<and> j \<le> k + (len - length acc) \<longrightarrow> reads j = reads' j \<Longrightarrow> length acc \<le> len \<Longrightarrow>
     hash_loop reads len k acc = hash_loop reads' len k acc"
proof (induction reads len k acc rule: hash_loop.induct)
  case (1 reads len k acc)
  have k: "reads k = reads' k" using 1(2) by simp
  show ?case
  proof (cases "reads k")
    case (Inl ex)
    with k have "reads' k = Inl ex" by simp
    with Inl show ?thesis by (simp add: hash_loop.simps [of _ _ k])
  next
    case (Inr available)
    define block where "block = take (min 65536 (len + 1 - length acc)) available"
    from Inr k have r: "reads k = Inr available" "reads' k = Inr available" by simp_all
    show ?thesis
    proof (cases "block = [] \<or> len < length acc + length block")
      case True
      then show ?thesis
        unfolding hash_loop_read [where reads = reads and k = k and acc = acc, OF r(1) block_def]
          hash_loop_read [where reads = reads' and k = k and acc = acc, OF r(2) block_def]
        by auto
    next
      case False
      then have more: "0 < length block" "length acc + length block \<le> len" by simp_all
      have next_reads: "\<forall>j. Suc k \<le> j \<and> j \<le> Suc k + (len - length (acc @ block)) \<longrightarrow> reads j = reads' j"
      proof (intro allI impI)
        fix j assume j: "Suc k \<le> j \<and> j \<le> Suc k + (len - length (acc @ block))"
        then have "k \<le> j \<and> j \<le> k + (len - length acc)" using more unfolding length_append by linarith
        with 1(2) show "reads j = reads' j" by blast
      qed
      from 1(1) [OF Inr block_def _ _ next_reads] False
      have "hash_loop reads len (Suc k) (acc @ block) = hash_loop reads' len (Suc k) (acc @ block)" by simp
      with False show ?thesis
        unfolding hash_loop_read [where reads = reads and k = k and acc = acc, OF r(1) block_def]
          hash_loop_read [where reads = reads' and k = k and acc = acc, OF r(2) block_def]
        by simp
    qed
  qed
qed

lemma hash_loop_Inr:
  "hash_loop reads len k acc = Inr content \<Longrightarrow> length acc \<le> len \<Longrightarrow> length content = len"
proof (induction reads len k acc rule: hash_loop.induct)
  case (1 reads len k acc)
  then show ?case
    unfolding hash_loop.simps [of reads len k acc]
    by (auto simp: Let_def not_less split: sum.splits if_splits)
qed

lemma hash_descriptor_Inr:
  "hash_descriptor sha reads len = Inr (digest, content) \<Longrightarrow> 0 \<le> len \<Longrightarrow>
     digest = sha content \<and> int (length content) = len"
  by (auto simp: hash_descriptor_def res_bind_Inr_iff dest: hash_loop_Inr)

text \<open>
  C39: The bounded copy always ends. Hashing a part of \<open>n\<close> bytes makes at most \<open>n + 1\<close> reads, whatever
  they return: two openings that agree on these reads give the same result. When it returns, the copy
  has exactly \<open>n\<close> bytes and the digest is that of the copy.
\<close>
theorem bounded_copy_ends:
  assumes "\<forall>k \<le> n. reads k = reads' k"
  shows "hash_descriptor sha reads (int n) = hash_descriptor sha reads' (int n)
    \<and> (\<forall>digest content. hash_descriptor sha reads' (int n) = Inr (digest, content) \<longrightarrow>
         digest = sha content \<and> length content = n)"
proof -
  have "hash_loop reads n 0 [] = hash_loop reads' n 0 []" by (rule hash_loop_cong) (use assms in simp_all)
  then show ?thesis by (auto simp: hash_descriptor_def [of sha] res_bind_Inr_iff dest: hash_loop_Inr)
qed

text \<open>A file that is read in pieces, and the end of file from then on.\<close>

definition file_reads :: "string list \<Rightarrow> nat \<Rightarrow> string result" where
  "file_reads pieces k = Inr (if k < length pieces then pieces ! k else [])"

theorem bounded_copy_ends_witness:
  "hash_descriptor rev (file_reads [''ab'', ''c'']) (int 3) = Inr (''cba'', ''abc'')
   \<and> hash_descriptor rev (\<lambda>k. if k < 4 then file_reads [''ab'', ''c''] k else Inl (OSError ''read'')) (int 3)
     = Inr (''cba'', ''abc'')"
proof -
  let ?r = "\<lambda>k. if k < 4 then file_reads [''ab'', ''c''] k else Inl (OSError ''read'')"
  have "hash_loop (file_reads [''ab'', ''c'']) 3 0 [] = Inr ''abc''"
    by (simp add: hash_loop.simps file_reads_def)
  then have "hash_descriptor rev (file_reads [''ab'', ''c'']) (int 3) = Inr (''cba'', ''abc'')"
    by (simp add: hash_descriptor_def res_bind_def)
  with bounded_copy_ends [of 3 ?r "file_reads [''ab'', ''c'']" rev] show ?thesis by simp
qed

section \<open>What the snapshots hold\<close>

definition snapshots_ok ::
  "(string \<Rightarrow> string) \<Rightarrow> replay_limits \<Rightarrow> input_snapshot list \<times> string list \<times> int \<Rightarrow> bool" where
  "snapshots_ok sha lm = (\<lambda>(snapshots, copies, total).
     list_all2 (\<lambda>s c. is_sha256 s = sha c \<and> int (length c) = sig_size (is_signature s) \<and> c \<noteq> []) snapshots copies
     \<and> distinct (map (\<lambda>s. sig_file (is_signature s)) snapshots)
     \<and> distinct (map is_sha256 snapshots)
     \<and> total = sum_list (map (\<lambda>s. sig_size (is_signature s)) snapshots)
     \<and> (snapshots \<noteq> [] \<longrightarrow> total \<le> ol_physical_bytes lm))"

lemma snapshot_part_ok:
  assumes "snapshot_part sha origin open_part staging lm p st = Inr st'" "snapshots_ok sha lm st"
  shows "snapshots_ok sha lm st' \<and> map is_relative (fst st') = map is_relative (fst st) @ [p]"
  using assms
  by (cases st)
    (auto simp: snapshot_part_def Let_def res_bind_Inr_iff snapshots_ok_def not_less
      dest!: hash_descriptor_Inr split: if_splits intro!: list_all2_appendI)

lemma snapshot_loop_ok:
  "snapshot_loop (snapshot_part sha origin open_part staging lm) ps st = Inr st' \<Longrightarrow> snapshots_ok sha lm st \<Longrightarrow>
     snapshots_ok sha lm st' \<and> map is_relative (fst st') = map is_relative (fst st) @ ps"
proof (induction ps arbitrary: st)
  case (Cons p ps)
  then obtain st1 where "snapshot_part sha origin open_part staging lm p st = Inr st1"
    "snapshot_loop (snapshot_part sha origin open_part staging lm) ps st1 = Inr st'"
    by (auto simp: res_bind_Inr_iff)
  with snapshot_part_ok [OF this(1) Cons.prems(2)] Cons.IH [of st1] show ?case by simp
qed simp

text \<open>
  C37: A snapshot is what it claims. When the parts are copied, there is one snapshot for each part in
  order, of distinct files with distinct digests; each digest is that of the copy made, which is not
  empty and has exactly the claimed number of bytes; and the parts together, at most the allowed
  number of them, stay within the physical byte bound.
\<close>
theorem snapshots_bind_their_copies:
  assumes "snapshot_parts sha origin open_part parts staging lm = Inr (snapshots, copies)"
  shows "map is_relative snapshots = parts \<and> int (length parts) \<le> ol_files lm
    \<and> distinct (map (\<lambda>s. sig_file (is_signature s)) snapshots) \<and> distinct (map is_sha256 snapshots)
    \<and> list_all2 (\<lambda>s c. is_sha256 s = sha c \<and> int (length c) = sig_size (is_signature s) \<and> c \<noteq> []) snapshots copies
    \<and> int (length (concat copies)) \<le> ol_physical_bytes lm"
proof -
  from assms have "parts \<noteq> []" by (auto simp: snapshot_parts_def)
  moreover from assms obtain total where l: "int (length parts) \<le> ol_files lm"
    "snapshot_loop (snapshot_part sha origin open_part staging lm) parts ([], [], 0) = Inr (snapshots, copies, total)"
    by (auto simp: snapshot_parts_def res_bind_Inr_iff split: if_splits)
  have "snapshots_ok sha lm ([], [], 0)" by (simp add: snapshots_ok_def)
  from snapshot_loop_ok [OF l(2) this] have ok: "snapshots_ok sha lm (snapshots, copies, total)"
    and rel: "map is_relative snapshots = parts" by simp_all
  from ok have a: "list_all2 (\<lambda>s c. is_sha256 s = sha c \<and> int (length c) = sig_size (is_signature s) \<and> c \<noteq> [])
      snapshots copies" by (simp add: snapshots_ok_def)
  then have "int (length (concat copies)) = sum_list (map (\<lambda>s. sig_size (is_signature s)) snapshots)"
    by (induction rule: list_all2_induct) simp_all
  with ok rel l(1) a \<open>parts \<noteq> []\<close> show ?thesis by (auto simp: snapshots_ok_def)
qed

text \<open>Two small files on one mount.\<close>

definition example_view :: "int \<Rightarrow> string list \<Rightarrow> part_view" where
  "example_view inode pieces = \<lparr>pv_walk = [Inr (1, ''7'')], pv_regular = True,
     pv_before = (1, inode, int (length (concat pieces)), 0, 0), pv_reads = file_reads pieces,
     pv_after = (1, inode, int (length (concat pieces)), 0, 0)\<rparr>"

definition example_parts :: "path \<Rightarrow> part_view" where
  "example_parts p = (if p = [''a.parquet''] then example_view 10 [''ab'', ''c''] else example_view 11 [''d''])"

theorem snapshots_bind_their_copies_witness:
  "\<exists>snapshots. snapshot_parts rev (1, ''7'') example_parts [[''a.parquet''], [''b.parquet'']] [''/'', ''tmp'']
      DEFAULT_REPLAY_LIMITS = Inr (snapshots, [''abc'', ''d'']) \<and> distinct (map is_sha256 snapshots)"
proof -
  let ?x = "snapshot_parts rev (1, ''7'') example_parts [[''a.parquet''], [''b.parquet'']] [''/'', ''tmp'']
      DEFAULT_REPLAY_LIMITS"
  have "hash_loop (file_reads [''ab'', ''c'']) 3 0 [] = Inr ''abc''" "hash_loop (file_reads [''d'']) 1 0 [] = Inr ''d''"
    by (simp_all add: hash_loop.simps file_reads_def)
  then obtain sn where "?x = Inr (sn, [''abc'', ''d''])"
    by (simp add: snapshot_parts_def snapshot_part_def Let_def res_bind_def example_parts_def example_view_def
        hash_descriptor_def part_descriptor_def guard_def sig_file_def sig_size_def DEFAULT_REPLAY_LIMITS_def)
  with snapshots_bind_their_copies [OF this] show ?thesis by blast
qed

section \<open>Parts stay inside their root\<close>

text \<open>
  A part never leaves the input root. The text of an accepted part has at least one component, none
  of them is empty, a single or double dot, hidden or absolute, or contains a slash, and the last one
  ends in \<^verbatim>\<open>.parquet\<close>.
\<close>
theorem relative_part_stays_inside:
  assumes "relative_part text = Inr p"
  shows "p \<noteq> [] \<and> path_suffix p = ''.parquet'' \<and> \<not> path_absolute p
    \<and> (\<forall>w \<in> set p. w \<noteq> [] \<and> w \<noteq> ''.'' \<and> w \<noteq> ''..'' \<and> hd w \<noteq> CHR ''.'' \<and> CHR ''/'' \<notin> set w)"
proof -
  from assms have p: "p = path_of_text text" "\<not> path_absolute p" "''..'' \<notin> set p"
    "path_suffix p = ''.parquet''" "list_all part_name p"
    by (auto simp: relative_part_def Let_def list_all_iff list_ex_iff split: if_splits)
  have slash: "\<not> ascii_alnum (CHR ''/'')" "\<not> ascii_alnum (CHR ''.'')" by code_simp+
  have "p \<noteq> []" using p(4) by (auto simp: path_suffix_def path_name_def Let_def)
  moreover have "w \<noteq> [] \<and> w \<noteq> ''.'' \<and> w \<noteq> ''..'' \<and> hd w \<noteq> CHR ''.'' \<and> CHR ''/'' \<notin> set w"
    if "w \<in> set p" for w
  proof -
    from that p(5) have "part_name w" by (simp add: list_all_iff)
    then show ?thesis using slash by (cases w) (auto simp: list_all_iff)
  qed
  ultimately show ?thesis using p(2,4) by blast
qed

theorem relative_part_stays_inside_witness:
  "relative_part ''day=1//./a.parquet'' = Inr [''day=1'', ''a.parquet'']
   \<and> CHR ''/'' \<notin> set ''day=1''"
proof -
  have r: "relative_part ''day=1//./a.parquet'' = Inr [''day=1'', ''a.parquet'']" by code_simp
  with relative_part_stays_inside [OF this] show ?thesis by simp
qed

end
