(* ===== verification/Preflight.thy ===== *)
theory Preflight
  imports OfflineInputs
begin

text \<open>
  The preflight of a snapshot (the second half of \<^verbatim>\<open>paper_engine/offline_inputs.py\<close>): what DuckDB says
  of the files and of every raw row, checked before anything is replayed. DuckDB is a record of result
  sets. \<open>loads\<close> stands for decoding bytes and parsing JSON before the object hook: it gives the members
  of an object in order, duplicates included, and raises for malformed text and for a constant that is
  not JSON. Proved: a preflight that passes keeps every bound, and each row it passed is complete, of
  the one venue and product, once, and with the digest of its own payload.
\<close>

section \<open>Raw rows\<close>

definition RAW_COLUMNS :: "(string \<times> string) list" where
  "RAW_COLUMNS =
     [(''schema_version'', ''INTEGER''), (''venue'', ''VARCHAR''), (''product'', ''VARCHAR''),
      (''channel'', ''VARCHAR''), (''session_id'', ''VARCHAR''), (''message_ordinal'', ''BIGINT''),
      (''received_utc_ns'', ''BIGINT''), (''received_monotonic_ns'', ''BIGINT''),
      (''direction'', ''VARCHAR''), (''frame_type'', ''VARCHAR''), (''payload_encoding'', ''VARCHAR''),
      (''payload_bytes'', ''BLOB''), (''payload_sha256'', ''VARCHAR'')]"

datatype raw_cell = Missing | Num int | Str string | Blob string

type_synonym raw_row = "raw_cell list"

record raw_connection =
  rc_footer :: "path list \<Rightarrow> (cell \<times> cell) option result"
  rc_uncompressed :: "path list \<Rightarrow> (cell \<times> cell) option result"
  rc_columns :: "path \<Rightarrow> (string \<times> string) list result"
  rc_totals :: "path list \<Rightarrow> (cell \<times> cell) option result"
  rc_rows :: "path list \<Rightarrow> raw_row list result"

fun number :: "raw_cell \<Rightarrow> int result" where
  "number (Num n) = Inr n"
| "number _ = Inl (TypeError ''not comparable with an integer'')"

fun plain_text :: "raw_cell \<Rightarrow> bool" where
  "plain_text (Str s) = (s \<noteq> [] \<and> strip s = s)"
| "plain_text _ = False"

fun text_length :: "raw_cell \<Rightarrow> int" where
  "text_length (Str s) = int (length s)"
| "text_length _ = 0"

fun payload_bytes :: "raw_cell \<Rightarrow> string result" where
  "payload_bytes (Blob b) = Inr b"
| "payload_bytes _ = Inl (TypeError ''a bytes-like object is required'')"

section \<open>Payloads\<close>

text \<open>\<open>_unique_object\<close>: the hook of every object, the inner ones first.\<close>

definition unique_object :: "(string \<times> json) list \<Rightarrow> json result" where
  "unique_object pairs =
     (if distinct (map fst pairs) then Inr (JObject pairs)
      else Inl (OfflineInputError ''Duplicate JSON object keys make replay interpretation ambiguous.''))"

fun hooked :: "json \<Rightarrow> json result"
  and hooked_items :: "json list \<Rightarrow> json list result"
  and hooked_pairs :: "(string \<times> json) list \<Rightarrow> (string \<times> json) list result" where
  "hooked (JList js) = res_bind (hooked_items js) (\<lambda>js. Inr (JList js))"
| "hooked (JObject ps) = res_bind (hooked_pairs ps) unique_object"
| "hooked j = Inr j"
| "hooked_items [] = Inr []"
| "hooked_items (j # js) = res_bind (hooked j) (\<lambda>j. res_bind (hooked_items js) (\<lambda>js. Inr (j # js)))"
| "hooked_pairs [] = Inr []"
| "hooked_pairs ((k, j) # ps) =
     res_bind (hooked j) (\<lambda>j. res_bind (hooked_pairs ps) (\<lambda>ps. Inr ((k, j) # ps)))"

text \<open>The events a payload expands to.\<close>

definition payload_events :: "raw_cell \<Rightarrow> json \<Rightarrow> nat result" where
  "payload_events channel payload =
     (case payload of
        JObject ps \<Rightarrow>
          (case map_of ps ''channel'' of
             Some (JText c) \<Rightarrow>
               if Str c \<noteq> channel then Inl (OfflineInputError ''Payload channel does not match the raw envelope.'')
               else if channel = Str ''trades'' then
                 (case map_of ps ''data'' of
                    Some (JList data) \<Rightarrow> Inr (length data)
                  | _ \<Rightarrow> Inl (OfflineInputError ''Trades must contain a data array.''))
               else
                 (case map_of ps ''data'' of
                    Some (JObject data) \<Rightarrow> Inr 1
                  | _ \<Rightarrow> Inl (OfflineInputError ''BBO/context must contain a data object.''))
           | _ \<Rightarrow> Inl (OfflineInputError ''Payload channel does not match the raw envelope.''))
      | _ \<Rightarrow> Inl (OfflineInputError ''Payload channel does not match the raw envelope.''))"

section \<open>The checks of a row\<close>

type_synonym raw_identity = "raw_cell \<times> raw_cell"

definition row_shape :: "raw_row \<Rightarrow> unit result" where
  "row_shape row = checks
     [(Missing \<notin> set row, OfflineInputError ''Raw input contains missing fields.''),
      (take 3 row = [Num 1, Str ''hyperliquid'', Str ''BTC-PERP''],
        OfflineInputError ''Input schema/venue/product identity does not match BTC-PERP.''),
      (\<forall>i \<in> set [3, 4, 8, 9, 10]. plain_text (row ! i),
        OfflineInputError ''Raw text identity is missing or contains outer whitespace.''),
      (row ! 9 \<in> set [Str ''text'', Str ''binary'', Str ''marker'']
         \<and> row ! 10 \<in> set [Str ''utf-8'', Str ''utf-8-json'', Str ''binary''],
        OfflineInputError ''Raw frame/encoding identity is unsupported.'')]"

text \<open>The comparisons are made from left to right, as \<open>or\<close> does.\<close>

definition row_times :: "raw_row \<Rightarrow> unit result" where
  "row_times row =
     (let bad = OfflineInputError ''Input session/ordinal/time identity is invalid.''
      in if text_length (row ! 4) = 0 \<or> 128 < text_length (row ! 4) then Inl bad
         else res_bind (number (row ! 5)) (\<lambda>ordinal.
           if ordinal \<le> 0 then Inl bad
           else res_bind (number (row ! 6)) (\<lambda>utc.
             res_bind (number (row ! 7)) (\<lambda>monotonic.
             guard (0 \<le> min utc monotonic) bad))))"

definition row_payload :: "(string \<Rightarrow> string) \<Rightarrow> raw_row \<Rightarrow> string result" where
  "row_payload sha row =
     (let bad = OfflineInputError ''Input direction or exact payload hash is invalid.''
      in if row ! 8 \<notin> set [Str ''inbound'', Str ''outbound'', Str ''local''] then Inl bad
         else res_bind (payload_bytes (row ! 11)) (\<lambda>payload.
           if row ! 12 \<noteq> Str (sha payload) then Inl bad else Inr payload))"

text \<open>A row that is not a market frame expands to no event.\<close>

definition row_events :: "(string \<Rightarrow> json result) \<Rightarrow> raw_row \<Rightarrow> string \<Rightarrow> nat result" where
  "row_events loads row payload =
     (if row ! 8 \<noteq> Str ''inbound'' \<or> row ! 3 \<notin> set [Str ''trades'', Str ''bbo'', Str ''activeAssetCtx'']
      then Inr 0
      else if row ! 9 \<noteq> Str ''text'' \<or> row ! 10 \<notin> set [Str ''utf-8'', Str ''utf-8-json'']
      then Inl (OfflineInputError ''Selected market payload must be UTF-8 text.'')
      else res_bind (loads payload) (\<lambda>j. res_bind (hooked j) (payload_events (row ! 3))))"

definition check_raw_row ::
  "(string \<Rightarrow> string) \<Rightarrow> (string \<Rightarrow> json result) \<Rightarrow> int \<Rightarrow> raw_row \<Rightarrow> raw_identity list \<times> nat
    \<Rightarrow> (raw_identity list \<times> nat) result" where
  "check_raw_row sha loads max_events row = (\<lambda>(identities, events).
     res_bind (row_shape row) (\<lambda>_.
     res_bind (row_times row) (\<lambda>_.
     if (row ! 4, row ! 5) \<in> set identities
     then Inl (OfflineInputError ''Repeated raw session/ordinal identity is ambiguous.'')
     else res_bind (row_payload sha row) (\<lambda>payload.
          res_bind (row_events loads row payload) (\<lambda>n.
          if max_events < int (events + n)
          then Inl (OfflineInputError ''Expanded event bound exceeded before dedup/replay.'')
          else Inr (identities @ [(row ! 4, row ! 5)], events + n))))))"

fun check_raw_rows ::
  "(string \<Rightarrow> string) \<Rightarrow> (string \<Rightarrow> json result) \<Rightarrow> int \<Rightarrow> raw_row list \<Rightarrow> raw_identity list \<times> nat
    \<Rightarrow> (raw_identity list \<times> nat) result" where
  "check_raw_rows sha loads max_events [] st = Inr st"
| "check_raw_rows sha loads max_events (row # rows) st =
     res_bind (check_raw_row sha loads max_events row st) (check_raw_rows sha loads max_events rows)"

section \<open>The preflight\<close>

text \<open>A sum that is known, with its flag, and within its bound.\<close>

definition bounded_sum :: "int \<Rightarrow> exn \<Rightarrow> (cell \<times> cell) option \<Rightarrow> int result" where
  "bounded_sum bound bad row =
     (case row of
        Some (Integer n, Boolean True) \<Rightarrow> if 1 \<le> n \<and> n \<le> bound then Inr n else Inl bad
      | _ \<Rightarrow> Inl bad)"

record preflight_counts =
  pc_raw_rows :: nat
  pc_payload_bytes :: int
  pc_uncompressed_bytes :: int
  pc_expanded_event_upper_bound :: nat

definition preflight ::
  "((string \<times> json) list \<Rightarrow> raw_connection result) \<Rightarrow> (string \<Rightarrow> string) \<Rightarrow> (string \<Rightarrow> json result)
    \<Rightarrow> input_snapshot list \<Rightarrow> replay_limits \<Rightarrow> replay_resources \<Rightarrow> preflight_counts result" where
  "preflight connect sha loads snapshots lm resources =
     (let files = map is_path snapshots
      in res_bind (connect (connection_config resources)) (\<lambda>c.
         res_bind (rc_footer c files) (\<lambda>footer_row.
         res_bind (rc_uncompressed c files) (\<lambda>uncompressed_row.
         res_bind (bounded_sum (ol_rows lm)
           (OfflineInputError ''Raw row bound exceeded or unavailable in Parquet footer.'') footer_row) (\<lambda>footer.
         res_bind (bounded_sum (ol_uncompressed_bytes lm)
           (OfflineInputError ''Uncompressed byte bound exceeded or unavailable.'') uncompressed_row) (\<lambda>uncompressed.
         res_bind (traverse (\<lambda>path. res_bind (rc_columns c path) (\<lambda>columns.
           guard (columns = RAW_COLUMNS)
             (OfflineInputError ''Every part must have the exact DATA-1A raw schema.''))) files) (\<lambda>_.
         res_bind (rc_totals c files) (\<lambda>totals.
         res_bind (case totals of
             Some (Integer number_of_rows, Integer bytes) \<Rightarrow>
               if number_of_rows = footer \<and> 1 \<le> bytes \<and> bytes \<le> ol_payload_bytes lm then Inr bytes
               else Inl (OfflineInputError ''Raw row/payload byte bounds disagree or are exceeded.'')
           | _ \<Rightarrow> Inl (OfflineInputError ''Raw row/payload byte bounds disagree or are exceeded.'')) (\<lambda>bytes.
         res_bind (rc_rows c files) (\<lambda>rows.
         res_bind (check_raw_rows sha loads (ol_events lm) rows ([], 0)) (\<lambda>(identities, events).
         if events = 0 then Inl (OfflineInputError ''Input contains no supported market events.'')
         else Inr \<lparr>pc_raw_rows = length rows, pc_payload_bytes = bytes,
           pc_uncompressed_bytes = uncompressed, pc_expanded_event_upper_bound = events\<rparr>)))))))))))"

section \<open>What a preflight that passes tells\<close>

text \<open>A row that passed, with the events it expands to.\<close>

definition row_passed :: "(string \<Rightarrow> string) \<Rightarrow> (string \<Rightarrow> json result) \<Rightarrow> raw_row \<Rightarrow> nat \<Rightarrow> bool" where
  "row_passed sha loads row n \<longleftrightarrow> Missing \<notin> set row
     \<and> take 3 row = [Num 1, Str ''hyperliquid'', Str ''BTC-PERP'']
     \<and> (\<exists>ordinal utc monotonic payload. row ! 5 = Num ordinal \<and> 0 < ordinal \<and> row ! 6 = Num utc \<and> 0 \<le> utc
          \<and> row ! 7 = Num monotonic \<and> 0 \<le> monotonic
          \<and> row ! 11 = Blob payload \<and> row ! 12 = Str (sha payload) \<and> row_events loads row payload = Inr n)"

lemma number_Inr: "number c = Inr n \<longleftrightarrow> c = Num n"
  by (cases c) auto

lemma payload_bytes_Inr: "payload_bytes c = Inr b \<longleftrightarrow> c = Blob b"
  by (cases c) auto

lemma check_raw_row_Inr:
  assumes "check_raw_row sha loads m row (ids, events) = Inr (ids', events')"
  obtains n where "row_passed sha loads row n" "(row ! 4, row ! 5) \<notin> set ids"
    "ids' = ids @ [(row ! 4, row ! 5)]" "events' = events + n" "int events' \<le> m"
proof -
  from assms obtain payload n where r: "row_shape row = Inr ()" "row_times row = Inr ()"
    "(row ! 4, row ! 5) \<notin> set ids" "row_payload sha row = Inr payload"
    "row_events loads row payload = Inr n" "\<not> m < int (events + n)"
    "ids' = ids @ [(row ! 4, row ! 5)]" "events' = events + n"
    by (auto simp: check_raw_row_def res_bind_Inr_iff split: if_splits)
  from r(1) have "Missing \<notin> set row" "take 3 row = [Num 1, Str ''hyperliquid'', Str ''BTC-PERP'']"
    by (simp_all add: row_shape_def checks_Inr_iff)
  moreover from r(2) obtain ordinal utc monotonic where "row ! 5 = Num ordinal" "0 < ordinal"
    "row ! 6 = Num utc" "row ! 7 = Num monotonic" "0 \<le> utc" "0 \<le> monotonic"
    by (auto simp: row_times_def Let_def res_bind_Inr_iff number_Inr guard_def split: if_splits)
  moreover from r(4) have "row ! 11 = Blob payload" "row ! 12 = Str (sha payload)"
    by (auto simp: row_payload_def Let_def res_bind_Inr_iff payload_bytes_Inr split: if_splits)
  ultimately have "row_passed sha loads row n" using r(5) by (simp add: row_passed_def)
  with r that show ?thesis by simp
qed

lemma check_raw_rows_Inr:
  "check_raw_rows sha loads m rows (ids, events) = Inr (ids', events') \<Longrightarrow> distinct ids \<Longrightarrow>
     \<exists>ns. list_all2 (row_passed sha loads) rows ns \<and> events' = events + sum_list ns
       \<and> ids' = ids @ map (\<lambda>row. (row ! 4, row ! 5)) rows \<and> distinct ids'
       \<and> (rows \<noteq> [] \<longrightarrow> int events' \<le> m)"
proof (induction rows arbitrary: ids events)
  case (Cons row rows)
  then obtain ids1 events1 where 1: "check_raw_row sha loads m row (ids, events) = Inr (ids1, events1)"
    and 2: "check_raw_rows sha loads m rows (ids1, events1) = Inr (ids', events')"
    by (auto simp: res_bind_Inr_iff)
  from 1 obtain n where n: "row_passed sha loads row n" "(row ! 4, row ! 5) \<notin> set ids"
    "ids1 = ids @ [(row ! 4, row ! 5)]" "events1 = events + n" "int events1 \<le> m"
    by (rule check_raw_row_Inr)
  with Cons.prems(2) have "distinct ids1" by simp
  from Cons.IH [OF 2 this] obtain ns where ns: "list_all2 (row_passed sha loads) rows ns"
    "events' = events1 + sum_list ns" "ids' = ids1 @ map (\<lambda>row. (row ! 4, row ! 5)) rows" "distinct ids'"
    "rows \<noteq> [] \<longrightarrow> int events' \<le> m" by blast
  have "int events' \<le> m" using ns n(5) by (cases rows) auto
  with n ns show ?case by (intro exI [of _ "n # ns"]) simp
qed simp

text \<open>
  A law of DuckDB: \<open>count(*)\<close> over files is the number of rows that selecting all of them gives. The
  code compares the count with the footers and returns the length of what it selected.
\<close>

definition counts_rows :: "raw_connection \<Rightarrow> path list \<Rightarrow> bool" where
  "counts_rows c files \<longleftrightarrow>
     (case (rc_totals c files, rc_rows c files) of
        (Inr (Some (Integer n, _)), Inr rows) \<Rightarrow> n = int (length rows)
      | _ \<Rightarrow> True)"

text \<open>
  C38: A preflight that passes keeps every bound. The rows it read all passed: none misses a field, each
  is of the one schema, venue and product, has a positive ordinal and no negative time, carries the
  digest of its own payload, and no session and ordinal occur twice. The row count of the footers is
  at least one, within the row bound and equal to the row count of the data; it is the number of rows
  returned wherever \<open>count(*)\<close> counts the rows (\<open>counts_rows\<close>). The event count is the sum of the events
  the rows expand to, at least one and at most the bound. The two byte counts are those the
  connection reports, at least one and within their bounds.
\<close>
theorem preflight_keeps_bounds:
  assumes "preflight connect sha loads snapshots lm resources = Inr counts"
  shows "\<exists>c rows ns footer. connect (connection_config resources) = Inr c
    \<and> rc_rows c (map is_path snapshots) = Inr rows
    \<and> list_all2 (row_passed sha loads) rows ns
    \<and> distinct (map (\<lambda>row. (row ! 4, row ! 5)) rows) \<and> pc_raw_rows counts = length rows
    \<and> rc_footer c (map is_path snapshots) = Inr (Some (Integer footer, Boolean True))
    \<and> 1 \<le> footer \<and> footer \<le> ol_rows lm
    \<and> rc_totals c (map is_path snapshots) = Inr (Some (Integer footer, Integer (pc_payload_bytes counts)))
    \<and> (counts_rows c (map is_path snapshots) \<longrightarrow> int (pc_raw_rows counts) = footer)
    \<and> pc_expanded_event_upper_bound counts = sum_list ns
    \<and> 1 \<le> sum_list ns \<and> int (sum_list ns) \<le> ol_events lm
    \<and> 1 \<le> pc_payload_bytes counts \<and> pc_payload_bytes counts \<le> ol_payload_bytes lm
    \<and> rc_uncompressed c (map is_path snapshots)
        = Inr (Some (Integer (pc_uncompressed_bytes counts), Boolean True))
    \<and> 1 \<le> pc_uncompressed_bytes counts \<and> pc_uncompressed_bytes counts \<le> ol_uncompressed_bytes lm
    \<and> (\<forall>sn \<in> set snapshots. rc_columns c (is_path sn) = Inr RAW_COLUMNS)"
proof -
  let ?files = "map is_path snapshots"
  from assms obtain c rows ids events units footer where
    c: "connect (connection_config resources) = Inr c" "rc_rows c ?files = Inr rows"
    and cols: "traverse (\<lambda>path. res_bind (rc_columns c path) (\<lambda>columns. guard (columns = RAW_COLUMNS)
        (OfflineInputError ''Every part must have the exact DATA-1A raw schema.''))) ?files = Inr units"
    and rows: "check_raw_rows sha loads (ol_events lm) rows ([], 0) = Inr (ids, events)" "events \<noteq> 0"
    and counts: "pc_raw_rows counts = length rows" "pc_expanded_event_upper_bound counts = events"
      "1 \<le> pc_payload_bytes counts" "pc_payload_bytes counts \<le> ol_payload_bytes lm"
      "1 \<le> pc_uncompressed_bytes counts" "pc_uncompressed_bytes counts \<le> ol_uncompressed_bytes lm"
    and footer: "rc_footer c ?files = Inr (Some (Integer footer, Boolean True))" "1 \<le> footer" "footer \<le> ol_rows lm"
      "rc_totals c ?files = Inr (Some (Integer footer, Integer (pc_payload_bytes counts)))"
      "rc_uncompressed c ?files = Inr (Some (Integer (pc_uncompressed_bytes counts), Boolean True))"
    by (auto simp: preflight_def Let_def res_bind_Inr_iff bounded_sum_def
        split: if_splits option.splits prod.splits cell.splits bool.splits)
  from check_raw_rows_Inr [OF rows(1)] obtain ns where ns: "list_all2 (row_passed sha loads) rows ns"
    "events = sum_list ns" "distinct (map (\<lambda>row. (row ! 4, row ! 5)) rows)"
    "rows \<noteq> [] \<longrightarrow> int events \<le> ol_events lm" by auto
  with rows(2) have "rows \<noteq> []" by auto
  moreover have "\<forall>sn \<in> set snapshots. rc_columns c (is_path sn) = Inr RAW_COLUMNS"
    using cols by (auto simp: traverse_Inr_iff res_bind_Inr_iff guard_def list_all2_conv_all_nth in_set_conv_nth
        split: if_splits)
  moreover have "1 \<le> sum_list ns" using rows(2) unfolding ns(2) by linarith
  moreover have "counts_rows c ?files \<longrightarrow> int (pc_raw_rows counts) = footer"
    by (simp add: counts_rows_def footer(4) c(2) counts(1))
  ultimately show ?thesis using c counts ns footer
    by (intro exI [of _ c] exI [of _ rows] exI [of _ ns] exI [of _ footer]) auto
qed

text \<open>A snapshot with one book frame.\<close>

definition example_raw_row :: raw_row where
  "example_raw_row = [Num 1, Str ''hyperliquid'', Str ''BTC-PERP'', Str ''bbo'', Str ''s'', Num 1, Num 5, Num 6,
     Str ''inbound'', Str ''text'', Str ''utf-8'', Blob ''xy'', Str ''yx'']"

definition example_raw_connection :: raw_connection where
  "example_raw_connection = \<lparr>rc_footer = \<lambda>_. Inr (Some (Integer 1, Boolean True)),
     rc_uncompressed = \<lambda>_. Inr (Some (Integer 40, Boolean True)), rc_columns = \<lambda>_. Inr RAW_COLUMNS,
     rc_totals = \<lambda>_. Inr (Some (Integer 1, Integer 2)), rc_rows = \<lambda>_. Inr [example_raw_row]\<rparr>"

definition example_loads :: "string \<Rightarrow> json result" where
  "example_loads payload = Inr (JObject [(''channel'', JText ''bbo''), (''data'', JObject [])])"

theorem preflight_keeps_bounds_witness:
  "\<exists>counts. preflight (\<lambda>_. Inr example_raw_connection) rev example_loads [] DEFAULT_REPLAY_LIMITS
       \<lparr>rr_threads = 1, rr_memory_mib = 64\<rparr> = Inr counts
     \<and> int (pc_raw_rows counts) \<le> ol_rows DEFAULT_REPLAY_LIMITS
     \<and> 1 \<le> pc_payload_bytes counts \<and> pc_payload_bytes counts \<le> 16 * 1024 * 1024"
proof -
  let ?x = "preflight (\<lambda>_. Inr example_raw_connection) rev example_loads [] DEFAULT_REPLAY_LIMITS
       \<lparr>rr_threads = 1, rr_memory_mib = 64\<rparr>"
  have "case ?x of Inl _ \<Rightarrow> False | Inr counts \<Rightarrow> pc_expanded_event_upper_bound counts = 1" by code_simp
  then obtain counts where "?x = Inr counts" by (auto split: sum.splits)
  moreover have "counts_rows example_raw_connection []" by code_simp
  ultimately show ?thesis
    using preflight_keeps_bounds [of "\<lambda>_. Inr example_raw_connection"]
    by (fastforce simp: DEFAULT_REPLAY_LIMITS_def)
qed

end
