(* ===== verification/OfflineReplay.thy ===== *)
theory OfflineReplay
  imports Preflight Ledger
begin

text \<open>
  The offline replay command (\<^verbatim>\<open>paper_engine/offline_replay.py\<close>): the guards of a request, the
  provenance of the source, the checks of the artifacts a run left, and their publication. The output
  of \<open>git\<close>, JSON parsing and the outcome of every file operation are parameters. Proved: the input and
  output trees of an accepted request are disjoint; health becomes visible only when every other file is
  complete, and nothing that was there is replaced; published artifacts are within the cockpit's bounds.
\<close>

section \<open>The request\<close>

record replay_request =
  rq_input_root :: path
  rq_parts :: "string list"
  rq_store_root :: path
  rq_run_id :: string
  rq_source_commit :: string
  rq_input_mode :: string
  rq_inputs_complete :: bool
  rq_strategy :: string
  rq_source_provenance :: string
  rq_expected_mount :: "mount_identity option"
  rq_limits :: replay_limits
  rq_resources :: replay_resources

definition is_relative_to :: "path \<Rightarrow> path \<Rightarrow> bool" where
  "is_relative_to p other = prefix other p"

text \<open>The guards of \<open>run_replay\<close> before it touches a file; the parts are the result.\<close>

definition check_request :: "replay_request \<Rightarrow> path list result" where
  "check_request rq =
     res_bind (checks
       [(rq_inputs_complete rq, OfflineInputError ''Explicit completed-input attestation is required.''),
        (rq_input_mode rq \<in> set [''remote'', ''local-fixture''],
          OfflineInputError ''Input mode must be explicit remote or local-fixture.''),
        ((rq_input_mode rq = ''remote'') = (rq_expected_mount rq \<noteq> None),
          OfflineInputError ''Remote mode requires exact mount identity; local mode cannot carry it.'')]) (\<lambda>_.
     res_bind (validate_run_id (rq_run_id rq)) (\<lambda>_.
     res_bind (absolute (rq_input_root rq)) (\<lambda>_.
     res_bind (absolute (rq_store_root rq)) (\<lambda>_.
     if is_relative_to (rq_store_root rq) (rq_input_root rq) \<or> is_relative_to (rq_input_root rq) (rq_store_root rq)
     then Inl (OfflineInputError ''Output store and the entire input/archive root must be disjoint.'')
     else res_bind (traverse relative_part (rq_parts rq)) (\<lambda>parts.
       if \<not> (1 \<le> int (length parts) \<and> int (length parts) \<le> ol_files (rq_limits rq)) \<or> \<not> distinct parts
       then Inl (OfflineInputError ''Explicit part selection exceeds its count/uniqueness bound.'')
       else Inr parts)))))"

section \<open>Provenance and mounts\<close>

definition full_sha :: "string \<Rightarrow> bool" where
  "full_sha s \<longleftrightarrow> length s = 40 \<and> list_all (\<lambda>c. c \<in> set ''0123456789abcdef'') s"

text \<open>The commit the engine is told; \<open>git\<close> gives the head and the status of the checkout.\<close>

definition engine_source_commit :: "(string \<times> string) result \<Rightarrow> string \<Rightarrow> string \<Rightarrow> string result" where
  "engine_source_commit git sha mode =
     res_bind (checks
       [(full_sha sha, OfflineInputError ''source_commit must be a full lowercase Git SHA.''),
        (mode \<in> set [''verified-head'', ''operator-asserted''],
          OfflineInputError ''Unknown source provenance mode.'')]) (\<lambda>_.
     if mode = ''verified-head''
     then res_bind git (\<lambda>(head, status).
       if strip head \<noteq> sha \<or> status \<noteq> []
       then Inl (OfflineInputError ''Verified source requires the actual HEAD and a clean checkout.'')
       else Inr sha)
     else Inr (''operator-asserted:'' @ sha))"

type_synonym directory_identity = "int \<times> int \<times> string"

definition same_directory :: "directory_identity \<Rightarrow> directory_identity \<Rightarrow> unit result" where
  "same_directory current held = guard (current = held) (OfflineInputError ''Root directory identity changed.'')"

definition reject_mount_alias :: "directory_identity \<Rightarrow> directory_identity \<Rightarrow> unit result" where
  "reject_mount_alias one other =
     guard (\<not> (fst one = fst other \<and> snd (snd one) \<noteq> snd (snd other)))
       (OfflineInputError ''Same-device directory aliases across mounts are unsupported.'')"

section \<open>The checks of the artifacts\<close>

definition JSON_BYTE_LIMIT :: nat where "JSON_BYTE_LIMIT = 256 * 1024"
definition LEDGER_BYTE_LIMIT :: nat where "LEDGER_BYTE_LIMIT = 2 * 1024 * 1024"
definition LEDGER_RECORD_LIMIT :: nat where "LEDGER_RECORD_LIMIT = 5000"

definition ARTIFACTS :: "string list" where
  "ARTIFACTS = [''run-claim.json'', ''ledger.jsonl'', ''state.json'', ''health.json'']"

definition DECIMAL_FIELDS :: "string list" where
  "DECIMAL_FIELDS =
     [''position_quantity'', ''average_entry_price'', ''cash_usdc'', ''realized_pnl_usdc'',
      ''unrealized_pnl_usdc'', ''fees_usdc'', ''equity_usdc'', ''mark_price'', ''stop_price'', ''quantity'',
      ''filled_quantity'', ''price'', ''limit_price'', ''fee_usdc'', ''target_quantity'',
      ''stop_distance_fraction'', ''entry_price_band_fraction'', ''exit_price_band_fraction'']"

text \<open>The pattern \<^verbatim>\<open>-?(?:0|[1-9]\d*)(?:\.\d{1,40})?\<close> with \<open>fullmatch\<close>.\<close>

definition plain_decimal :: "string \<Rightarrow> bool" where
  "plain_decimal s =
     (let body = (if take 1 s = ''-'' then drop 1 s else s); (whole, tail) = split_digits body
      in whole \<noteq> [] \<and> (hd whole = CHR ''0'' \<longrightarrow> whole = ''0'')
         \<and> (tail = [] \<or> (hd tail = CHR ''.'' \<and> list_all is_digit (drop 1 tail)
               \<and> 1 \<le> length (drop 1 tail) \<and> length (drop 1 tail) \<le> 40)))"

fun cockpit_decimal :: "json \<Rightarrow> bool" where
  "cockpit_decimal JNull = True"
| "cockpit_decimal (JText s) = (length s \<le> 80 \<and> plain_decimal s)"
| "cockpit_decimal _ = False"

fun check_cockpit_scalars :: "json \<Rightarrow> unit result"
  and check_cockpit_pairs :: "(string \<times> json) list \<Rightarrow> unit result"
  and check_cockpit_items :: "json list \<Rightarrow> unit result" where
  "check_cockpit_scalars (JObject ps) = check_cockpit_pairs ps"
| "check_cockpit_scalars (JList js) = check_cockpit_items js"
| "check_cockpit_scalars (JText s) =
     guard (\<not> (512 < length s \<or> strip s \<noteq> s \<or> s = []))
       (OfflineInputError ''Produced text is outside the cockpit representation.'')"
| "check_cockpit_scalars _ = Inr ()"
| "check_cockpit_pairs [] = Inr ()"
| "check_cockpit_pairs ((k, j) # ps) =
     (if k \<in> set DECIMAL_FIELDS \<and> \<not> cockpit_decimal j
      then Inl (OfflineInputError ''Produced decimal is outside the cockpit representation.'')
      else res_bind (check_cockpit_scalars j) (\<lambda>_. check_cockpit_pairs ps))"
| "check_cockpit_items [] = Inr ()"
| "check_cockpit_items (j # js) = res_bind (check_cockpit_scalars j) (\<lambda>_. check_cockpit_items js)"

text \<open>\<open>bytes.splitlines\<close>: lines end in a line feed, a carriage return or both.\<close>

fun split_lines :: "string \<Rightarrow> string list" where
  "split_lines [] = []"
| "split_lines (c # s) =
     (if c = CHR 0x0A then [] # split_lines s
      else if c = CHR 0x0D then [] # split_lines (if take 1 s = [CHR 0x0A] then drop 1 s else s)
      else (case split_lines s of [] \<Rightarrow> [[c]] | l # ls \<Rightarrow> (c # l) # ls))"

definition artifact_limit :: "string \<Rightarrow> nat" where
  "artifact_limit name = (if name = ''ledger.jsonl'' then LEDGER_BYTE_LIMIT else JSON_BYTE_LIMIT)"

definition check_artifact_sizes :: "(string \<Rightarrow> nat result) \<Rightarrow> unit result" where
  "check_artifact_sizes stat =
     res_bind (traverse (\<lambda>name. res_bind (stat name) (\<lambda>bytes.
       guard (bytes \<le> artifact_limit name)
         (OfflineInputError ''Run exceeds the native cockpit artifact byte limit.''))) ARTIFACTS) (\<lambda>_. Inr ())"

definition check_json_dict :: "(string \<Rightarrow> json result) \<Rightarrow> string \<Rightarrow> string \<Rightarrow> (string \<times> json) list result" where
  "check_json_dict loads message text =
     res_bind (loads text) (\<lambda>j. case j of
       JObject ps \<Rightarrow> res_bind (check_cockpit_pairs ps) (\<lambda>_. Inr ps)
     | _ \<Rightarrow> Inl (OfflineInputError message))"

text \<open>
  One artifact: \<open>stat\<close> gives its size and \<open>read\<close> its bytes, of which the code asks for one more than the
  limit.
\<close>

definition artifact_bytes_of ::
  "(string \<Rightarrow> nat result) \<Rightarrow> (string \<Rightarrow> string result) \<Rightarrow> (string \<Rightarrow> json result) \<Rightarrow> string \<Rightarrow> string result" where
  "artifact_bytes_of stat read loads name =
     (let limit = artifact_limit name
      in res_bind (stat name) (\<lambda>bytes.
         if limit < bytes then Inl (OfflineInputError ''Run exceeds the native cockpit artifact byte limit.'')
         else res_bind (read name) (\<lambda>content.
           let v = take (limit + 1) content
           in if limit < length v
              then Inl (OfflineInputError ''Run artifact grew beyond the native cockpit byte limit.'')
              else if name = ''ledger.jsonl'' then
                (let ls = split_lines v
                 in if LEDGER_RECORD_LIMIT < length ls \<or> (v \<noteq> [] \<and> last v \<noteq> CHR 0x0A)
                    then Inl (OfflineInputError ''Run exceeds the complete cockpit ledger record limit.'')
                    else res_bind (traverse (check_json_dict loads ''Malformed native ledger record.'') ls)
                      (\<lambda>_. Inr v))
              else res_bind (check_json_dict loads ''Malformed native JSON artifact.'' v) (\<lambda>_. Inr v))))"

definition published_health :: "(string \<times> json) list \<Rightarrow> unit result" where
  "published_health ps =
     (case map_of ps ''status'' of
        None \<Rightarrow> Inl (KeyError ''status'')
      | Some status \<Rightarrow>
          if status = JText ''FAILED''
          then Inl (OfflineInputError ''Failed engine artifacts cannot be published.'')
          else (case map_of ps ''ledger_write_failed'' of
              None \<Rightarrow> Inl (KeyError ''ledger_write_failed'')
            | Some failed \<Rightarrow> guard (failed = JBool False)
                (OfflineInputError ''Failed engine artifacts cannot be published.'')))"

definition artifact_bytes ::
  "(string \<Rightarrow> nat result) \<Rightarrow> (string \<Rightarrow> string result) \<Rightarrow> (string \<Rightarrow> json result) \<Rightarrow> string list result" where
  "artifact_bytes stat read loads =
     res_bind (traverse (artifact_bytes_of stat read loads) ARTIFACTS) (\<lambda>contents.
     res_bind (loads (contents ! 3)) (\<lambda>j. case j of
         JObject ps \<Rightarrow> res_bind (published_health ps) (\<lambda>_. Inr contents)
       | _ \<Rightarrow> Inl (TypeError ''health.json'')))"

section \<open>Publication\<close>

text \<open>
  The output store: the files of each run directory. Every operation succeeds or fails by \<open>os_io\<close>; a
  write that fails has written any number of bytes.
\<close>

record output_store =
  os_runs :: "string \<Rightarrow> (string \<Rightarrow> string option) option"
  os_tick :: nat
  os_io :: "nat \<Rightarrow> io_result"

definition out_step :: "output_store \<Rightarrow> io_result \<times> output_store" where
  "out_step st = (os_io st (os_tick st), st\<lparr>os_tick := Suc (os_tick st)\<rparr>)"

definition make_run :: "string \<Rightarrow> output_store \<Rightarrow> (unit, output_store) outcome" where
  "make_run run_id st =
     (case out_step st of
        (Io_Fail n, st) \<Rightarrow> Raise (OSError ''mkdir'') st
      | (Io_Ok, st) \<Rightarrow>
          if os_runs st run_id \<noteq> None then Raise (OSError ''mkdir'') st
          else Ok () (st\<lparr>os_runs := (os_runs st)(run_id \<mapsto> (\<lambda>_. None))\<rparr>))"

definition open_run :: "string \<Rightarrow> output_store \<Rightarrow> (unit, output_store) outcome" where
  "open_run run_id st =
     (case out_step st of
        (Io_Fail n, st) \<Rightarrow> Raise (OSError ''open'') st
      | (Io_Ok, st) \<Rightarrow> Ok () st)"

text \<open>\<open>_write_exclusive\<close>: create, then write and sync.\<close>

definition write_exclusive :: "string \<Rightarrow> string \<Rightarrow> string \<Rightarrow> output_store \<Rightarrow> (unit, output_store) outcome" where
  "write_exclusive run_id name content st =
     (case out_step st of
        (Io_Fail n, st) \<Rightarrow> Raise (OSError name) st
      | (Io_Ok, st) \<Rightarrow>
          (case os_runs st run_id of
             None \<Rightarrow> Raise (OSError name) st
           | Some d \<Rightarrow>
               if d name \<noteq> None then Raise (OSError name) st
               else (case out_step st of
                   (Io_Fail n, st) \<Rightarrow>
                     Raise (OSError name) (st\<lparr>os_runs := (os_runs st)(run_id \<mapsto> d(name \<mapsto> take n content))\<rparr>)
                 | (Io_Ok, st) \<Rightarrow>
                     Ok () (st\<lparr>os_runs := (os_runs st)(run_id \<mapsto> d(name \<mapsto> content))\<rparr>))))"

definition link_file :: "string \<Rightarrow> string \<Rightarrow> string \<Rightarrow> output_store \<Rightarrow> (unit, output_store) outcome" where
  "link_file run_id source name st =
     (case out_step st of
        (Io_Fail n, st) \<Rightarrow> Raise (OSError ''link'') st
      | (Io_Ok, st) \<Rightarrow>
          (case os_runs st run_id of
             None \<Rightarrow> Raise (OSError ''link'') st
           | Some d \<Rightarrow>
               if d source = None \<or> d name \<noteq> None then Raise (OSError ''link'') st
               else Ok () (st\<lparr>os_runs := (os_runs st)(run_id \<mapsto> d(name := d source))\<rparr>)))"

definition unlink_file :: "string \<Rightarrow> string \<Rightarrow> output_store \<Rightarrow> (unit, output_store) outcome" where
  "unlink_file run_id name st =
     (case out_step st of
        (Io_Fail n, st) \<Rightarrow> Raise (OSError ''unlink'') st
      | (Io_Ok, st) \<Rightarrow>
          (case os_runs st run_id of
             None \<Rightarrow> Raise (OSError ''unlink'') st
           | Some d \<Rightarrow> Ok () (st\<lparr>os_runs := (os_runs st)(run_id \<mapsto> d(name := None))\<rparr>)))"

record published =
  pa_replay_claim :: string
  pa_run_claim :: string
  pa_ledger :: string
  pa_state :: string
  pa_health :: string

definition publish ::
  "int \<times> string \<Rightarrow> int \<times> string \<Rightarrow> string \<Rightarrow> published \<Rightarrow> output_store \<Rightarrow> (unit, output_store) outcome" where
  "publish actual expected run_id a st =
     andthen (make_run run_id st) (\<lambda>_ st.
     andthen (open_run run_id st) (\<lambda>_ st.
     andthen (lift_result (guard (actual = expected)
       (OfflineInputError ''Reserved output directory crossed a changed or nested mount.'')) st) (\<lambda>_ st.
     andthen (write_exclusive run_id ''replay-claim.json'' (pa_replay_claim a) st) (\<lambda>_ st.
     andthen (write_exclusive run_id ''run-claim.json'' (pa_run_claim a) st) (\<lambda>_ st.
     andthen (write_exclusive run_id ''ledger.jsonl'' (pa_ledger a) st) (\<lambda>_ st.
     andthen (write_exclusive run_id ''state.json'' (pa_state a) st) (\<lambda>_ st.
     andthen (write_exclusive run_id ''.health.publishing'' (pa_health a) st) (\<lambda>_ st.
     andthen (link_file run_id ''.health.publishing'' ''health.json'' st) (\<lambda>_ st.
     Ok () (out_state (unlink_file run_id ''.health.publishing'' st)))))))))))"

section \<open>Disjoint trees\<close>

text \<open>
  The input archive and the output store of an accepted request are disjoint. No path lies under
  both roots, both roots are absolute, and the parts are as many as allowed, different, and inside the
  input root.
\<close>
theorem accepted_request_disjoint:
  assumes "check_request rq = Inr parts"
  shows "\<not> (\<exists>p. is_relative_to p (rq_input_root rq) \<and> is_relative_to p (rq_store_root rq))
    \<and> path_absolute (rq_input_root rq) \<and> path_absolute (rq_store_root rq)
    \<and> distinct parts \<and> parts \<noteq> [] \<and> int (length parts) \<le> ol_files (rq_limits rq)
    \<and> (\<forall>p \<in> set parts. \<not> path_absolute p \<and> ''..'' \<notin> set p)"
proof -
  from assms have r: "\<not> is_relative_to (rq_store_root rq) (rq_input_root rq)"
      "\<not> is_relative_to (rq_input_root rq) (rq_store_root rq)"
      "absolute (rq_input_root rq) = Inr (rq_input_root rq)" "absolute (rq_store_root rq) = Inr (rq_store_root rq)"
      "distinct parts" "1 \<le> int (length parts)" "int (length parts) \<le> ol_files (rq_limits rq)"
    and t: "traverse relative_part (rq_parts rq) = Inr parts"
    by (auto simp: check_request_def res_bind_Inr_iff absolute_def split: if_splits)
  have "\<not> (\<exists>p. is_relative_to p (rq_input_root rq) \<and> is_relative_to p (rq_store_root rq))"
    using r(1,2) by (auto simp: is_relative_to_def dest: prefix_same_cases)
  moreover have "path_absolute (rq_input_root rq)" "path_absolute (rq_store_root rq)"
    using r(3,4) by (auto simp: absolute_def split: if_splits)
  moreover have "\<not> path_absolute p \<and> ''..'' \<notin> set p" if "p \<in> set parts" for p
  proof -
    from t that obtain x where "relative_part x = Inr p"
      by (auto simp: traverse_Inr_iff list_all2_conv_all_nth in_set_conv_nth)
    then show ?thesis by (auto simp: relative_part_def Let_def split: if_splits)
  qed
  ultimately show ?thesis using r(5-7) by auto
qed

text \<open>A request over a local fixture.\<close>

definition example_request :: "path \<Rightarrow> replay_request" where
  "example_request store = \<lparr>rq_input_root = [''/'', ''in''], rq_parts = [''a.parquet''], rq_store_root = store,
     rq_run_id = ''r1'', rq_source_commit = [], rq_input_mode = ''local-fixture'', rq_inputs_complete = True,
     rq_strategy = ''flat'', rq_source_provenance = ''verified-head'', rq_expected_mount = None,
     rq_limits = DEFAULT_REPLAY_LIMITS, rq_resources = \<lparr>rr_threads = 1, rr_memory_mib = 64\<rparr>\<rparr>"

theorem accepted_request_disjoint_witness:
  "check_request (example_request [''/'', ''out'']) = Inr [[''a.parquet'']]
   \<and> \<not> is_relative_to [''/'', ''in'', ''x''] [''/'', ''out'']
   \<and> isl (check_request (example_request [''/'', ''in'', ''out'']))"
proof -
  have r: "check_request (example_request [''/'', ''out'']) = Inr [[''a.parquet'']]"
    "isl (check_request (example_request [''/'', ''in'', ''out'']))" by code_simp+
  have "is_relative_to [''/'', ''in'', ''x''] (rq_input_root (example_request [''/'', ''out'']))"
    "rq_store_root (example_request [''/'', ''out'']) = [''/'', ''out'']"
    by (simp_all add: example_request_def is_relative_to_def)
  with accepted_request_disjoint [OF r(1)] r show ?thesis by metis
qed

section \<open>Health last\<close>

definition at_dir :: "(string \<Rightarrow> (string \<Rightarrow> string option) option) \<Rightarrow> string \<Rightarrow> (string \<Rightarrow> string option)
    \<Rightarrow> output_store \<Rightarrow> bool" where
  "at_dir R run_id d st \<longleftrightarrow> os_runs st = R(run_id \<mapsto> d)"

definition artifact_text :: "published \<Rightarrow> string \<Rightarrow> string" where
  "artifact_text a name =
     (if name = ''replay-claim.json'' then pa_replay_claim a else if name = ''run-claim.json'' then pa_run_claim a
      else if name = ''ledger.jsonl'' then pa_ledger a else if name = ''state.json'' then pa_state a
      else pa_health a)"

text \<open>An unfinished publication: every file is a beginning of its artifact, and health is absent.\<close>

definition unfinished :: "published \<Rightarrow> (string \<Rightarrow> string option) \<Rightarrow> bool" where
  "unfinished a d \<longleftrightarrow> d ''health.json'' = None
     \<and> (\<forall>name. d name = None \<or> (\<exists>n. d name = Some (take n (artifact_text a name))))"

lemma unfinished_put:
  "unfinished a d \<Longrightarrow> name \<noteq> ''health.json'' \<Longrightarrow> unfinished a (d(name \<mapsto> take n (artifact_text a name)))"
  "unfinished a d \<Longrightarrow> name \<noteq> ''health.json'' \<Longrightarrow> unfinished a (d(name \<mapsto> artifact_text a name))"
  by (auto simp: unfinished_def intro: exI [of _ "length (artifact_text a name)"])

lemma write_then:
  assumes "at_dir R run_id d st" "unfinished a d" "d name = None" "name \<noteq> ''health.json''"
    "content = artifact_text a name"
    and "\<And>st'. at_dir R run_id (d(name \<mapsto> content)) st' \<Longrightarrow> unfinished a (d(name \<mapsto> content)) \<Longrightarrow>
      holds Q (\<lambda>st'. \<exists>d'. at_dir R run_id d' st' \<and> unfinished a d') (f () st')"
  shows "holds Q (\<lambda>st'. \<exists>d'. at_dir R run_id d' st' \<and> unfinished a d')
    (andthen (write_exclusive run_id name content st) f)"
proof (rule holds_andthen)
  show "holds (\<lambda>_ st'. at_dir R run_id (d(name \<mapsto> content)) st')
      (\<lambda>st'. \<exists>d'. at_dir R run_id d' st' \<and> unfinished a d') (write_exclusive run_id name content st)"
    using assms(1-5) unfinished_put(1) [OF assms(2,4)]
    by (auto simp: write_exclusive_def out_step_def at_dir_def split: io_result.split)
  fix u :: unit and st' assume "at_dir R run_id (d(name \<mapsto> content)) st'"
  then show "holds Q (\<lambda>st'. \<exists>d'. at_dir R run_id d' st' \<and> unfinished a d') (f u st')"
    using assms(6) unfinished_put(2) [OF assms(2,4)] assms(5) by simp
qed

lemma link_then_unlink:
  assumes "at_dir R run_id d st" "unfinished a d" "d ''.health.publishing'' = Some (pa_health a)"
  shows "holds (\<lambda>_ st'. \<exists>d'. at_dir R run_id d' st' \<and> d' ''health.json'' = Some (pa_health a)
      \<and> (\<forall>name. name \<notin> {''.health.publishing'', ''health.json''} \<longrightarrow> d' name = d name))
    (\<lambda>st'. \<exists>d'. at_dir R run_id d' st' \<and> unfinished a d')
    (andthen (link_file run_id ''.health.publishing'' ''health.json'' st)
      (\<lambda>_ st. Ok () (out_state (unlink_file run_id ''.health.publishing'' st))))"
proof (rule holds_andthen)
  show "holds (\<lambda>_. at_dir R run_id (d(''health.json'' \<mapsto> pa_health a)))
      (\<lambda>st'. \<exists>d'. at_dir R run_id d' st' \<and> unfinished a d')
      (link_file run_id ''.health.publishing'' ''health.json'' st)"
    using assms by (auto simp: link_file_def out_step_def at_dir_def unfinished_def split: io_result.split)
  fix u :: unit and st' assume put: "at_dir R run_id (d(''health.json'' \<mapsto> pa_health a)) st'"
  show "holds (\<lambda>_ st'. \<exists>d'. at_dir R run_id d' st' \<and> d' ''health.json'' = Some (pa_health a)
      \<and> (\<forall>name. name \<notin> {''.health.publishing'', ''health.json''} \<longrightarrow> d' name = d name))
    (\<lambda>st'. \<exists>d'. at_dir R run_id d' st' \<and> unfinished a d')
    (Ok () (out_state (unlink_file run_id ''.health.publishing'' st')))"
  proof -
    let ?d = "d(''health.json'' \<mapsto> pa_health a)"
    from put have "at_dir R run_id ?d (out_state (unlink_file run_id ''.health.publishing'' st'))
      \<or> at_dir R run_id (?d(''.health.publishing'' := None)) (out_state (unlink_file run_id ''.health.publishing'' st'))"
      by (auto simp: unlink_file_def out_step_def at_dir_def split: io_result.split)
    then show ?thesis unfolding holds_simps
      by (elim disjE) (rule exI, intro conjI, assumption, simp, simp)+
  qed
qed

lemma publish_cases:
  "case publish actual expected run_id a st of
     Ok u st' \<Rightarrow> os_runs st run_id = None \<and> (\<exists>d. os_runs st' = (os_runs st)(run_id \<mapsto> d)
        \<and> d ''replay-claim.json'' = Some (pa_replay_claim a) \<and> d ''run-claim.json'' = Some (pa_run_claim a)
        \<and> d ''ledger.jsonl'' = Some (pa_ledger a) \<and> d ''state.json'' = Some (pa_state a)
        \<and> d ''health.json'' = Some (pa_health a))
   | Raise ex st' \<Rightarrow> os_runs st' = os_runs st \<or> os_runs st run_id = None
        \<and> (\<exists>d. os_runs st' = (os_runs st)(run_id \<mapsto> d) \<and> d ''health.json'' = None
             \<and> (\<forall>name. d name = None \<or> (\<exists>n. d name = Some (take n (artifact_text a name)))))"
proof (cases "make_run run_id st")
  case (Raise ex st')
  then have "os_runs st' = os_runs st" by (auto simp: make_run_def out_step_def split: io_result.splits if_splits)
  with Raise show ?thesis by (simp add: publish_def)
next
  case (Ok u st1)
  let ?R = "os_runs st" and ?d = "\<lambda>_ :: string. None :: string option"
  from Ok have new: "?R run_id = None" and d0: "at_dir ?R run_id ?d st1"
    by (auto simp: make_run_def out_step_def at_dir_def split: io_result.splits if_splits)
  let ?E = "\<lambda>st'. \<exists>d'. at_dir ?R run_id d' st' \<and> unfinished a d'"
  let ?done = "\<lambda>st'. \<exists>d. at_dir ?R run_id d st' \<and> d ''replay-claim.json'' = Some (pa_replay_claim a)
    \<and> d ''run-claim.json'' = Some (pa_run_claim a) \<and> d ''ledger.jsonl'' = Some (pa_ledger a)
    \<and> d ''state.json'' = Some (pa_state a) \<and> d ''health.json'' = Some (pa_health a)"
  have u0: "unfinished a ?d" by (simp add: unfinished_def)
  have opened: "holds (\<lambda>_. at_dir ?R run_id ?d) ?E (open_run run_id st1)"
    using d0 u0 by (auto simp: open_run_def out_step_def at_dir_def split: io_result.split)
  have same: "holds (\<lambda>_. at_dir ?R run_id ?d) ?E (lift_result (guard ok ex) st2)"
    if "at_dir ?R run_id ?d st2" for ok ex st2
    using that u0 by (auto simp: holds_lift_result guard_def)
  have "holds (\<lambda>_. ?done) ?E (publish actual expected run_id a st)"
    unfolding publish_def Ok andthen.simps
    apply (rule holds_andthen [OF opened], rule holds_andthen [OF same], assumption)
    apply (rule write_then, assumption, rule u0, simp, simp, simp add: artifact_text_def)
    apply (rule write_then, assumption, assumption, simp, simp, simp add: artifact_text_def)+
    apply (rule holds_mono [OF link_then_unlink], assumption, assumption, simp)
     apply (elim exE conjE, rule exI, intro conjI, assumption, simp_all)
    done
  then show ?thesis
    using new by (cases "publish actual expected run_id a st")
      (simp_all add: at_dir_def unfinished_def)
qed

text \<open>
  C36: Health becomes visible last. When a publication returns, the run directory is new, holds the four
  other artifacts and \<open>health.json\<close> complete, and no other run changed. When it raises, either nothing
  changed, or the directory is new, no other run changed, \<open>health.json\<close> is absent and every file in it
  is a beginning of its artifact. A run that exists is never replaced.
\<close>
theorem health_visible_last:
  "case publish actual expected run_id a st of
     Ok u st' \<Rightarrow> os_runs st run_id = None \<and> (\<exists>d. os_runs st' = (os_runs st)(run_id \<mapsto> d)
        \<and> d ''replay-claim.json'' = Some (pa_replay_claim a) \<and> d ''run-claim.json'' = Some (pa_run_claim a)
        \<and> d ''ledger.jsonl'' = Some (pa_ledger a) \<and> d ''state.json'' = Some (pa_state a)
        \<and> d ''health.json'' = Some (pa_health a))
   | Raise ex st' \<Rightarrow> os_runs st' = os_runs st \<or> os_runs st run_id = None
        \<and> (\<exists>d. os_runs st' = (os_runs st)(run_id \<mapsto> d) \<and> d ''health.json'' = None
             \<and> (\<forall>name. d name = None \<or> (\<exists>n. d name = Some (take n (artifact_text a name)))))"
  by (rule publish_cases)

text \<open>
  C40: A publication with nothing in its way completes, and leaves exactly the run. When the run
  identifier is free and no file operation fails, then: if the reserved directory is on the mount
  that was asked for, the publication returns, and the new directory holds the five artifacts under
  their names, each with its whole content, and nothing else; if it is on another mount, the
  publication raises before it writes anything and the directory is empty. No other run changes.
\<close>
theorem undisturbed_publication_completes:
  assumes "os_runs st run_id = None" "\<forall>n. os_io st n = Io_Ok"
  shows "\<exists>st'. if actual = expected
    then publish actual expected run_id a st = Ok () st'
      \<and> os_runs st' = (os_runs st)(run_id \<mapsto>
          [''replay-claim.json'' \<mapsto> pa_replay_claim a, ''run-claim.json'' \<mapsto> pa_run_claim a,
           ''ledger.jsonl'' \<mapsto> pa_ledger a, ''state.json'' \<mapsto> pa_state a, ''health.json'' \<mapsto> pa_health a])
    else publish actual expected run_id a st
        = Raise (OfflineInputError ''Reserved output directory crossed a changed or nested mount.'') st'
      \<and> os_runs st' = (os_runs st)(run_id \<mapsto> (\<lambda>_. None))"
  using assms
  by (cases "actual = expected") (simp_all add: publish_def make_run_def open_run_def out_step_def
      lift_result_def guard_def write_exclusive_def link_file_def unlink_file_def fun_eq_iff)

theorem undisturbed_publication_completes_witness:
  "\<exists>st'. publish (1, ''7'') (1, ''7'') ''r1'' \<lparr>pa_replay_claim = ''p'', pa_run_claim = ''c'', pa_ledger = ''l'',
     pa_state = ''s'', pa_health = ''h''\<rparr> \<lparr>os_runs = \<lambda>_. None, os_tick = 0, os_io = \<lambda>_. Io_Ok\<rparr> = Ok () st'
   \<and> os_runs st' = [''r1'' \<mapsto> [''replay-claim.json'' \<mapsto> ''p'', ''run-claim.json'' \<mapsto> ''c'', ''ledger.jsonl'' \<mapsto> ''l'',
       ''state.json'' \<mapsto> ''s'', ''health.json'' \<mapsto> ''h'']]"
  using undisturbed_publication_completes [of "\<lparr>os_runs = \<lambda>_. None, os_tick = 0, os_io = \<lambda>_. Io_Ok\<rparr>" "''r1''"
      "(1, ''7'')" "(1, ''7'')" "\<lparr>pa_replay_claim = ''p'', pa_run_claim = ''c'', pa_ledger = ''l'',
     pa_state = ''s'', pa_health = ''h''\<rparr>"] by simp

section \<open>What the checked artifacts are\<close>

lemma artifact_bytes_of_limit:
  "artifact_bytes_of stat read loads name = Inr v \<Longrightarrow> length v \<le> artifact_limit name"
  by (auto simp: artifact_bytes_of_def Let_def res_bind_Inr_iff split: if_splits)

text \<open>
  Artifacts that pass are four, each within its byte limit, the ledger within its record limit; and the
  health among them is not \<open>FAILED\<close> and reports no failed ledger write.
\<close>

lemma artifact_bytes_checked:
  assumes "artifact_bytes stat read loads = Inr contents"
  shows "list_all2 (\<lambda>name v. length v \<le> artifact_limit name) ARTIFACTS contents
    \<and> length (split_lines (contents ! 1)) \<le> LEDGER_RECORD_LIMIT
    \<and> (\<exists>ps. loads (contents ! 3) = Inr (JObject ps) \<and> map_of ps ''status'' \<noteq> Some (JText ''FAILED'')
         \<and> map_of ps ''ledger_write_failed'' = Some (JBool False))"
proof -
  from assms obtain cs j where t: "list_all2 (\<lambda>name v. artifact_bytes_of stat read loads name = Inr v) ARTIFACTS cs"
    and j: "loads (cs ! 3) = Inr j"
      "(case j of JObject ps \<Rightarrow> res_bind (published_health ps) (\<lambda>_. Inr cs)
         | _ \<Rightarrow> Inl (TypeError ''health.json'')) = Inr contents"
    unfolding artifact_bytes_def res_bind_Inr_iff traverse_Inr_iff by blast
  from j(2) obtain ps where h0: "j = JObject ps" "published_health ps = Inr ()" "cs = contents"
    by (cases j) (auto simp: res_bind_Inr_iff)
  note t = t [unfolded h0(3)]
  have h: "loads (contents ! 3) = Inr (JObject ps)" "published_health ps = Inr ()" using j(1) h0 by simp_all
  have "list_all2 (\<lambda>name v. length v \<le> artifact_limit name) ARTIFACTS contents"
    using t by (rule list_all2_mono) (rule artifact_bytes_of_limit)
  moreover have "artifact_bytes_of stat read loads ''ledger.jsonl'' = Inr (contents ! 1)"
    using list_all2_nthD [OF t, of 1] by (simp add: ARTIFACTS_def)
  then have "length (split_lines (contents ! 1)) \<le> LEDGER_RECORD_LIMIT"
    by (auto simp: artifact_bytes_of_def Let_def res_bind_Inr_iff split: if_splits)
  moreover have "map_of ps ''status'' \<noteq> Some (JText ''FAILED'') \<and> map_of ps ''ledger_write_failed'' = Some (JBool False)"
    using h(2) by (auto simp: published_health_def guard_def split: option.splits if_splits)
  ultimately show ?thesis using h(1) by blast
qed

end
