(* ===== verification/LedgerReplay.thy ===== *)
theory LedgerReplay
  imports EngineProperties EnginePayload OfflineReplay
begin

text \<open>
  What a reader of \<^verbatim>\<open>ledger.jsonl\<close> gets back. The reader is a specification: it takes the records as
  JSON values, keeps those of type \<open>fill\<close>, reads the side, the quantity, the price, the fee and the
  source of each with the decimal parser, and applies them in order. Proved: the file has exactly one
  line per record, and the reader arrives at the position of the engine, in every reachable state.
\<close>

section \<open>Lines\<close>

lemma split_lines_line: "printable l \<Longrightarrow> split_lines (l @ CHR 0x0A # rest) = l # split_lines rest"
  by (induction l) auto

lemma ledger_lines:
  "split_lines (batch_text (ledger_line cf) rs) = map (json_text \<circ> ledger_payload cf) rs"
proof (induction rs)
  case (Cons r rs)
  then show ?case
    using split_lines_line [OF ledger_line_printable, of cf r "batch_text (ledger_line cf) rs"]
    by (simp add: batch_text_def ledger_line_def [abs_def])
qed (simp add: batch_text_def)

section \<open>The reader\<close>

definition read_decimal :: "json \<Rightarrow> dec option" where
  "read_decimal j =
     (case j of
        JText s \<Rightarrow> (case parse_decimal s of Some (Finite x) \<Rightarrow> Some x | _ \<Rightarrow> None)
      | _ \<Rightarrow> None)"

definition read_side :: "json \<Rightarrow> side option" where
  "read_side j =
     (if j = JText ''BUY'' then Some BUY else if j = JText ''SELL'' then Some SELL else None)"

definition read_source :: "json \<Rightarrow> fill_source option" where
  "read_source j =
     (if j = JText ''bbo'' then Some FromBbo else if j = JText ''trade'' then Some FromTrade else None)"

definition read_fill :: "(string \<times> json) list \<Rightarrow> fill_quote option" where
  "read_fill kvs =
     (case (Option.bind (map_of kvs ''side'') read_side, Option.bind (map_of kvs ''quantity'') read_decimal,
         Option.bind (map_of kvs ''price'') read_decimal, Option.bind (map_of kvs ''fee_usdc'') read_decimal,
         Option.bind (map_of kvs ''source'') read_source) of
        (Some sd, Some quantity, Some price, Some fee, Some source) \<Rightarrow>
          Some \<lparr>fq_side = sd, fq_quantity = quantity, fq_price = price, fq_fee_usdc = fee, fq_source = source\<rparr>
      | _ \<Rightarrow> None)"

fun replay_payloads :: "position_state \<Rightarrow> json list \<Rightarrow> position_state result" where
  "replay_payloads p [] = Inr p"
| "replay_payloads p (JObject kvs # js) =
     (if map_of kvs ''type'' \<noteq> Some (JText ''fill'') then replay_payloads p js
      else case read_fill kvs of
          None \<Rightarrow> Inl (ValueError ''not a fill'')
        | Some q \<Rightarrow> res_bind (apply_fill p q) (\<lambda>p. replay_payloads p js))"
| "replay_payloads p (_ # js) = Inl (ValueError ''not an object'')"

section \<open>Reading back what was written\<close>

definition decimal_quote :: "fill_quote \<Rightarrow> bool" where
  "decimal_quote q \<longleftrightarrow> is_decimal (fq_quantity q) \<and> is_decimal (fq_price q) \<and> is_decimal (fq_fee_usdc q)"

lemma read_decimal_written: "is_decimal x \<Longrightarrow> read_decimal (j_dec x) = Some x"
  by (simp add: read_decimal_def j_dec_def decimal_text_reads)

lemma read_side_written [simp]: "read_side (JText (side_text sd)) = Some sd"
  by (cases sd) (simp_all add: read_side_def side_text_def)

lemma read_source_written [simp]: "read_source (JText (source_text s)) = Some s"
  by (cases s) (simp_all add: read_source_def source_text_def)

lemma read_fill_written:
  "decimal_quote (fr_quote f) \<Longrightarrow>
    read_fill ((''type'', JText ''fill'') # (''mode'', m) # fill_fields f) = Some (fr_quote f)"
  by (cases "fr_quote f")
    (simp add: read_fill_def fill_fields_def decimal_quote_def read_decimal_written)

text \<open>Only a fill record has the type of a fill.\<close>

lemma ledger_payload_type:
  obtains (fill) f where "r = FillRecord f"
      "ledger_payload cf r = JObject ((''type'', JText ''fill'') # (''mode'', JText ''PAPER'') # fill_fields f)"
  | (other) kvs where "fill_records r = []" "ledger_payload cf r = JObject kvs"
      "map_of kvs ''type'' \<noteq> Some (JText ''fill'')"
proof (cases "(cf, r)" rule: ledger_payload.cases)
  case (5 cf f)
  then show ?thesis by (intro fill [of f]) (simp_all add: paper_record_def)
qed (auto simp: paper_record_def intro: other)

lemma replay_payloads_ledger:
  "\<forall>f \<in> set (select fill_records rs). decimal_quote (fr_quote f) \<Longrightarrow>
    replay_payloads p (map (ledger_payload cf) rs) = replay_fills p (select fill_records rs)"
proof (induction rs arbitrary: p)
  case (Cons r rs)
  show ?case
  proof (cases rule: ledger_payload_type [of r cf])
    case (fill f)
    with Cons show ?thesis by (simp add: read_fill_written)
  next
    case (other kvs)
    with Cons show ?thesis by simp
  qed
qed simp

text \<open>Every fill of a ledger is written in decimals: its numbers are results of the context.\<close>

definition fills_decimal :: "'s engine \<Rightarrow> bool" where
  "fills_decimal e \<longleftrightarrow> (\<forall>f \<in> set (select fill_records (engine_history e)). decimal_quote (fr_quote f))"

interpretation decimals: engine_invariant fills_decimal
proof
  fix e :: "'s engine" assume "fresh_start e"
  then show "fills_decimal e" by (simp add: fills_decimal_def fresh_fields)
next
  fix e e' :: "'s engine" assume s: "sound e" "micro e e'" and I: "fills_decimal e"
  from s(2,1) show "fills_decimal e'"
  proof (cases rule: micro_elim)
    case quiet
    with I show ?thesis by (auto simp: quiet_def quiet_by_def fills_decimal_def)
  next
    case (filled w r q f rs)
    have "decimal_quote (fr_quote f)"
      using filled(6,12) by (simp add: fill_permitted_def decimal_quote_def rep_is_decimal)
    with I filled(16-19) show ?thesis by (auto simp: fills_decimal_def)
  qed (use I in \<open>auto simp: fills_decimal_def\<close>)
qed

section \<open>The property\<close>

text \<open>
  C22: The ledger file tells the position. In every reachable state the text of the appended records
  splits into exactly one line for each record, the JSON text of its payload; and reading the fills
  back from the payloads (their sides, and their quantities, prices and fees from decimal text) and
  applying them in order to the starting cash gives exactly the position, the average entry, the
  cash, the realized PnL and the fees of the engine.
\<close>

theorem ledger_file_tells_position:
  assumes "reachable e"
  shows "split_lines (batch_text (ledger_line (en_config e)) (engine_history e))
      = map (json_text \<circ> ledger_payload (en_config e)) (engine_history e)
    \<and> replay_payloads (opening_position (en_config e))
        (map (ledger_payload (en_config e)) (engine_history e)) = Inr (en_position e)"
  using ledger_lines replay_payloads_ledger replayed.always [OF assms] decimals.always [OF assms]
  by (metis position_replayed_def fills_decimal_def)

theorem ledger_file_tells_position_witness:
  "\<exists>e :: unit engine. reachable e \<and> position_of e = 1 / 100
    \<and> replay_payloads (opening_position (en_config e))
        (map (ledger_payload (en_config e)) (engine_history e)) = Inr (en_position e)"
  using ledger_file_tells_position demo_filled by metis

end
