(* ===== verification/RiskDecision.thy ===== *)
theory RiskDecision
  imports PaperRisk DecimalText "HOL-Library.AList"
begin

text \<open>
  The extension of a D01 smoke-risk decision by the PAPER limits (\<open>extend_d01_risk_decision\<close> and the
  two \<open>to_dict\<close> methods of \<open>paper_risk.py\<close>). A \<open>dict\<close> with text keys is an association list in
  insertion order: \<open>get\<close> is \<^const>\<open>map_of\<close>, and an assignment is \<^const>\<open>AList.update\<close>, which keeps
  the place of a key that is there and appends one that is not. The values are those of \<open>json\<close>: a
  value of another type is as inert as \<open>JNull\<close>. The model's decimals carry no exponent, so the text
  \<open>str(Decimal)\<close> is the argument \<open>str_of\<close> of the definitions that print one.
\<close>

section \<open>The dictionaries\<close>

definition PAPER_HARD_LIMIT_GATES :: "string list" where
  "PAPER_HARD_LIMIT_GATES =
     [''risk_based_size'', ''max_paper_leverage'', ''max_gross_exposure'', ''max_net_exposure'',
      ''max_simultaneous_positions'', ''max_asset_concentration'', ''max_strategy_concentration'',
      ''max_venue_concentration'', ''daily_loss_guard'', ''weekly_loss_guard'', ''drawdown_kill'',
      ''no_averaging_down'']"

definition limits_to_dict :: "(dec \<Rightarrow> string) \<Rightarrow> risk_limits \<Rightarrow> json" where
  "limits_to_dict str_of lm = JObject
     [(''risk_per_trade_fraction'', JText (str_of (rl_risk_per_trade_fraction lm))),
      (''max_simultaneous_positions'', JInt (rl_max_simultaneous_positions lm)),
      (''daily_loss_fraction'', JText (str_of (rl_daily_loss_fraction lm))),
      (''weekly_loss_fraction'', JText (str_of (rl_weekly_loss_fraction lm))),
      (''drawdown_kill_fraction'', JText (str_of (rl_drawdown_kill_fraction lm))),
      (''max_paper_leverage'', JText (str_of (rl_max_paper_leverage lm))),
      (''max_gross_exposure_fraction'', JText (str_of (rl_max_gross_exposure_fraction lm))),
      (''max_net_exposure_fraction'', JText (str_of (rl_max_net_exposure_fraction lm))),
      (''max_asset_concentration_fraction'', JText (str_of (rl_max_asset_concentration_fraction lm))),
      (''max_strategy_concentration_fraction'', JText (str_of (rl_max_strategy_concentration_fraction lm))),
      (''max_venue_concentration_fraction'', JText (str_of (rl_max_venue_concentration_fraction lm))),
      (''trading_mode'', JText ''PAPER'')]"

definition decision_to_dict :: "(dec \<Rightarrow> string) \<Rightarrow> risk_decision \<Rightarrow> json" where
  "decision_to_dict str_of d = JObject
     [(''approved'', JBool (rd_approved d)),
      (''reasons'', JList (map (\<lambda>r. JText (reason_text r)) (rd_reasons d))),
      (''sized_notional_usdc'', JText (str_of (rd_sized_notional_usdc d))),
      (''proposed_notional_usdc'', JText (str_of (rd_proposed_notional_usdc d))),
      (''account_risk_budget_usdc'', JText (str_of (rd_account_risk_budget_usdc d))),
      (''effective_stop_distance_fraction'', JText (str_of (rd_effective_stop_distance_fraction d))),
      (''projected_gross_exposure_usdc'', JText (str_of (rd_projected_gross_exposure_usdc d))),
      (''projected_net_exposure_usdc'', JText (str_of (rd_projected_net_exposure_usdc d))),
      (''projected_leverage'', JText (str_of (rd_projected_leverage d))),
      (''projected_open_position_count'', JInt (rd_projected_open_position_count d)),
      (''limits'', limits_to_dict str_of (rd_limits d)),
      (''gates'', JList (map JText PAPER_HARD_LIMIT_GATES)),
      (''trading_mode'', JText ''PAPER'')]"

section \<open>The extension\<close>

fun is_text :: "json \<Rightarrow> bool" where
  "is_text (JText _) = True"
| "is_text _ = False"

fun decision_fields :: "json \<Rightarrow> (string \<times> json) list result" where
  "decision_fields (JObject fs) = Inr fs"
| "decision_fields _ = Inl (TypeError ''decision'')"

definition reason_list :: "(string \<times> json) list \<Rightarrow> json list result" where
  "reason_list fs = (case map_of fs ''reasons'' of
     Some (JList rs) \<Rightarrow> Inr rs
   | _ \<Rightarrow> Inl (TypeError ''reasons''))"

definition extend_d01_risk_decision ::
  "(dec \<Rightarrow> string) \<Rightarrow> json \<Rightarrow> portfolio_snapshot \<Rightarrow> order_intent \<Rightarrow> risk_limits \<Rightarrow> raw_mode \<Rightarrow> json result" where
  "extend_d01_risk_decision str_of decision snapshot intent limits trading_mode =
     res_bind (decision_fields decision) (\<lambda>fs.
     res_bind (reason_list fs) (\<lambda>d01_reasons.
     res_bind (evaluate_paper_hard_limits snapshot intent limits trading_mode) (\<lambda>paper.
     Inr (JObject
       (AList.update ''paper_risk'' (decision_to_dict str_of paper)
       (AList.update ''reasons''
          (JList (filter is_text d01_reasons @ map (\<lambda>r. JText (reason_text r)) (rd_reasons paper)))
       (AList.update ''approved''
          (JBool (map_of fs ''approved'' = Some (JBool True) \<and> rd_approved paper)) fs)))))))"

section \<open>What is kept\<close>

lemma reason_list_Inr: "reason_list fs = Inr rs \<longleftrightarrow> map_of fs ''reasons'' = Some (JList rs)"
  by (auto simp: reason_list_def split: option.split json.splits)

lemma extend_Inr:
  assumes "extend_d01_risk_decision str_of decision sn oi lm mode = Inr extended"
  obtains fs rs paper gs where "decision = JObject fs" "map_of fs ''reasons'' = Some (JList rs)"
    "evaluate_paper_hard_limits sn oi lm mode = Inr paper" "extended = JObject gs"
    "map_of gs = (map_of fs)(''approved'' \<mapsto> JBool (map_of fs ''approved'' = Some (JBool True) \<and> rd_approved paper),
       ''reasons'' \<mapsto> JList (filter is_text rs @ map (\<lambda>r. JText (reason_text r)) (rd_reasons paper)),
       ''paper_risk'' \<mapsto> decision_to_dict str_of paper)"
proof -
  from assms obtain fs rs paper where
    p: "decision_fields decision = Inr fs" "map_of fs ''reasons'' = Some (JList rs)"
      "evaluate_paper_hard_limits sn oi lm mode = Inr paper"
    and e: "extended = JObject
       (AList.update ''paper_risk'' (decision_to_dict str_of paper)
       (AList.update ''reasons''
          (JList (filter is_text rs @ map (\<lambda>r. JText (reason_text r)) (rd_reasons paper)))
       (AList.update ''approved''
          (JBool (map_of fs ''approved'' = Some (JBool True) \<and> rd_approved paper)) fs)))"
    by (auto simp: extend_d01_risk_decision_def res_bind_Inr_iff reason_list_Inr)
  from p(1) have "decision = JObject fs" by (cases decision) simp_all
  from that [OF this p(2,3) e] show ?thesis by (simp add: update_conv')
qed

text \<open>
  C28: A D01 rejection is never relaxed. When the extension returns, it is a dictionary that is
  approved exactly when the D01 decision was approved with \<open>True\<close> itself and the PAPER limits give
  no reason; its reasons are the text reasons of D01, all of them and in order, followed by those of
  the PAPER limits; it carries the PAPER decision; and every other key of the D01 decision keeps its
  value.
\<close>
theorem d01_rejection_never_relaxed:
  assumes "extend_d01_risk_decision str_of decision sn oi lm mode = Inr extended"
  shows "\<exists>fs gs rs paper. decision = JObject fs \<and> extended = JObject gs
     \<and> evaluate_paper_hard_limits sn oi lm mode = Inr paper \<and> map_of fs ''reasons'' = Some (JList rs)
     \<and> (map_of gs ''approved'' = Some (JBool True) \<longleftrightarrow>
          map_of fs ''approved'' = Some (JBool True) \<and> rd_reasons paper = [])
     \<and> map_of gs ''reasons'' =
          Some (JList (filter is_text rs @ map (\<lambda>r. JText (reason_text r)) (rd_reasons paper)))
     \<and> map_of gs ''paper_risk'' = Some (decision_to_dict str_of paper)
     \<and> (\<forall>k \<in> - {''approved'', ''reasons'', ''paper_risk''}. map_of gs k = map_of fs k)"
proof (rule extend_Inr [OF assms], goal_cases)
  case (1 fs rs paper gs)
  have "rd_approved paper \<longleftrightarrow> rd_reasons paper = []"
    by (rule evaluate_Inr [OF 1(3)]) simp
  with 1 show ?case by (intro exI [of _ fs] exI [of _ gs] exI [of _ rs] exI [of _ paper]) auto
qed

text \<open>A D01 decision with the reason \<open>d01\<close>, and one that D01 approved.\<close>

definition d01_decision :: "bool \<Rightarrow> string list \<Rightarrow> json" where
  "d01_decision approved reasons = JObject
     [(''approved'', JBool approved), (''reasons'', JList (JNull # map JText reasons)), (''gate'', JText ''D01'')]"

theorem d01_rejection_never_relaxed_witness:
  "\<exists>gs. extend_d01_risk_decision decimal_text (d01_decision False [''d01'']) (example_snapshot 0)
       (example_intent BUY (1 / 20) False) DEFAULT_PAPER_RISK_LIMITS (ModeText ''PAPER'') = Inr (JObject gs)
     \<and> map_of gs ''approved'' \<noteq> Some (JBool True) \<and> map_of gs ''reasons'' = Some (JList [JText ''d01''])
     \<and> map_of gs ''gate'' = Some (JText ''D01'')"
proof -
  let ?x = "extend_d01_risk_decision decimal_text (d01_decision False [''d01'']) (example_snapshot 0)
       (example_intent BUY (1 / 20) False) DEFAULT_PAPER_RISK_LIMITS (ModeText ''PAPER'')"
  have e: "case example_decision 0 (example_intent BUY (1 / 20) False) of Inl _ \<Rightarrow> False | Inr d \<Rightarrow> rd_reasons d = []"
    by code_simp
  then obtain d where d: "evaluate_paper_hard_limits (example_snapshot 0) (example_intent BUY (1 / 20) False)
      DEFAULT_PAPER_RISK_LIMITS (ModeText ''PAPER'') = Inr d" "rd_reasons d = []"
    by (auto simp: example_decision_def split: sum.splits)
  then obtain y where y: "?x = Inr y"
    by (simp add: extend_d01_risk_decision_def res_bind_def d01_decision_def reason_list_def)
  from d01_rejection_never_relaxed [OF y] y d show ?thesis
    by (auto simp: d01_decision_def)
qed

end
