(* ===== verification/OfflineRun.thy ===== *)
theory OfflineRun
  imports OfflineReplay EngineTape
begin

text \<open>
  \<open>run_replay\<close> of \<^verbatim>\<open>paper_engine/offline_replay.py\<close>, composed of the request guards, the snapshot, the
  preflight, the tape, the engine, the artifact checks and the publication. Everything the command asks
  of its surroundings is a field of \<open>replay_world\<close>; what it asks twice is a function of the time it asks.
  Two of them stand for code that is not modelled: the exponent check of an event's decimals, and the
  text of the replay claim. Proved: a replay that returns published the complete artifacts of a run that
  processed the whole tape, over inputs that did not change; one that raises advertised nothing.
\<close>

section \<open>The surroundings\<close>

record replay_world =
  rw_mode :: raw_mode
  rw_git :: "nat \<Rightarrow> (string \<times> string) result"
  rw_source_hashes :: "nat \<Rightarrow> string result"
  rw_bind :: "nat \<Rightarrow> path \<Rightarrow> mount_identity \<Rightarrow> mount_identity result"
  rw_mounts :: "mount_identity list"
  rw_device :: "path \<Rightarrow> string"
  rw_directory :: "nat \<Rightarrow> path \<Rightarrow> directory_identity result"
  rw_scratch :: path
  rw_staging_name :: string
  rw_mkdir :: "exn option"
  rw_staging_write :: "string \<Rightarrow> exn option"
  rw_open_part :: "nat \<Rightarrow> path \<Rightarrow> part_view"
  rw_sha :: "string \<Rightarrow> string"
  rw_loads :: "string \<Rightarrow> json result"
  rw_raw_connect :: "(string \<times> json) list \<Rightarrow> raw_connection result"
  rw_files :: file_system
  rw_connect :: "(string \<times> json) list option \<Rightarrow> connection result"
  rw_decimals_ok :: "market_event \<Rightarrow> unit result"
  rw_zone :: "utc \<Rightarrow> int"
  rw_engine_io :: "nat \<Rightarrow> io_result"
  rw_stat :: "reference_state engine \<Rightarrow> string \<Rightarrow> nat result"
  rw_read :: "reference_state engine \<Rightarrow> string \<Rightarrow> string result"
  rw_claim :: "input_snapshot list \<Rightarrow> preflight_counts \<Rightarrow> market_event list \<Rightarrow> string list \<Rightarrow> string result"

section \<open>Before the staging directory\<close>

definition LOCAL_IMAGE :: string where
  "LOCAL_IMAGE = ''local-offline:no-oci-image''"

definition source_provenance :: "replay_world \<Rightarrow> nat \<Rightarrow> replay_request \<Rightarrow> (string \<times> string) result" where
  "source_provenance w n rq =
     res_bind (engine_source_commit (rw_git w n) (rq_source_commit rq) (rq_source_provenance rq)) (\<lambda>told.
     res_bind (rw_source_hashes w n) (\<lambda>hashes. Inr (told, hashes)))"

definition replay_config :: "string \<Rightarrow> engine_config" where
  "replay_config told = DEFAULT_ENGINE_CONFIG
     \<lparr>cf_trading_mode := ModeText ''PAPER'', cf_source_commit := told, cf_image_digest := LOCAL_IMAGE\<rparr>"

definition bind_expected :: "replay_world \<Rightarrow> nat \<Rightarrow> replay_request \<Rightarrow> mount_identity option result" where
  "bind_expected w n rq =
     (case rq_expected_mount rq of
        None \<Rightarrow> Inr None
      | Some m \<Rightarrow> res_bind (rw_bind w n (rq_input_root rq) m) (\<lambda>m. Inr (Some m)))"

definition mount_at :: "replay_world \<Rightarrow> path \<Rightarrow> directory_identity \<Rightarrow> mount_identity result" where
  "mount_at w p identity = descriptor_mount (rw_mounts w) (rw_device w p) (snd (snd identity))"

definition local_at :: "replay_world \<Rightarrow> path \<Rightarrow> directory_identity \<Rightarrow> mount_identity result" where
  "local_at w p identity = require_local (rw_mounts w) (rw_device w p) (snd (snd identity))"

definition new_staging :: "replay_world \<Rightarrow> path \<Rightarrow> directory_identity \<Rightarrow> path result" where
  "new_staging w input_root source_identity =
     res_bind (absolute (rw_scratch w)) (\<lambda>scratch.
     res_bind (rw_directory w 0 scratch) (\<lambda>identity.
     res_bind (local_at w scratch identity) (\<lambda>_.
     res_bind (reject_mount_alias source_identity identity) (\<lambda>_.
     if is_relative_to (scratch @ [rw_staging_name w]) input_root
     then Inl (OfflineInputError ''Local staging must also be outside the entire input root.'')
     else case rw_mkdir w of Some ex \<Rightarrow> Inl ex | None \<Rightarrow> Inr (scratch @ [rw_staging_name w])))))"

record replay_setup =
  su_parts :: "path list"
  su_provenance :: "string \<times> string"
  su_strategy :: reference_state
  su_mount :: "mount_identity option"
  su_source :: directory_identity
  su_target :: directory_identity
  su_staging :: path

definition set_up :: "replay_world \<Rightarrow> replay_request \<Rightarrow> output_store \<Rightarrow> replay_setup result" where
  "set_up w rq st =
     res_bind (check_request rq) (\<lambda>parts.
     res_bind (source_provenance w 0 rq) (\<lambda>provenance.
     res_bind (make_reference_strategy (rq_strategy rq) ''BTC-PERP'' (1 / 10000) 1 1) (\<lambda>strategy.
     res_bind (bind_expected w 0 rq) (\<lambda>mount.
     res_bind (rw_directory w 0 (rq_input_root rq)) (\<lambda>source.
     res_bind (rw_directory w 0 (rq_store_root rq)) (\<lambda>target.
     res_bind (mount_at w (rq_input_root rq) source) (\<lambda>source_mount.
     res_bind (case mount of
         None \<Rightarrow> res_bind (local_at w (rq_input_root rq) source) (\<lambda>_. Inr ())
       | Some m \<Rightarrow> guard (source_mount = m)
           (OfflineInputError ''Input root descriptor differs from the verified remote mount.'')) (\<lambda>_.
     res_bind (local_at w (rq_store_root rq) target) (\<lambda>_.
     res_bind (guard ((fst source, fst (snd source)) \<noteq> (fst target, fst (snd target)))
       (OfflineInputError ''Source and output resolve to the same directory identity.'')) (\<lambda>_.
     res_bind (reject_mount_alias source target) (\<lambda>_.
     res_bind (guard (os_runs st (rq_run_id rq) = None)
       (OfflineInputError ''Run ID already exists; nothing can replace or resume it.'')) (\<lambda>_.
     res_bind (new_staging w (rq_input_root rq) source) (\<lambda>staging.
     Inr \<lparr>su_parts = parts, su_provenance = provenance, su_strategy = strategy, su_mount = mount,
       su_source = source, su_target = target, su_staging = staging\<rparr>)))))))))))))"

section \<open>The engine run\<close>

fun replay_events :: "replay_world \<Rightarrow> market_event list \<Rightarrow> reference_state engine \<Rightarrow> (unit, reference_state engine) outcome" where
  "replay_events w [] e = skip e"
| "replay_events w (event # events) e =
     seq (on_event event e) (\<lambda>e.
     seq (lift_result (check_artifact_sizes (rw_stat w e)) e) (replay_events w events))"

text \<open>The run is closed whatever the events do; an exception of \<open>close\<close> replaces theirs.\<close>

definition replay_engine :: "replay_world \<Rightarrow> replay_request \<Rightarrow> replay_setup \<Rightarrow> market_event list \<Rightarrow> reference_state engine result" where
  "replay_engine w rq su tape =
     (case open_engine (replay_config (fst (su_provenance su))) (received_utc_ns (hd tape) div 1000) (rw_zone w)
         reference_strategy (su_strategy su) (rw_engine_io w) (rq_run_id rq) {} of
        Raise ex dirs \<Rightarrow> Inl ex
      | Ok e dirs \<Rightarrow>
          (let m = replay_events w tape e
           in case close_run (out_state m) of
                Raise ex e \<Rightarrow> Inl ex
              | Ok u e \<Rightarrow> (case raised m of Some ex \<Rightarrow> Inl ex | None \<Rightarrow> Inr e)))"

section \<open>The replay\<close>

definition staged :: "replay_world \<Rightarrow> string \<Rightarrow> unit result" where
  "staged w name = (case rw_staging_write w name of Some ex \<Rightarrow> Inl ex | None \<Rightarrow> Inr ())"

definition same_roots :: "replay_world \<Rightarrow> nat \<Rightarrow> replay_request \<Rightarrow> replay_setup \<Rightarrow> unit result" where
  "same_roots w n rq su =
     res_bind (rw_directory w n (rq_input_root rq)) (\<lambda>source.
     res_bind (same_directory source (su_source su)) (\<lambda>_.
     res_bind (rw_directory w n (rq_store_root rq)) (\<lambda>target. same_directory target (su_target su))))"

definition read_tape :: "replay_world \<Rightarrow> replay_request \<Rightarrow> input_snapshot list \<Rightarrow> market_event list result" where
  "read_tape w rq snapshots =
     res_bind (load_hyperliquid_parquet_tape (rw_files w) (rw_connect w) (map is_path snapshots)
       ''BTC-PERP'' ''hyperliquid'' ''BTC-PERP'' (Some (rq_resources rq))) (\<lambda>events.
     if ol_events (rq_limits rq) < int (length events)
     then Inl (OfflineInputError ''Normalized event count exceeds its preflight bound.'')
     else res_bind (traverse (rw_decimals_ok w) events) (\<lambda>_.
       if \<not> distinct (map event_sort_key events)
       then Inl (OfflineInputError ''Ambiguous normalized event ordering.'')
       else Inr events))"

text \<open>What is published, and the counts of the result.\<close>

definition replayed_artifacts ::
  "replay_world \<Rightarrow> replay_request \<Rightarrow> replay_setup \<Rightarrow> (published \<times> preflight_counts \<times> nat) result" where
  "replayed_artifacts w rq su =
     (let mount_point = (fst (su_source su), snd (snd (su_source su)))
      in res_bind (same_roots w 1 rq su) (\<lambda>_.
         res_bind (staged w ''replay-plan.json'') (\<lambda>_.
         res_bind (snapshot_parts (rw_sha w) mount_point (rw_open_part w 0) (su_parts su)
           (su_staging su @ [''inputs'']) (rq_limits rq)) (\<lambda>(snapshots, copies).
         res_bind (staged w ''input-claim.json'') (\<lambda>_.
         res_bind (preflight (rw_raw_connect w) (rw_sha w) (rw_loads w) snapshots (rq_limits rq)
           (rq_resources rq)) (\<lambda>counts.
         res_bind (read_tape w rq snapshots) (\<lambda>events.
         res_bind (replay_engine w rq su events) (\<lambda>e.
         res_bind (artifact_bytes (rw_stat w e) (rw_read w e) (rw_loads w)) (\<lambda>contents.
         res_bind (revalidate_parts (rw_sha w) mount_point (rw_open_part w 1) snapshots) (\<lambda>_.
         res_bind (same_roots w 2 rq su) (\<lambda>_.
         res_bind (bind_expected w 1 rq) (\<lambda>mount.
         res_bind (guard (mount = su_mount su) (OfflineInputError ''Remote mount changed during the replay.'')) (\<lambda>_.
         res_bind (source_provenance w 1 rq) (\<lambda>provenance.
         res_bind (guard (provenance = su_provenance su)
           (OfflineInputError ''Source provenance changed during replay.'')) (\<lambda>_.
         res_bind (rw_claim w snapshots counts events contents) (\<lambda>encoded.
         if JSON_BYTE_LIMIT < length encoded
         then Inl (OfflineInputError ''Replay provenance exceeds the bounded JSON limit.'')
         else res_bind (staged w ''replay-claim.json'') (\<lambda>_.
           Inr (\<lparr>pa_replay_claim = encoded, pa_run_claim = contents ! 0, pa_ledger = contents ! 1,
             pa_state = contents ! 2, pa_health = contents ! 3\<rparr>, counts, length events))))))))))))))))))"

text \<open>The name of an exception's class, for the reason of a failed replay.\<close>

fun exn_class :: "exn \<Rightarrow> string" where
  "exn_class (ValueError _) = ''ValueError''"
| "exn_class (TypeError _) = ''TypeError''"
| "exn_class (PaperEngineError _) = ''PaperEngineError''"
| "exn_class (PaperTapeError _) = ''PaperTapeError''"
| "exn_class (OfflineInputError _) = ''OfflineInputError''"
| "exn_class (OfflineReplayError _ _) = ''OfflineReplayError''"
| "exn_class UnsafeTradingModeError = ''UnsafeTradingModeError''"
| "exn_class (RunAlreadyExistsError _) = ''RunAlreadyExistsError''"
| "exn_class (OSError _) = ''OSError''"
| "exn_class ZeroDivisionError = ''DivisionByZero''"
| "exn_class (StrategyError _) = ''Exception''"
| "exn_class (OverflowError _) = ''OverflowError''"
| "exn_class (DuckDBError _) = ''Error''"
| "exn_class (KeyError _) = ''KeyError''"

definition failure_reason :: "exn \<Rightarrow> string" where
  "failure_reason ex =
     (case ex of
        OfflineInputError msg \<Rightarrow> msg
      | _ \<Rightarrow> ''Offline replay rejected ('' @ exn_class ex @ ''); inspect staging evidence.'')"

definition replay_failed :: "path option \<Rightarrow> exn \<Rightarrow> exn" where
  "replay_failed staging ex = OfflineReplayError staging (failure_reason ex)"

text \<open>\<open>actual\<close> is what the reserved output directory turns out to be.\<close>

definition run_replay ::
  "replay_world \<Rightarrow> int \<times> string \<Rightarrow> replay_request \<Rightarrow> output_store
    \<Rightarrow> (preflight_counts \<times> nat, output_store) outcome" where
  "run_replay w actual rq st =
     (case require_local_paper_mode (rw_mode w) of
        Inl ex \<Rightarrow> Raise ex st
      | Inr mode \<Rightarrow>
          (case set_up w rq st of
             Inl ex \<Rightarrow> Raise (replay_failed None ex) st
           | Inr su \<Rightarrow>
               (case replayed_artifacts w rq su of
                  Inl ex \<Rightarrow> Raise (replay_failed (Some (su_staging su)) ex) st
                | Inr (a, counts, n) \<Rightarrow>
                    (case publish actual (fst (su_target su), snd (snd (su_target su))) (rq_run_id rq) a st of
                       Raise ex st' \<Rightarrow> Raise (replay_failed (Some (su_staging su)) ex) st'
                     | Ok u st' \<Rightarrow> Ok (counts, n) st'))))"

section \<open>What a replay leaves\<close>

lemma run_events_open:
  "run_open e \<Longrightarrow> run_events tape e = Ok () e' \<Longrightarrow> run_open e'"
proof (induction tape arbitrary: e)
  case (Cons ev tape)
  then obtain e1 where "on_event ev e = Ok () e1" "run_events tape e1 = Ok () e'"
    by (auto simp: andthen_Ok_iff)
  with on_event_open [OF Cons.prems(1)] Cons.IH show ?case by blast
qed simp

lemma replay_events_Ok:
  "replay_events w tape e = Ok () e' \<Longrightarrow> run_events tape e = Ok () e'"
  by (induction w tape e rule: replay_events.induct) (auto simp: andthen_Ok_iff lift_Ok_iff)

text \<open>An engine run that was replayed: opened, fed the whole tape, and closed.\<close>

definition engine_replayed ::
  "replay_world \<Rightarrow> replay_request \<Rightarrow> replay_setup \<Rightarrow> market_event list \<Rightarrow> reference_state engine \<Rightarrow> bool" where
  "engine_replayed w rq su tape e \<longleftrightarrow> (\<exists>e0 e1 dirs.
     open_engine (replay_config (fst (su_provenance su))) (received_utc_ns (hd tape) div 1000) (rw_zone w)
       reference_strategy (su_strategy su) (rw_engine_io w) (rq_run_id rq) {} = Ok e0 dirs
     \<and> run_open e0 \<and> run_events tape e0 = Ok () e1 \<and> run_open e1 \<and> close_run e1 = Ok () e)"

lemma replay_engine_Inr:
  assumes "replay_engine w rq su tape = Inr e"
  shows "engine_replayed w rq su tape e"
proof -
  from assms obtain e0 dirs where o: "open_engine (replay_config (fst (su_provenance su)))
      (received_utc_ns (hd tape) div 1000) (rw_zone w) reference_strategy (su_strategy su) (rw_engine_io w)
      (rq_run_id rq) {} = Ok e0 dirs"
    and r: "(case close_run (out_state (replay_events w tape e0)) of Raise ex e \<Rightarrow> Inl ex
      | Ok u e \<Rightarrow> (case raised (replay_events w tape e0) of Some ex \<Rightarrow> Inl ex | None \<Rightarrow> Inr e)) = Inr e"
    by (auto simp: replay_engine_def Let_def split: outcome.splits)
  from r obtain e1 where e1: "replay_events w tape e0 = Ok () e1" "close_run e1 = Ok () e"
    by (cases "replay_events w tape e0") (auto split: outcome.splits)
  have "run_open e0" by (rule open_engine_open [OF o])
  with o e1 replay_events_Ok [OF e1(1)] run_events_open show ?thesis
    unfolding engine_replayed_def by blast
qed

lemma replayed_artifacts_Inr:
  assumes "replayed_artifacts w rq su = Inr (a, counts, n)"
  obtains snapshots copies tape e where
    "snapshot_parts (rw_sha w) (fst (su_source su), snd (snd (su_source su))) (rw_open_part w 0) (su_parts su)
       (su_staging su @ [''inputs'']) (rq_limits rq) = Inr (snapshots, copies)"
    "preflight (rw_raw_connect w) (rw_sha w) (rw_loads w) snapshots (rq_limits rq) (rq_resources rq) = Inr counts"
    "read_tape w rq snapshots = Inr tape" "length tape = n" "engine_replayed w rq su tape e"
    "artifact_bytes (rw_stat w e) (rw_read w e) (rw_loads w) = Inr [pa_run_claim a, pa_ledger a, pa_state a, pa_health a]"
    "revalidate_parts (rw_sha w) (fst (su_source su), snd (snd (su_source su))) (rw_open_part w 1) snapshots = Inr ()"
    "source_provenance w 1 rq = Inr (su_provenance su)"
proof -
  from assms obtain snapshots copies tape e contents where
    1: "snapshot_parts (rw_sha w) (fst (su_source su), snd (snd (su_source su))) (rw_open_part w 0) (su_parts su)
       (su_staging su @ [''inputs'']) (rq_limits rq) = Inr (snapshots, copies)"
    "preflight (rw_raw_connect w) (rw_sha w) (rw_loads w) snapshots (rq_limits rq) (rq_resources rq) = Inr counts"
    "read_tape w rq snapshots = Inr tape" "length tape = n" "replay_engine w rq su tape = Inr e"
    "revalidate_parts (rw_sha w) (fst (su_source su), snd (snd (su_source su))) (rw_open_part w 1) snapshots = Inr ()"
    "source_provenance w 1 rq = Inr (su_provenance su)"
    and c: "artifact_bytes (rw_stat w e) (rw_read w e) (rw_loads w) = Inr contents"
      "pa_run_claim a = contents ! 0" "pa_ledger a = contents ! 1" "pa_state a = contents ! 2" "pa_health a = contents ! 3"
    unfolding replayed_artifacts_def Let_def
    by (clarsimp simp: res_bind_Inr_iff guard_def split: if_splits)
  have "length contents = 4"
    using artifact_bytes_checked [OF c(1)] by (auto simp: ARTIFACTS_def dest: list_all2_lengthD)
  then have "contents = [contents ! 0, contents ! 1, contents ! 2, contents ! 3]"
    by (auto simp: numeral_eq_Suc length_Suc_conv)
  with c have "artifact_bytes (rw_stat w e) (rw_read w e) (rw_loads w)
      = Inr [pa_run_claim a, pa_ledger a, pa_state a, pa_health a]" by simp
  with 1 replay_engine_Inr [OF 1(5)] show ?thesis by (intro that)
qed

text \<open>
  What a replay that returns did: the inputs were snapshotted and found unchanged afterwards, the engine
  was opened, fed the whole tape, whose events have different places in the order, and closed; the run
  identifier was free, and the new directory, the only change, holds the checked artifacts of that engine.
\<close>

definition complete_publication ::
  "replay_world \<Rightarrow> replay_request \<Rightarrow> output_store \<Rightarrow> nat \<Rightarrow> output_store \<Rightarrow> bool" where
  "complete_publication w rq st n st' \<longleftrightarrow> (\<exists>su snapshots copies tape e (a :: published) d.
     set_up w rq st = Inr su \<and> n = length tape
     \<and> snapshot_parts (rw_sha w) (fst (su_source su), snd (snd (su_source su))) (rw_open_part w 0) (su_parts su)
         (su_staging su @ [''inputs'']) (rq_limits rq) = Inr (snapshots, copies)
     \<and> revalidate_parts (rw_sha w) (fst (su_source su), snd (snd (su_source su))) (rw_open_part w 1) snapshots = Inr ()
     \<and> read_tape w rq snapshots = Inr tape \<and> distinct (map event_sort_key tape)
     \<and> engine_replayed w rq su tape e
     \<and> artifact_bytes (rw_stat w e) (rw_read w e) (rw_loads w)
         = Inr [pa_run_claim a, pa_ledger a, pa_state a, pa_health a]
     \<and> os_runs st (rq_run_id rq) = None \<and> os_runs st' = (os_runs st)(rq_run_id rq \<mapsto> d)
     \<and> d ''run-claim.json'' = Some (pa_run_claim a) \<and> d ''ledger.jsonl'' = Some (pa_ledger a)
     \<and> d ''state.json'' = Some (pa_state a) \<and> d ''health.json'' = Some (pa_health a))"

lemma published_replay:
  assumes "set_up w rq st = Inr su" "replayed_artifacts w rq su = Inr (a, counts, n)"
    and p: "publish actual expected (rq_run_id rq) a st = Ok u st'"
  shows "complete_publication w rq st n st'"
  using assms(2)
proof (rule replayed_artifacts_Inr, goal_cases)
  case (1 snapshots copies tape e)
  from 1(3) have keys: "distinct (map event_sort_key tape)"
    by (auto simp: read_tape_def res_bind_Inr_iff split: if_splits)
  from publish_cases [where actual = actual and expected = expected and run_id = "rq_run_id rq" and a = a and st = st] p
  obtain d where d: "os_runs st (rq_run_id rq) = None"
    "os_runs st' = (os_runs st)(rq_run_id rq \<mapsto> d)" "d ''run-claim.json'' = Some (pa_run_claim a)"
    "d ''ledger.jsonl'' = Some (pa_ledger a)" "d ''state.json'' = Some (pa_state a)"
    "d ''health.json'' = Some (pa_health a)" by auto
  show ?case
    unfolding complete_publication_def
    by (rule exI [of _ su], rule exI [of _ snapshots], rule exI [of _ copies], rule exI [of _ tape],
        rule exI [of _ e], rule exI [of _ a], rule exI [of _ d])
      (use assms(1) 1 d keys in simp)
qed

lemma run_replay_cases:
  obtains (mode) ex where "require_local_paper_mode (rw_mode w) = Inl ex" "run_replay w actual rq st = Raise ex st"
  | (refused) staging ex where "run_replay w actual rq st = Raise (replay_failed staging ex) st"
  | (published) su a counts n where "set_up w rq st = Inr su" "replayed_artifacts w rq su = Inr (a, counts, n)"
      "run_replay w actual rq st =
         (case publish actual (fst (su_target su), snd (snd (su_target su))) (rq_run_id rq) a st of
            Raise ex st' \<Rightarrow> Raise (replay_failed (Some (su_staging su)) ex) st' | Ok u st' \<Rightarrow> Ok (counts, n) st')"
proof (cases "require_local_paper_mode (rw_mode w)")
  case (Inl ex)
  then show ?thesis by (intro mode) (simp_all add: run_replay_def)
next
  case m: (Inr md)
  show ?thesis
  proof (cases "set_up w rq st")
    case (Inl ex)
    with m show ?thesis by (intro refused [of None ex]) (simp add: run_replay_def)
  next
    case su: (Inr su)
    show ?thesis
    proof (cases "replayed_artifacts w rq su")
      case (Inl ex)
      with m su show ?thesis by (intro refused [of "Some (su_staging su)" ex]) (simp add: run_replay_def)
    next
      case (Inr r)
      obtain a counts n where "r = (a, counts, n)" by (cases r) auto
      with m su Inr show ?thesis by (intro published [of su a counts n]) (simp_all add: run_replay_def)
    qed
  qed
qed

text \<open>
  C29: A replay publishes a complete run or advertises nothing. When it returns, its publication is
  complete, over unchanged inputs and of an engine that processed the whole tape and was closed. When it
  raises, the exception is the replay's own or the refusal of the trading mode, and the store is as it was
  or has one new directory without health.
\<close>
theorem replay_publishes_complete_runs:
  "case run_replay w actual rq st of
     Ok result st' \<Rightarrow> complete_publication w rq st (snd result) st'
   | Raise ex st' \<Rightarrow> (ex = UnsafeTradingModeError \<or> (\<exists>staging reason. ex = OfflineReplayError staging reason))
        \<and> (os_runs st' = os_runs st \<or> os_runs st (rq_run_id rq) = None
            \<and> (\<exists>d. os_runs st' = (os_runs st)(rq_run_id rq \<mapsto> d) \<and> d ''health.json'' = None))"
proof (cases rule: run_replay_cases [of w actual rq st])
  case (mode ex)
  then have "ex = UnsafeTradingModeError"
    by (auto simp: require_local_paper_mode_def split: raw_mode.splits if_splits)
  with mode show ?thesis by simp
next
  case (refused staging ex)
  then show ?thesis by (simp add: replay_failed_def)
next
  case (published su a counts n)
  let ?target = "(fst (su_target su), snd (snd (su_target su)))"
  show ?thesis
  proof (cases "publish actual ?target (rq_run_id rq) a st")
    case (Raise ex st')
    with publish_cases [where actual = actual and expected = ?target and run_id = "rq_run_id rq" and a = a and st = st]
    show ?thesis unfolding published(3) by (auto simp: replay_failed_def)
  next
    case (Ok u st')
    with published_replay [OF published(1,2) Ok] show ?thesis unfolding published(3) by simp
  qed
qed

end
