(* ===== verification/Contracts.thy ===== *)
theory Contracts
  imports DecimalText
begin

text \<open>
  \<^verbatim>\<open>contracts.py\<close>: the venue-neutral identity of an instrument, a trade and its envelope. A \<open>date\<close> is its
  year, month and day; type checks are the types of the model. Proved: the canonical identifier of an
  instrument, a JSON array of its identity, tells two instruments apart exactly when the dataclass does.
\<close>

section \<open>Text\<close>

definition require_contract_text :: "string \<Rightarrow> string \<Rightarrow> string result" where
  "require_contract_text v field =
     (if v = [] \<or> v \<noteq> strip v \<or> \<not> list_all py_printable v
      then Inl (ValueError (field @ '' must be non-empty printable text without outer whitespace.''))
      else Inr v)"

definition upper_alnum :: "char \<Rightarrow> bool" where
  "upper_alnum c = (let n = (of_char c :: int) in (48 \<le> n \<and> n \<le> 57) \<or> (65 \<le> n \<and> n \<le> 90))"

text \<open>The pattern \<^verbatim>\<open>[A-Z0-9]+(?:[._][A-Z0-9]+)*\<close>; the flag tells that a group has a character.\<close>

fun canonical_asset :: "bool \<Rightarrow> string \<Rightarrow> bool" where
  "canonical_asset started [] = started"
| "canonical_asset started (c # s) =
     (if upper_alnum c then canonical_asset True s
      else started \<and> (c = CHR ''.'' \<or> c = CHR ''_'') \<and> canonical_asset False s)"

definition require_canonical_asset :: "string \<Rightarrow> string \<Rightarrow> string result" where
  "require_canonical_asset v field =
     res_bind (require_contract_text v field) (\<lambda>asset.
     if \<not> canonical_asset False asset
     then Inl (ValueError (field @ '' must contain only uppercase ASCII letters, digits, dots or underscores.''))
     else Inr asset)"

definition require_contract_decimal :: "dec \<Rightarrow> string \<Rightarrow> unit result" where
  "require_contract_decimal v field =
     guard (0 < v) (ValueError (field @ '' must be finite and greater than zero.''))"

section \<open>Instruments\<close>

datatype venue = HYPERLIQUID | BITVAVO | KRAKEN | BINANCE

fun venue_value :: "venue \<Rightarrow> string" where
  "venue_value HYPERLIQUID = ''hyperliquid''"
| "venue_value BITVAVO = ''bitvavo''"
| "venue_value KRAKEN = ''kraken''"
| "venue_value BINANCE = ''binance''"

datatype instrument_type = SPOT | PERPETUAL | FUTURE

fun instrument_type_value :: "instrument_type \<Rightarrow> string" where
  "instrument_type_value SPOT = ''spot''"
| "instrument_type_value PERPETUAL = ''perpetual''"
| "instrument_type_value FUTURE = ''future''"

type_synonym date = "nat \<times> nat \<times> nat"

definition date_text :: "date \<Rightarrow> string" where
  "date_text = (\<lambda>(y, m, d). zero_pad 4 (nat_text y) @ ''-'' @ zero_pad 2 (nat_text m) @ ''-'' @ zero_pad 2 (nat_text d))"

record instrument =
  ct_venue :: venue
  ct_instrument_type :: instrument_type
  ct_base_asset :: string
  ct_quote_asset :: string
  ct_venue_market_id :: string
  ct_native_symbol :: string
  ct_contract_expiry :: "date option"
  ct_canonical_instrument_id :: string

definition serialize_instrument_id ::
  "venue \<Rightarrow> instrument_type \<Rightarrow> string \<Rightarrow> string \<Rightarrow> string \<Rightarrow> date option \<Rightarrow> string" where
  "serialize_instrument_id venue kind market base quote expiry =
     json_text (JList
       [JText ''instrument-v1'', JText (venue_value venue), JText (instrument_type_value kind), JText market,
        JText base, JText quote, (case expiry of Some d \<Rightarrow> JText (date_text d) | None \<Rightarrow> JNull)])"

definition make_instrument ::
  "venue \<Rightarrow> instrument_type \<Rightarrow> string \<Rightarrow> string \<Rightarrow> string \<Rightarrow> string \<Rightarrow> date option \<Rightarrow> instrument result" where
  "make_instrument venue kind base quote market native expiry =
     res_bind (require_canonical_asset base ''base_asset'') (\<lambda>base_asset.
     res_bind (require_canonical_asset quote ''quote_asset'') (\<lambda>quote_asset.
     res_bind (require_contract_text market ''venue_market_id'') (\<lambda>venue_market_id.
     res_bind (require_contract_text native ''native_symbol'') (\<lambda>_.
     if base_asset = quote_asset then Inl (ValueError ''base_asset and quote_asset must differ.'')
     else if kind = FUTURE \<and> expiry = None
     then Inl (ValueError ''future instruments require a contract_expiry.'')
     else if kind \<noteq> FUTURE \<and> expiry \<noteq> None
     then Inl (ValueError ''contract_expiry is only valid for future instruments.'')
     else Inr \<lparr>ct_venue = venue, ct_instrument_type = kind, ct_base_asset = base, ct_quote_asset = quote,
       ct_venue_market_id = market, ct_native_symbol = native, ct_contract_expiry = expiry,
       ct_canonical_instrument_id =
         serialize_instrument_id venue kind venue_market_id base_asset quote_asset expiry\<rparr>))))"

text \<open>Equality of the dataclass: every field but the native symbol.\<close>

definition same_instrument :: "instrument \<Rightarrow> instrument \<Rightarrow> bool" where
  "same_instrument i j \<longleftrightarrow> ct_venue i = ct_venue j \<and> ct_instrument_type i = ct_instrument_type j
     \<and> ct_base_asset i = ct_base_asset j \<and> ct_quote_asset i = ct_quote_asset j
     \<and> ct_venue_market_id i = ct_venue_market_id j \<and> ct_contract_expiry i = ct_contract_expiry j
     \<and> ct_canonical_instrument_id i = ct_canonical_instrument_id j"

section \<open>Trades and envelopes\<close>

datatype aggressor = AggressorBuy | AggressorSell

record contract_trade =
  cd_price :: dec
  cd_quantity :: dec
  cd_aggressor_side :: aggressor

definition make_contract_trade :: "dec \<Rightarrow> dec \<Rightarrow> aggressor \<Rightarrow> contract_trade result" where
  "make_contract_trade price quantity aggressor_side =
     res_bind (require_contract_decimal price ''price'') (\<lambda>_.
     res_bind (require_contract_decimal quantity ''quantity'') (\<lambda>_.
     Inr \<lparr>cd_price = price, cd_quantity = quantity, cd_aggressor_side = aggressor_side\<rparr>))"

definition MARKET_EVENT_SCHEMA_VERSION :: int where "MARKET_EVENT_SCHEMA_VERSION = 2"

text \<open>A UTC datetime is its microseconds.\<close>

record market_event_envelope =
  me_schema_version :: int
  me_instrument :: instrument
  me_event :: contract_trade
  me_event_time :: int
  me_received_time :: int
  me_received_monotonic_ns :: int
  me_collector_version :: string
  me_collector_commit :: string
  me_is_gap :: bool
  me_source_event_id :: string
  me_source_transaction_id :: "string option"
  me_source_sequence :: "int option"
  me_correlation_id :: "string option"

definition require_optional_text :: "string option \<Rightarrow> string \<Rightarrow> unit result" where
  "require_optional_text v field =
     (case v of None \<Rightarrow> Inr () | Some s \<Rightarrow> res_bind (require_contract_text s field) (\<lambda>_. Inr ()))"

definition make_envelope :: "market_event_envelope \<Rightarrow> market_event_envelope result" where
  "make_envelope m =
     (if me_schema_version m \<noteq> MARKET_EVENT_SCHEMA_VERSION
      then Inl (ValueError ''schema_version is not supported.'')
      else if me_received_monotonic_ns m < 0
      then Inl (ValueError ''received_monotonic_ns must be non-negative.'')
      else
        res_bind (require_contract_text (me_collector_version m) ''collector_version'') (\<lambda>_.
        res_bind (require_contract_text (me_collector_commit m) ''collector_commit'') (\<lambda>_.
        res_bind (require_contract_text (me_source_event_id m) ''source_event_id'') (\<lambda>_.
        res_bind (require_optional_text (me_source_transaction_id m) ''source_transaction_id'') (\<lambda>_.
        if (case me_source_sequence m of None \<Rightarrow> False | Some n \<Rightarrow> n < 0)
        then Inl (ValueError ''source_sequence must be non-negative when provided.'')
        else res_bind (require_optional_text (me_correlation_id m) ''correlation_id'') (\<lambda>_. Inr m))))))"

section \<open>A quoted text ends where it ends\<close>

text \<open>The first character of an escaped text, read back with its length.\<close>

definition hex_value :: "char \<Rightarrow> nat" where
  "hex_value c = (let n = (of_char c :: nat) in if n < 58 then n - 48 else n - 87)"

definition unescape :: "string \<Rightarrow> nat \<times> char" where
  "unescape s =
     (case s of
        [] \<Rightarrow> (0, CHR 0x00)
      | c # t \<Rightarrow>
          if c \<noteq> CHR 0x5C then (1, c)
          else if t ! 0 = CHR ''u'' then (6, char_of (16 * hex_value (t ! 3) + hex_value (t ! 4)))
          else (2, if t ! 0 = CHR ''n'' then CHR 0x0A else if t ! 0 = CHR ''r'' then CHR 0x0D
                   else if t ! 0 = CHR ''t'' then CHR 0x09 else if t ! 0 = CHR ''b'' then CHR 0x08
                   else if t ! 0 = CHR ''f'' then CHR 0x0C else t ! 0))"

lemma hex_value_digit [simp]: "n < 16 \<Longrightarrow> hex_value (hex_digit n) = n"
  by (simp add: hex_value_def hex_digit_def)

lemma json_escape_named:
  "json_escape (CHR 0x22) = [CHR 0x5C, CHR 0x22]" "json_escape (CHR 0x5C) = [CHR 0x5C, CHR 0x5C]"
  "json_escape (CHR 0x0A) = [CHR 0x5C, CHR ''n'']" "json_escape (CHR 0x0D) = [CHR 0x5C, CHR ''r'']"
  "json_escape (CHR 0x09) = [CHR 0x5C, CHR ''t'']" "json_escape (CHR 0x08) = [CHR 0x5C, CHR ''b'']"
  "json_escape (CHR 0x0C) = [CHR 0x5C, CHR ''f'']"
  by code_simp+

text \<open>The three shapes of an escaped character.\<close>

lemma escape_cases:
  obtains (named) d where "json_escape c = [CHR 0x5C, d]" "d \<noteq> CHR ''u''" "unescape [CHR 0x5C, d] = (2, c)"
    | (hex) "json_escape c = [CHR 0x5C, CHR ''u'', CHR ''0'', CHR ''0'',
        hex_digit (of_char c div 16), hex_digit (of_char c mod 16)]"
    | (plain) "json_escape c = [c]" "c \<noteq> CHR 0x5C" "c \<noteq> CHR 0x22"
proof -
  define S where "S = {CHR 0x22, CHR 0x5C, CHR 0x0A, CHR 0x0D, CHR 0x09, CHR 0x08, CHR 0x0C}"
  have "of_char ` S = {34 :: nat, 92, 10, 13, 9, 8, 12}" by (simp add: S_def)
  moreover have "(of_char c :: nat) \<in> of_char ` S \<longleftrightarrow> c \<in> S" by auto
  ultimately have named_iff: "(of_char c :: nat) \<in> {34, 92, 10, 13, 9, 8, 12} \<longleftrightarrow>
      c \<in> {CHR 0x22, CHR 0x5C, CHR 0x0A, CHR 0x0D, CHR 0x09, CHR 0x08, CHR 0x0C}"
    by (simp only: S_def)
  show thesis
  proof (cases "(of_char c :: nat) \<in> {34, 92, 10, 13, 9, 8, 12}")
    case True
    then have "c \<in> {CHR 0x22, CHR 0x5C, CHR 0x0A, CHR 0x0D, CHR 0x09, CHR 0x08, CHR 0x0C}"
      by (simp only: named_iff)
    then have "\<exists>d. json_escape c = [CHR 0x5C, d] \<and> d \<noteq> CHR ''u'' \<and> unescape [CHR 0x5C, d] = (2, c)"
      by (elim insertE emptyE) (simp_all add: json_escape_named unescape_def)
    with named show thesis by blast
  next
    case False
    then have "c \<noteq> CHR 0x5C" "c \<noteq> CHR 0x22" by auto
    with False show thesis
      by (cases "(of_char c :: nat) < 32 \<or> 126 < (of_char c :: nat)")
        (rule hex, simp add: json_escape_def Let_def, rule plain, simp_all add: json_escape_def Let_def)
  qed
qed

lemma unescape_append: "unescape (json_escape c @ r) = (length (json_escape c), c)"
proof (cases c rule: escape_cases)
  case (named d)
  then show ?thesis by (simp add: unescape_def split: if_splits)
next
  case hex
  have "(of_char c :: nat) div 16 < 16" by (simp add: less_mult_imp_div_less)
  with hex show ?thesis by (simp add: unescape_def)
next
  case plain
  then show ?thesis by (simp add: unescape_def)
qed

lemma escape_head: "json_escape c \<noteq> []" "hd (json_escape c) \<noteq> CHR 0x22"
  by (cases c rule: escape_cases; simp)+

lemma quote_prefix_free:
  "concat (map json_escape s) @ CHR 0x22 # r = concat (map json_escape s') @ CHR 0x22 # r' \<Longrightarrow> s = s' \<and> r = r'"
proof (induction s arbitrary: s')
  case Nil
  then show ?case
  proof (cases s')
    case (Cons d t)
    with Nil escape_head [of d] show ?thesis by (cases "json_escape d") auto
  qed simp
next
  case (Cons c s)
  show ?case
  proof (cases s')
    case Nil
    with Cons.prems escape_head [of c] show ?thesis by (cases "json_escape c") auto
  next
    case (Cons d t)
    with Cons.prems have eq: "json_escape c @ concat (map json_escape s) @ CHR 0x22 # r
        = json_escape d @ concat (map json_escape t) @ CHR 0x22 # r'" by simp
    from arg_cong [OF eq, of unescape] have "c = d" by (simp add: unescape_append)
    with eq Cons.IH Cons show ?thesis by simp
  qed
qed

lemma json_quote_prefix_free: "json_quote s @ r = json_quote s' @ r' \<Longrightarrow> s = s' \<and> r = r'"
  by (rule quote_prefix_free) (simp add: json_quote_def)

lemma json_quote_last: "json_quote s @ r = json_quote s' @ r' \<longleftrightarrow> s = s' \<and> r = r'"
  using json_quote_prefix_free by blast

lemma json_quote_inject: "json_quote s = json_quote s' \<longleftrightarrow> s = s'"
  using json_quote_last [of s "[]" s' "[]"] by simp

section \<open>The identifier tells instruments apart\<close>

lemma venue_value_inject: "venue_value v = venue_value v' \<longleftrightarrow> v = v'"
  by (cases v; cases v') simp_all

lemma instrument_type_value_inject: "instrument_type_value k = instrument_type_value k' \<longleftrightarrow> k = k'"
  by (cases k; cases k') simp_all

lemma split_digits_padded:
  "split_digits (zero_pad w (nat_text n) @ CHR ''-'' # r) = (zero_pad w (nat_text n), CHR ''-'' # r)"
proof -
  have "\<not> is_digit (CHR ''-'')" by code_simp
  moreover have "list_all is_digit (zero_pad w (nat_text n))"
    using nat_text_digits by (intro zero_pad_digits) simp
  ultimately show ?thesis by (rule takeWhile_digits [rotated])
qed

lemma padded_prefix_free:
  assumes "zero_pad w (nat_text n) @ CHR ''-'' # r = zero_pad w (nat_text n') @ CHR ''-'' # r'"
  shows "n = n' \<and> r = r'"
  using arg_cong [OF assms, of split_digits] by (simp add: split_digits_padded zero_pad_inject)

lemma date_text_inject: "date_text a = date_text b \<longleftrightarrow> a = b"
proof
  assume e: "date_text a = date_text b"
  obtain y m d y' m' d' where ab: "a = (y, m, d)" "b = (y', m', d')" by (cases a; cases b) auto
  from e ab have "y = y'" "zero_pad 2 (nat_text m) @ CHR ''-'' # zero_pad 2 (nat_text d)
      = zero_pad 2 (nat_text m') @ CHR ''-'' # zero_pad 2 (nat_text d')"
    by (auto simp: date_text_def dest!: padded_prefix_free)
  from this(1) padded_prefix_free [OF this(2)] show "a = b" unfolding ab by (simp add: zero_pad_inject)
qed simp

lemma expiry_inject:
  "json_text (case e of None \<Rightarrow> JNull | Some d \<Rightarrow> JText (date_text d))
     = json_text (case e' of None \<Rightarrow> JNull | Some d \<Rightarrow> JText (date_text d)) \<longleftrightarrow> e = e'"
proof -
  have "hd (json_quote s) \<noteq> hd ''null''" for s by (simp add: json_quote_def)
  then have "json_quote s \<noteq> ''null''" for s by metis
  then show ?thesis
    by (cases e; cases e') (simp_all only: json_text.simps option.case option.inject json_quote_inject
        date_text_inject simp_thms option.distinct, metis+)
qed

lemma serialize_inject:
  "serialize_instrument_id v k m b q e = serialize_instrument_id v' k' m' b' q' e' \<longleftrightarrow>
     v = v' \<and> k = k' \<and> m = m' \<and> b = b' \<and> q = q' \<and> e = e'"
  unfolding serialize_instrument_id_def
  by (auto simp: json_quote_last venue_value_inject instrument_type_value_inject expiry_inject)

text \<open>
  C34: The canonical identifier is the identity. Of two constructed instruments the identifiers are equal
  exactly when the dataclass calls the instruments equal, whatever text their market identifiers hold and
  whatever their native symbols are.
\<close>
theorem canonical_id_is_identity:
  assumes "make_instrument v k b q m native e = Inr i" "make_instrument v' k' b' q' m' native' e' = Inr j"
  shows "ct_canonical_instrument_id i = ct_canonical_instrument_id j \<longleftrightarrow> same_instrument i j"
proof -
  have "ct_canonical_instrument_id i = serialize_instrument_id (ct_venue i) (ct_instrument_type i)
      (ct_venue_market_id i) (ct_base_asset i) (ct_quote_asset i) (ct_contract_expiry i)"
    if "make_instrument v k b q m native e = Inr i" for v k b q m native e i
    using that by (auto simp: make_instrument_def res_bind_Inr_iff require_canonical_asset_def
        require_contract_text_def split: if_splits)
  from this [OF assms(1)] this [OF assms(2)] show ?thesis
    unfolding same_instrument_def by (auto simp: serialize_inject)
qed

theorem canonical_id_is_identity_witness:
  "\<exists>i j. make_instrument KRAKEN SPOT ''BTC'' ''EUR'' ''X,'' ''a'' None = Inr i
     \<and> make_instrument KRAKEN SPOT ''BTC'' ''EUR'' ''X,'' ''b'' None = Inr j
     \<and> ct_canonical_instrument_id i = ct_canonical_instrument_id j \<and> ct_native_symbol i \<noteq> ct_native_symbol j"
proof -
  have "case make_instrument KRAKEN SPOT ''BTC'' ''EUR'' ''X,'' ''a'' None of Inl _ \<Rightarrow> False | Inr i \<Rightarrow>
      (case make_instrument KRAKEN SPOT ''BTC'' ''EUR'' ''X,'' ''b'' None of Inl _ \<Rightarrow> False | Inr j \<Rightarrow>
        same_instrument i j \<and> ct_native_symbol i \<noteq> ct_native_symbol j)" by code_simp
  then obtain i j where i: "make_instrument KRAKEN SPOT ''BTC'' ''EUR'' ''X,'' ''a'' None = Inr i"
    and j: "make_instrument KRAKEN SPOT ''BTC'' ''EUR'' ''X,'' ''b'' None = Inr j"
    and "same_instrument i j" "ct_native_symbol i \<noteq> ct_native_symbol j" by (auto split: sum.splits)
  with canonical_id_is_identity [OF i j] show ?thesis by blast
qed

end
