(* ===== verification/Trades.thy ===== *)
theory Trades
  imports Contracts
begin

text \<open>
  \<^verbatim>\<open>hyperliquid_trades.py\<close>: a JSON-decoded frame of public trades becomes validated trades and then market
  event envelopes. Proved: a frame is normalised whole or not at all, each envelope carries exactly the
  values of its trade, and the source identifier tells trades apart.
\<close>

section \<open>Payloads\<close>

definition MAX_TRADE_ID :: int where "MAX_TRADE_ID = push_bit 50 1 - 1"

definition REQUIRED_TRADE_FIELDS :: "string list" where
  "REQUIRED_TRADE_FIELDS = [''coin'', ''side'', ''px'', ''sz'', ''hash'', ''time'', ''tid'', ''users'']"

definition require_trade_text :: "payload \<Rightarrow> string \<Rightarrow> string result" where
  "require_trade_text v field =
     (case v of
        PText s \<Rightarrow> require_contract_text s field
      | _ \<Rightarrow> Inl (TypeError (field @ '' must be a built-in string.'')))"

definition require_non_negative_int :: "payload \<Rightarrow> string \<Rightarrow> int result" where
  "require_non_negative_int v field =
     (case v of
        PInt n \<Rightarrow> if n < 0 then Inl (ValueError (field @ '' must be non-negative.'')) else Inr n
      | _ \<Rightarrow> Inl (TypeError (field @ '' must be a built-in integer.'')))"

definition parse_positive_decimal :: "payload \<Rightarrow> string \<Rightarrow> dec result" where
  "parse_positive_decimal v field =
     res_bind (require_trade_text v field) (\<lambda>s.
     case parse_decimal s of
       None \<Rightarrow> Inl (ValueError (field @ '' must be a valid decimal string.''))
     | Some Non_Finite \<Rightarrow> Inl (ValueError (field @ '' must be finite and greater than zero.''))
     | Some (Finite x) \<Rightarrow>
         if x \<le> 0 then Inl (ValueError (field @ '' must be finite and greater than zero.'')) else Inr x)"

text \<open>The largest datetime is 9999-12-31T23:59:59.999999Z; the result is in microseconds.\<close>

definition epoch_milliseconds_to_utc :: "int \<Rightarrow> int result" where
  "epoch_milliseconds_to_utc t =
     (if 253402300799999 < t then Inl (ValueError ''time must be within the supported UTC datetime range.'')
      else Inr (1000 * t))"

definition parse_side :: "payload \<Rightarrow> (string \<times> aggressor) result" where
  "parse_side v =
     res_bind (require_trade_text v ''side'') (\<lambda>s.
     if s = ''B'' then Inr (s, AggressorBuy)
     else if s = ''A'' then Inr (s, AggressorSell)
     else Inl (ValueError ''side must be exactly B or A.''))"

definition parse_users :: "payload \<Rightarrow> (string \<times> string) result" where
  "parse_users v =
     (case v of
        PList us \<Rightarrow>
          (if length us \<noteq> 2 then Inl (ValueError ''users must contain exactly buyer and seller.'')
           else
             res_bind (require_trade_text (us ! 0) ''users[0]'') (\<lambda>buyer.
             res_bind (require_trade_text (us ! 1) ''users[1]'') (\<lambda>seller. Inr (buyer, seller))))
      | _ \<Rightarrow> Inl (TypeError ''users must be a built-in list.''))"

definition require_trade_object :: "payload \<Rightarrow> (string \<times> payload) list result" where
  "require_trade_object v =
     (case v of PObject kvs \<Rightarrow> Inr kvs | _ \<Rightarrow> Inl (TypeError ''each trades data item must be a built-in object.''))"

definition required_value :: "(string \<times> payload) list \<Rightarrow> string \<Rightarrow> payload result" where
  "required_value kvs k =
     (case field_of kvs k of
        None \<Rightarrow> Inl (ValueError (''trade payload is missing required field '' @ k @ ''.''))
      | Some v \<Rightarrow> Inr v)"

section \<open>A trade\<close>

record ws_trade =
  ws_coin :: string
  ws_side :: string
  ws_px :: dec
  ws_sz :: dec
  ws_hash :: string
  ws_time :: int
  ws_tid :: int
  ws_users :: "string \<times> string"
  ws_event_time :: int
  ws_aggressor_side :: aggressor

definition make_ws_trade ::
  "string \<Rightarrow> string \<Rightarrow> dec \<Rightarrow> dec \<Rightarrow> string \<Rightarrow> int \<Rightarrow> int \<Rightarrow> string \<times> string \<Rightarrow> ws_trade result" where
  "make_ws_trade coin side px sz hash time tid users =
     res_bind (require_trade_text (PText coin) ''coin'') (\<lambda>_.
     res_bind (parse_side (PText side)) (\<lambda>(parsed_side, aggressor).
     if px \<le> 0 then Inl (ValueError ''px must be finite and greater than zero.'')
     else if sz \<le> 0 then Inl (ValueError ''sz must be finite and greater than zero.'')
     else
       res_bind (require_trade_text (PText hash) ''hash'') (\<lambda>_.
       res_bind (require_non_negative_int (PInt time) ''time'') (\<lambda>time_ms.
       res_bind (require_non_negative_int (PInt tid) ''tid'') (\<lambda>trade_id.
       if MAX_TRADE_ID < trade_id then Inl (ValueError ''tid must fit within the documented 50-bit range.'')
       else
         res_bind (require_trade_text (PText (fst users)) ''users[0]'') (\<lambda>buyer.
         res_bind (require_trade_text (PText (snd users)) ''users[1]'') (\<lambda>seller.
         res_bind (epoch_milliseconds_to_utc time_ms) (\<lambda>event_time.
         Inr \<lparr>ws_coin = coin, ws_side = parsed_side, ws_px = px, ws_sz = sz, ws_hash = hash, ws_time = time,
           ws_tid = tid, ws_users = (buyer, seller), ws_event_time = event_time,
           ws_aggressor_side = aggressor\<rparr>))))))))"

definition trade_of_values :: "(string \<Rightarrow> payload) \<Rightarrow> ws_trade result" where
  "trade_of_values value =
     res_bind (parse_side (value ''side'')) (\<lambda>(side, _).
     res_bind (require_non_negative_int (value ''time'') ''time'') (\<lambda>time_ms.
     res_bind (require_non_negative_int (value ''tid'') ''tid'') (\<lambda>tid.
     res_bind (require_trade_text (value ''coin'') ''coin'') (\<lambda>coin.
     res_bind (parse_positive_decimal (value ''px'') ''px'') (\<lambda>px.
     res_bind (parse_positive_decimal (value ''sz'') ''sz'') (\<lambda>sz.
     res_bind (require_trade_text (value ''hash'') ''hash'') (\<lambda>hash.
     res_bind (parse_users (value ''users'')) (\<lambda>users.
     make_ws_trade coin side px sz hash time_ms tid users))))))))"

definition trade_from_payload :: "payload \<Rightarrow> ws_trade result" where
  "trade_from_payload v =
     res_bind (require_trade_object v) (\<lambda>kvs.
     res_bind (traverse (required_value kvs) REQUIRED_TRADE_FIELDS) (\<lambda>values.
     trade_of_values (\<lambda>k. the (map_of (zip REQUIRED_TRADE_FIELDS values) k))))"

definition hyperliquid_trade_source_event_id :: "ws_trade \<Rightarrow> string" where
  "hyperliquid_trade_source_event_id t =
     json_text (JList [JText ''hyperliquid-trade-v1'', JInt (ws_time t), JText (ws_coin t), JInt (ws_tid t)])"

section \<open>A frame\<close>

definition decode_hyperliquid_trades_frame :: "payload \<Rightarrow> ws_trade list result" where
  "decode_hyperliquid_trades_frame frame =
     (case frame of
        PObject message \<Rightarrow>
          (case field_of message ''channel'' of
             None \<Rightarrow> Inl (ValueError ''frame is missing required field channel.'')
           | Some c \<Rightarrow>
               res_bind (require_trade_text c ''channel'') (\<lambda>channel.
               if channel \<noteq> ''trades'' then Inl (ValueError ''frame channel must be exactly trades.'')
               else
                 case field_of message ''data'' of
                   None \<Rightarrow> Inl (ValueError ''frame is missing required field data.'')
                 | Some (PList items) \<Rightarrow> traverse trade_from_payload items
                 | Some _ \<Rightarrow> Inl (TypeError ''trades frame data must be a built-in list.'')))
      | _ \<Rightarrow> Inl (TypeError ''frame must be a built-in object.''))"

definition resolve_instrument :: "string \<Rightarrow> instrument list \<Rightarrow> instrument result" where
  "resolve_instrument coin registry =
     (case filter (\<lambda>i. ct_venue i = HYPERLIQUID \<and> ct_native_symbol i = coin) registry of
        [] \<Rightarrow> Inl (LookupError ''Hyperliquid coin is not registered.'')
      | [i] \<Rightarrow> Inr i
      | _ \<Rightarrow> Inl (LookupError ''Hyperliquid coin mapping is ambiguous.''))"

text \<open>What the caller knows of a frame: when it came, who collected it and whether events were lost.\<close>

record receipt =
  rc_received_time :: int
  rc_received_monotonic_ns :: int
  rc_collector_version :: string
  rc_collector_commit :: string
  rc_is_gap :: bool

definition normalize_hyperliquid_trade ::
  "instrument list \<Rightarrow> receipt \<Rightarrow> ws_trade \<Rightarrow> market_event_envelope result" where
  "normalize_hyperliquid_trade registry r t =
     res_bind (resolve_instrument (ws_coin t) registry) (\<lambda>i.
     res_bind (make_contract_trade (ws_px t) (ws_sz t) (ws_aggressor_side t)) (\<lambda>event.
     make_envelope \<lparr>me_schema_version = MARKET_EVENT_SCHEMA_VERSION, me_instrument = i, me_event = event,
       me_event_time = ws_event_time t, me_received_time = rc_received_time r,
       me_received_monotonic_ns = rc_received_monotonic_ns r,
       me_collector_version = rc_collector_version r, me_collector_commit = rc_collector_commit r,
       me_is_gap = rc_is_gap r, me_source_event_id = hyperliquid_trade_source_event_id t,
       me_source_transaction_id = Some (ws_hash t), me_source_sequence = None, me_correlation_id = None\<rparr>))"

definition normalize_hyperliquid_trades_frame ::
  "instrument list \<Rightarrow> receipt \<Rightarrow> payload \<Rightarrow> market_event_envelope list result" where
  "normalize_hyperliquid_trades_frame registry r frame =
     res_bind (decode_hyperliquid_trades_frame frame) (traverse (normalize_hyperliquid_trade registry r))"

section \<open>The source identifier\<close>

lemma int_text_prefix_free:
  assumes "0 \<le> i" "0 \<le> j" "int_text i @ c # r = int_text j @ c # r'" "\<not> is_digit c"
  shows "i = j \<and> r = r'"
proof -
  have split: "split_digits (nat_text n @ c # s) = (nat_text n, c # s)" for n s
    using nat_text_digits assms(4) by (intro takeWhile_digits) auto
  from assms have eq: "nat_text (nat i) @ c # r = nat_text (nat j) @ c # r'" by (simp add: int_text_def)
  from arg_cong [OF eq, of split_digits] have texts: "nat_text (nat i) = nat_text (nat j)" "r = r'"
    by (simp_all add: split)
  from arg_cong [OF texts(1), of digits_value] assms(1,2) texts(2) show ?thesis by simp
qed

lemma source_event_id_inject:
  assumes "0 \<le> ws_time t" "0 \<le> ws_time u" "0 \<le> ws_tid t" "0 \<le> ws_tid u"
  shows "hyperliquid_trade_source_event_id t = hyperliquid_trade_source_event_id u
    \<longleftrightarrow> ws_time t = ws_time u \<and> ws_coin t = ws_coin u \<and> ws_tid t = ws_tid u"
proof
  have sep: "\<not> is_digit (CHR '','')" "\<not> is_digit (CHR '']'')" by code_simp+
  assume "hyperliquid_trade_source_event_id t = hyperliquid_trade_source_event_id u"
  then have "int_text (ws_time t) @ CHR '','' # json_quote (ws_coin t) @ '','' @ int_text (ws_tid t) @ '']''
      = int_text (ws_time u) @ CHR '','' # json_quote (ws_coin u) @ '','' @ int_text (ws_tid u) @ '']''"
    by (simp add: hyperliquid_trade_source_event_id_def)
  from int_text_prefix_free [OF assms(1,2) this sep(1)]
  have "ws_time t = ws_time u" and rest: "json_quote (ws_coin t) @ '','' @ int_text (ws_tid t) @ '']''
      = json_quote (ws_coin u) @ '','' @ int_text (ws_tid u) @ '']''" by simp_all
  moreover from json_quote_prefix_free [OF rest] have "ws_coin t = ws_coin u"
    "int_text (ws_tid t) @ CHR '']'' # [] = int_text (ws_tid u) @ CHR '']'' # []" by simp_all
  moreover from int_text_prefix_free [OF assms(3,4) this(2) sep(2)] have "ws_tid t = ws_tid u" by simp
  ultimately show "ws_time t = ws_time u \<and> ws_coin t = ws_coin u \<and> ws_tid t = ws_tid u" by simp
qed (simp add: hyperliquid_trade_source_event_id_def)

section \<open>What a decoded trade is\<close>

lemma require_contract_text_Inr: "require_contract_text v f = Inr s \<Longrightarrow> s = v"
  by (simp add: require_contract_text_def split: if_splits)

lemma require_trade_text_Inr: "require_trade_text v f = Inr s \<Longrightarrow> v = PText s"
  by (cases v) (auto simp: require_trade_text_def dest: require_contract_text_Inr)

lemma require_non_negative_int_Inr: "require_non_negative_int v f = Inr n \<Longrightarrow> v = PInt n \<and> 0 \<le> n"
  by (cases v) (auto simp: require_non_negative_int_def split: if_splits)

lemma parse_positive_decimal_Inr:
  assumes "parse_positive_decimal v f = Inr x"
  shows "\<exists>s. v = PText s \<and> parse_decimal s = Some (Finite x) \<and> 0 < x"
proof -
  from assms obtain s where s: "require_trade_text v f = Inr s"
    by (auto simp: parse_positive_decimal_def res_bind_Inr_iff)
  from assms have "parse_decimal s = Some (Finite x) \<and> 0 < x"
    unfolding parse_positive_decimal_def s res_bind_simps
    by (cases "parse_decimal s") (auto split: parsed.splits if_splits)
  with require_trade_text_Inr [OF s] show ?thesis by blast
qed

lemma parse_side_Inr:
  "parse_side v = Inr (s, a) \<Longrightarrow> v = PText s \<and> s = (case a of AggressorBuy \<Rightarrow> ''B'' | AggressorSell \<Rightarrow> ''A'')"
  by (auto simp: parse_side_def res_bind_Inr_iff split: if_splits dest: require_trade_text_Inr)

lemma required_values:
  "traverse (required_value kvs) ks = Inr vs \<Longrightarrow> k \<in> set ks \<Longrightarrow> field_of kvs k = Some (the (map_of (zip ks vs) k))"
  by (induction ks arbitrary: vs)
    (auto simp: res_bind_Inr_iff required_value_def split: option.splits if_splits)

lemma make_ws_trade_Inr:
  assumes "make_ws_trade coin side px sz hash time tid users = Inr t"
  shows "ws_coin t = coin" "ws_px t = px" "ws_sz t = sz" "ws_hash t = hash" "ws_time t = time" "ws_tid t = tid"
    "ws_event_time t = 1000 * time" "parse_side (PText side) = Inr (ws_side t, ws_aggressor_side t)"
  using assms by (auto simp: make_ws_trade_def res_bind_Inr_iff epoch_milliseconds_to_utc_def
      dest!: require_non_negative_int_Inr split: if_splits)

text \<open>The values of a trade are those of its payload.\<close>

definition trade_of_payload :: "(string \<times> payload) list \<Rightarrow> ws_trade \<Rightarrow> bool" where
  "trade_of_payload kvs t \<longleftrightarrow>
     field_of kvs ''coin'' = Some (PText (ws_coin t)) \<and> field_of kvs ''hash'' = Some (PText (ws_hash t))
     \<and> field_of kvs ''time'' = Some (PInt (ws_time t)) \<and> field_of kvs ''tid'' = Some (PInt (ws_tid t))
     \<and> field_of kvs ''side'' = Some (PText (case ws_aggressor_side t of AggressorBuy \<Rightarrow> ''B'' | AggressorSell \<Rightarrow> ''A''))
     \<and> (\<exists>s. field_of kvs ''px'' = Some (PText s) \<and> parse_decimal s = Some (Finite (ws_px t)))
     \<and> (\<exists>s. field_of kvs ''sz'' = Some (PText s) \<and> parse_decimal s = Some (Finite (ws_sz t)))
     \<and> 0 \<le> ws_time t \<and> 0 \<le> ws_tid t \<and> ws_event_time t = 1000 * ws_time t"

lemma trade_from_payload_values:
  assumes "trade_from_payload v = Inr t"
  shows "\<exists>kvs. v = PObject kvs \<and> trade_of_payload kvs t"
proof -
  from assms obtain kvs vs where v: "v = PObject kvs"
    and vs: "traverse (required_value kvs) REQUIRED_TRADE_FIELDS = Inr vs"
    by (cases v) (auto simp: trade_from_payload_def require_trade_object_def res_bind_Inr_iff)
  define val where "val = (\<lambda>k. the (map_of (zip REQUIRED_TRADE_FIELDS vs) k))"
  have field: "k \<in> set REQUIRED_TRADE_FIELDS \<Longrightarrow> field_of kvs k = Some (val k)" for k
    using required_values [OF vs] by (simp add: val_def)
  from assms have "trade_of_values val = Inr t"
    by (simp add: trade_from_payload_def v require_trade_object_def vs val_def)
  then obtain side a time tid coin px sz hash users where
    "parse_side (val ''side'') = Inr (side, a)" "require_non_negative_int (val ''time'') ''time'' = Inr time"
    "require_non_negative_int (val ''tid'') ''tid'' = Inr tid" "require_trade_text (val ''coin'') ''coin'' = Inr coin"
    "parse_positive_decimal (val ''px'') ''px'' = Inr px" "parse_positive_decimal (val ''sz'') ''sz'' = Inr sz"
    "require_trade_text (val ''hash'') ''hash'' = Inr hash"
    and t: "make_ws_trade coin side px sz hash time tid users = Inr t"
    by (auto simp: trade_of_values_def res_bind_Inr_iff)
  then show ?thesis
    unfolding v trade_of_payload_def using make_ws_trade_Inr [OF t]
    by (auto simp: field REQUIRED_TRADE_FIELDS_def
        dest!: parse_side_Inr require_trade_text_Inr require_non_negative_int_Inr parse_positive_decimal_Inr)
qed

lemma resolve_instrument_Inr:
  "resolve_instrument coin registry = Inr i \<longleftrightarrow>
     filter (\<lambda>i. ct_venue i = HYPERLIQUID \<and> ct_native_symbol i = coin) registry = [i]"
  by (auto simp: resolve_instrument_def split: list.splits)

lemma make_envelope_Inr: "make_envelope m = Inr e \<Longrightarrow> e = m"
  by (auto simp: make_envelope_def res_bind_Inr_iff split: if_splits)

lemma normalize_trade_Inr:
  assumes "normalize_hyperliquid_trade registry r t = Inr e"
  shows "filter (\<lambda>i. ct_venue i = HYPERLIQUID \<and> ct_native_symbol i = ws_coin t) registry = [me_instrument e]
    \<and> me_event e = \<lparr>cd_price = ws_px t, cd_quantity = ws_sz t, cd_aggressor_side = ws_aggressor_side t\<rparr>
    \<and> me_event_time e = ws_event_time t \<and> me_source_event_id e = hyperliquid_trade_source_event_id t
    \<and> me_source_transaction_id e = Some (ws_hash t) \<and> me_received_time e = rc_received_time r
    \<and> me_is_gap e = rc_is_gap r"
  using assms by (auto simp: normalize_hyperliquid_trade_def res_bind_Inr_iff resolve_instrument_Inr
      make_contract_trade_def dest!: make_envelope_Inr)

text \<open>A frame of two trades, for the witnesses.\<close>

definition sample_item :: "string \<Rightarrow> int \<Rightarrow> payload" where
  "sample_item px tid = PObject
     [(''coin'', PText ''BTC''), (''side'', PText ''B''), (''px'', PText px), (''sz'', PText ''0.5''),
      (''hash'', PText ''0xab''), (''time'', PInt 1700000000000), (''tid'', PInt tid),
      (''users'', PList [PText ''0x1'', PText ''0x2'']), (''extra'', PFloat)]"

definition sample_frame :: payload where
  "sample_frame = PObject
     [(''channel'', PText ''trades''), (''data'', PList [sample_item ''100.5'' 7, sample_item ''99'' 8])]"

definition sample_registry :: "instrument list" where
  "sample_registry = (case make_instrument HYPERLIQUID PERPETUAL ''BTC'' ''USDC'' ''0'' ''BTC'' None of
     Inl _ \<Rightarrow> [] | Inr i \<Rightarrow> [i])"

definition sample_receipt :: receipt where
  "sample_receipt = \<lparr>rc_received_time = 1700000000500000, rc_received_monotonic_ns = 5,
     rc_collector_version = ''1'', rc_collector_commit = ''c'', rc_is_gap = False\<rparr>"

section \<open>The properties\<close>

text \<open>
  C33: A frame of Hyperliquid trades is normalised whole. When it is normalised it has a list of items, and
  there is one envelope for each of them in order: its price, quantity, side, transaction, time and coin are
  those written in the item, its instrument is the only one of the registry with that coin, and the receipt
  is the caller's. When one item is refused there is no envelope at all.
\<close>
theorem frame_normalised_whole:
  assumes "normalize_hyperliquid_trades_frame registry r frame = Inr es"
  shows "\<exists>message items. frame = PObject message \<and> field_of message ''channel'' = Some (PText ''trades'')
    \<and> field_of message ''data'' = Some (PList items) \<and> length es = length items
    \<and> (\<forall>n < length items. \<exists>kvs t. items ! n = PObject kvs \<and> trade_of_payload kvs t
        \<and> normalize_hyperliquid_trade registry r t = Inr (es ! n)
        \<and> filter (\<lambda>i. ct_venue i = HYPERLIQUID \<and> ct_native_symbol i = ws_coin t) registry = [me_instrument (es ! n)]
        \<and> me_event (es ! n) = \<lparr>cd_price = ws_px t, cd_quantity = ws_sz t, cd_aggressor_side = ws_aggressor_side t\<rparr>
        \<and> me_event_time (es ! n) = 1000 * ws_time t \<and> me_source_transaction_id (es ! n) = Some (ws_hash t)
        \<and> me_received_time (es ! n) = rc_received_time r \<and> me_is_gap (es ! n) = rc_is_gap r)"
proof -
  from assms obtain ts where ts: "decode_hyperliquid_trades_frame frame = Inr ts"
    and es: "list_all2 (\<lambda>t e. normalize_hyperliquid_trade registry r t = Inr e) ts es"
    by (auto simp: normalize_hyperliquid_trades_frame_def res_bind_Inr_iff traverse_Inr_iff)
  from ts obtain message items where frame: "frame = PObject message"
    "field_of message ''channel'' = Some (PText ''trades'')" "field_of message ''data'' = Some (PList items)"
    and items: "list_all2 (\<lambda>v t. trade_from_payload v = Inr t) items ts"
    by (auto simp: decode_hyperliquid_trades_frame_def res_bind_Inr_iff traverse_Inr_iff
        split: payload.splits option.splits if_splits dest!: require_trade_text_Inr)
  have "\<exists>kvs. items ! n = PObject kvs \<and> trade_of_payload kvs (ts ! n)"
    "normalize_hyperliquid_trade registry r (ts ! n) = Inr (es ! n)" if "n < length items" for n
    using that items es trade_from_payload_values [of "items ! n" "ts ! n"] by (auto simp: list_all2_conv_all_nth)
  moreover have "length es = length items" using items es by (simp add: list_all2_lengthD)
  ultimately show ?thesis
    unfolding frame(1) using frame(2,3) normalize_trade_Inr by (fastforce simp: trade_of_payload_def)
qed

theorem frame_normalised_whole_witness:
  "\<exists>es items. normalize_hyperliquid_trades_frame sample_registry sample_receipt sample_frame = Inr es
     \<and> field_of [(''channel'', PText ''trades''), (''data'', PList [sample_item ''100.5'' 7, sample_item ''99'' 8])]
         ''data'' = Some (PList items)
     \<and> length es = length items \<and> length es = 2"
proof -
  have "case normalize_hyperliquid_trades_frame sample_registry sample_receipt sample_frame of
      Inl _ \<Rightarrow> False | Inr es \<Rightarrow> length es = 2" by code_simp
  then obtain es where es: "normalize_hyperliquid_trades_frame sample_registry sample_receipt sample_frame = Inr es"
    and "length es = 2" by (auto split: sum.splits)
  with frame_normalised_whole [OF es] show ?thesis by (auto simp: sample_frame_def)
qed

text \<open>
  The source identifier is the identity of a trade. Two decoded trades have the same identifier exactly
  when their time, coin and trade id agree, whatever characters the coin holds.
\<close>
theorem source_id_is_trade_identity:
  assumes "trade_from_payload v = Inr t" "trade_from_payload w = Inr u"
  shows "hyperliquid_trade_source_event_id t = hyperliquid_trade_source_event_id u
    \<longleftrightarrow> ws_time t = ws_time u \<and> ws_coin t = ws_coin u \<and> ws_tid t = ws_tid u"
  using trade_from_payload_values [OF assms(1)] trade_from_payload_values [OF assms(2)]
  by (intro source_event_id_inject) (auto simp: trade_of_payload_def)

theorem source_id_is_trade_identity_witness:
  "\<exists>t u. trade_from_payload (sample_item ''100.5'' 7) = Inr t \<and> trade_from_payload (sample_item ''99'' 7) = Inr u
     \<and> hyperliquid_trade_source_event_id t = hyperliquid_trade_source_event_id u \<and> ws_px t \<noteq> ws_px u"
proof -
  have "case trade_from_payload (sample_item ''100.5'' 7) of Inl _ \<Rightarrow> False | Inr t \<Rightarrow>
      (case trade_from_payload (sample_item ''99'' 7) of Inl _ \<Rightarrow> False | Inr u \<Rightarrow>
        ws_time t = ws_time u \<and> ws_coin t = ws_coin u \<and> ws_tid t = ws_tid u \<and> ws_px t \<noteq> ws_px u)" by code_simp
  then obtain t u where tu: "trade_from_payload (sample_item ''100.5'' 7) = Inr t"
    "trade_from_payload (sample_item ''99'' 7) = Inr u"
    and "ws_time t = ws_time u \<and> ws_coin t = ws_coin u \<and> ws_tid t = ws_tid u" "ws_px t \<noteq> ws_px u"
    by (auto split: sum.splits)
  with source_id_is_trade_identity [OF tu] show ?thesis by blast
qed

end
