(* ===== verification/Capacity.thy ===== *)
theory Capacity
  imports DecimalText
begin

text \<open>
  \<^verbatim>\<open>collector_capacity.py\<close> and the capacity step of \<^verbatim>\<open>Supervisor.tick\<close>: the host memory a capture is admitted
  on and the pressure that stops it. A sample is a record of what \<open>snapshot\<close> reads; an average is a finite
  rational. Proved: what admission guarantees, and that the supervision with its streak counters stops
  exactly where a rule on neighbouring samples says.
\<close>

section \<open>Samples and policy\<close>

definition GIB :: int where "GIB = 1024 ^ 3"

record arc_stats =
  mru_evictable_data :: int
  mfu_evictable_data :: int
  arc_size :: int
  c_min :: int
  c_max :: int
  memory_throttle_count :: int
  evict_not_enough :: int

record psi_stats =
  avg10 :: rat
  avg60 :: rat
  avg300 :: rat
  psi_total :: int

record sample =
  monotonic_ns :: int
  sample_zfs_version :: string
  direct_memavailable_bytes :: int
  memtotal_bytes :: int
  sample_arc :: arc_stats
  psi_some :: psi_stats
  psi_full :: psi_stats
  global_oom_kill :: int

record capacity_policy =
  zfs_version :: string
  arc_min :: int
  arc_max :: int

definition make_capacity_policy :: "string \<Rightarrow> int \<Rightarrow> int \<Rightarrow> capacity_policy result" where
  "make_capacity_policy version low high =
     res_bind (checks
       [(version \<noteq> [] \<and> length version < 80, ValueError ''ZFS version pin required.''),
        (0 \<le> low, ValueError ''Nonnegative exact integer required.''),
        (0 < low, ValueError ''Explicit ARC bounds required.''),
        (0 \<le> high, ValueError ''Nonnegative exact integer required.''),
        (low \<le> high, ValueError ''Explicit ARC bounds required.'')])
     (\<lambda>_. Inr \<lparr>zfs_version = version, arc_min = low, arc_max = high\<rparr>)"

record proof_of_memory =
  direct_bytes :: int
  clean_data_bytes :: int
  credit_bytes :: int
  effective_bytes :: int

section \<open>The measure\<close>

definition count_ok :: "int \<Rightarrow> bool \<times> exn" where
  "count_ok v = (0 \<le> v, ValueError ''Nonnegative exact integer required.'')"

definition arc_counts :: "arc_stats \<Rightarrow> int list" where
  "arc_counts a = [mru_evictable_data a, mfu_evictable_data a, arc_size a, c_min a, c_max a,
     memory_throttle_count a, evict_not_enough a]"

definition averages :: "psi_stats \<Rightarrow> rat list" where
  "averages p = [avg10 p, avg60 p, avg300 p]"

definition psi_checks :: "psi_stats \<Rightarrow> (bool \<times> exn) list" where
  "psi_checks p = count_ok (psi_total p)
     # map (\<lambda>v. (0 \<le> v \<and> v \<le> 100, ValueError ''Invalid PSI average.'')) (averages p)"

definition arc_credit :: "sample \<Rightarrow> capacity_policy \<Rightarrow> int" where
  "arc_credit s policy =
     (let a = sample_arc s; data = mru_evictable_data a + mfu_evictable_data a
      in min (3 * GIB) (min data (max 0 (arc_size a - arc_min policy)) div 4))"

definition metric :: "sample \<Rightarrow> capacity_policy \<Rightarrow> proof_of_memory result" where
  "metric s policy =
     (let raw = direct_memavailable_bytes s; total = memtotal_bytes s; a = sample_arc s;
          data = mru_evictable_data a + mfu_evictable_data a; credit = arc_credit s policy
      in res_bind (checks
          ([(sample_zfs_version s = zfs_version policy, ValueError ''Unreviewed ZFS version.''),
            count_ok raw, count_ok total]
           @ map count_ok (arc_counts a)
           @ [(0 < total \<and> raw \<le> total \<and> c_min a = arc_min policy \<and> c_max a = arc_max policy
                 \<and> 0 < arc_size a \<and> arc_size a \<le> arc_max policy \<and> arc_max policy \<le> total,
               ValueError ''Incoherent or changed ARC bounds.''),
              (data \<le> arc_size a, ValueError ''Evictable DATA exceeds ARC size.''),
              (raw + credit \<le> total, ValueError ''Effective budget exceeds physical memory.''),
              count_ok (global_oom_kill s), count_ok (monotonic_ns s)]
           @ psi_checks (psi_some s) @ psi_checks (psi_full s)))
        (\<lambda>_. Inr \<lparr>direct_bytes = raw, clean_data_bytes = data, credit_bytes = credit,
           effective_bytes = raw + credit\<rparr>))"

section \<open>Admission\<close>

text \<open>The pressure counted between two samples, in microseconds.\<close>

definition psi_delta :: "(sample \<Rightarrow> psi_stats) \<Rightarrow> sample \<Rightarrow> sample \<Rightarrow> int" where
  "psi_delta kind previous current = psi_total (kind current) - psi_total (kind previous)"

definition gap_ns :: "sample \<Rightarrow> sample \<Rightarrow> int" where
  "gap_ns previous current = monotonic_ns current - monotonic_ns previous"

definition startup_interval_checks :: "sample \<Rightarrow> sample \<Rightarrow> (bool \<times> exn) list" where
  "startup_interval_checks previous current =
     (let gap = gap_ns previous current; full = psi_delta psi_full previous current;
          some = psi_delta psi_some previous current
      in [(1000000000 \<le> gap \<and> gap \<le> 5000000000, ValueError ''Startup sample spacing.''),
          (global_oom_kill current = global_oom_kill previous
             \<and> memory_throttle_count (sample_arc current) = memory_throttle_count (sample_arc previous)
             \<and> evict_not_enough (sample_arc current) = evict_not_enough (sample_arc previous),
           ValueError ''Startup OOM, throttle or eviction failure.''),
          (0 \<le> full \<and> full * 100000 < gap * 1, ValueError ''Startup PSI interval.''),
          (0 \<le> some \<and> some * 100000 < gap * 5, ValueError ''Startup PSI interval.''),
          (full \<le> some + 1, ValueError ''Startup PSI delta subset.'')])"

definition startup_checks :: "sample option \<Rightarrow> sample \<Rightarrow> proof_of_memory \<Rightarrow> (bool \<times> exn) list" where
  "startup_checks previous s p =
     [(2 * GIB \<le> direct_bytes p \<and> 5 * GIB \<le> effective_bytes p,
       ValueError ''Insufficient native memory admission headroom.''),
      (list_all (\<lambda>v. v < 1) (averages (psi_full s)), ValueError ''Startup PSI average limit.''),
      (list_all (\<lambda>v. v < 5) (averages (psi_some s)), ValueError ''Startup PSI average limit.''),
      (list_all2 (\<le>) (averages (psi_full s)) (averages (psi_some s))
         \<and> psi_total (psi_full s) \<le> psi_total (psi_some s), ValueError ''PSI subset violated.'')]
     @ (case previous of None \<Rightarrow> [] | Some q \<Rightarrow> startup_interval_checks q s)"

fun admit_from :: "sample option \<Rightarrow> sample list \<Rightarrow> capacity_policy \<Rightarrow> proof_of_memory list result" where
  "admit_from previous [] policy = Inr []"
| "admit_from previous (s # ss) policy =
     res_bind (metric s policy) (\<lambda>p.
     res_bind (checks (startup_checks previous s p)) (\<lambda>_.
     res_bind (admit_from (Some s) ss policy) (\<lambda>ps. Inr (p # ps))))"

definition admit :: "sample list \<Rightarrow> capacity_policy \<Rightarrow> proof_of_memory list result" where
  "admit samples policy =
     res_bind (guard (length samples = 3) (ValueError ''Three fresh startup samples required.''))
       (\<lambda>_. admit_from None samples policy)"

section \<open>Supervision\<close>

record streaks =
  low_streak :: nat
  psi_streak :: nat

definition no_streaks :: streaks where "no_streaks = \<lparr>low_streak = 0, psi_streak = 0\<rparr>"

definition evaluate_checks :: "sample \<Rightarrow> sample \<Rightarrow> (bool \<times> exn) list" where
  "evaluate_checks previous current =
     (let gap = gap_ns previous current; full = psi_delta psi_full previous current;
          some = psi_delta psi_some previous current
      in [(0 < gap \<and> gap \<le> 5000000000, ValueError ''Pressure supervision gap exceeds five seconds.''),
          (global_oom_kill previous \<le> global_oom_kill current, ValueError ''OOM counter regressed.''),
          (0 \<le> full * 100000 \<and> full * 100000 \<le> gap * 100, ValueError ''Invalid PSI counter interval.''),
          (0 \<le> some * 100000 \<and> some * 100000 \<le> gap * 100, ValueError ''Invalid PSI counter interval.''),
          (memory_throttle_count (sample_arc previous) \<le> memory_throttle_count (sample_arc current),
           ValueError ''ARC failure counter regressed.''),
          (evict_not_enough (sample_arc previous) \<le> evict_not_enough (sample_arc current),
           ValueError ''ARC failure counter regressed.'')])"

definition under_pressure :: "sample \<Rightarrow> sample \<Rightarrow> bool" where
  "under_pressure previous current =
     (let gap = gap_ns previous current
      in gap * 1 \<le> psi_delta psi_full previous current * 100000
         \<or> gap * 5 \<le> psi_delta psi_some previous current * 100000)"

definition low_memory :: "sample \<Rightarrow> bool" where
  "low_memory s \<longleftrightarrow> direct_memavailable_bytes s < 3 * GIB div 2"

definition evaluate ::
  "sample \<Rightarrow> sample \<Rightarrow> streaks \<Rightarrow> capacity_policy \<Rightarrow> (streaks \<times> string list) result" where
  "evaluate previous current k policy =
     res_bind (metric current policy) (\<lambda>p.
     res_bind (checks (evaluate_checks previous current)) (\<lambda>_.
     let low = (if direct_bytes p < 3 * GIB div 2 then low_streak k + 1 else 0);
         psi = (if under_pressure previous current then psi_streak k + 1 else 0);
         a = sample_arc previous; b = sample_arc current
     in Inr (\<lparr>low_streak = low, psi_streak = psi\<rparr>,
         (if direct_bytes p < GIB \<or> 2 \<le> low then [''low-memory''] else [])
         @ (if 2 \<le> psi then [''memory-pressure''] else [])
         @ (if global_oom_kill previous < global_oom_kill current then [''global-oom''] else [])
         @ (if memory_throttle_count a < memory_throttle_count b then [''zfs-throttle''] else [])
         @ (if direct_bytes p < 5 * GIB div 2 \<and> evict_not_enough a < evict_not_enough b
            then [''zfs-eviction-with-low-memory''] else []))))"

text \<open>The capacity step of \<open>tick\<close>, and the step at every sample of a run.\<close>

definition watch_step ::
  "capacity_policy \<Rightarrow> sample option \<times> streaks \<Rightarrow> sample \<Rightarrow> (sample option \<times> streaks) result" where
  "watch_step policy st current =
     (case st of
        (None, k) \<Rightarrow> Inr (Some current, k)
      | (Some previous, k) \<Rightarrow>
          res_bind (evaluate previous current k policy) (\<lambda>(k', reasons).
          if reasons \<noteq> [] then Inl (ValueError (''Capacity stop: '' @ join '','' reasons))
          else Inr (Some current, k')))"

fun watch :: "capacity_policy \<Rightarrow> sample option \<times> streaks \<Rightarrow> sample list \<Rightarrow> (sample option \<times> streaks) result" where
  "watch policy st [] = Inr st"
| "watch policy st (s # ss) = res_bind (watch_step policy st s) (\<lambda>st'. watch policy st' ss)"

section \<open>What a measure and an admission prove\<close>

lemma credit_bounds:
  "0 \<le> data \<Longrightarrow> 0 \<le> slack \<Longrightarrow> let c = min (3 * GIB) (min data slack div 4) in 0 \<le> c \<and> c \<le> 3 * GIB \<and> 4 * c \<le> data"
  unfolding GIB_def min_def Let_def by (simp, presburger)

lemma metric_Inr:
  assumes "metric s policy = Inr p"
  shows "direct_bytes p = direct_memavailable_bytes s" "0 \<le> credit_bytes p" "credit_bytes p \<le> 3 * GIB"
    "4 * credit_bytes p \<le> clean_data_bytes p" "effective_bytes p = direct_bytes p + credit_bytes p"
    "clean_data_bytes p \<le> arc_size (sample_arc s)" "effective_bytes p \<le> memtotal_bytes s"
proof -
  define data where "data = mru_evictable_data (sample_arc s) + mfu_evictable_data (sample_arc s)"
  from assms have p: "p = \<lparr>direct_bytes = direct_memavailable_bytes s, clean_data_bytes = data,
      credit_bytes = arc_credit s policy, effective_bytes = direct_memavailable_bytes s + arc_credit s policy\<rparr>"
    by (auto simp only: metric_def Let_def data_def res_bind_Inr_iff sum.inject)
  from assms have "0 \<le> data" "data \<le> arc_size (sample_arc s)"
    "direct_memavailable_bytes s + arc_credit s policy \<le> memtotal_bytes s"
    by (auto simp: metric_def Let_def data_def res_bind_Inr_iff checks_append count_ok_def arc_counts_def)
  moreover have "let c = arc_credit s policy in 0 \<le> c \<and> c \<le> 3 * GIB \<and> 4 * c \<le> data"
    using credit_bounds [OF \<open>0 \<le> data\<close>, of "max 0 (arc_size (sample_arc s) - arc_min policy)"]
    by (simp add: arc_credit_def data_def Let_def)
  ultimately show "direct_bytes p = direct_memavailable_bytes s" "0 \<le> credit_bytes p" "credit_bytes p \<le> 3 * GIB"
    "4 * credit_bytes p \<le> clean_data_bytes p" "effective_bytes p = direct_bytes p + credit_bytes p"
    "clean_data_bytes p \<le> arc_size (sample_arc s)" "effective_bytes p \<le> memtotal_bytes s"
    by (simp_all add: p Let_def)
qed

lemma admit_from_Inr:
  assumes "admit_from previous ss policy = Inr ps"
  shows "length ps = length ss \<and> (\<forall>n < length ss. metric (ss ! n) policy = Inr (ps ! n)
      \<and> list_all fst (startup_checks (if n = 0 then previous else Some (ss ! (n - 1))) (ss ! n) (ps ! n)))"
  using assms
proof (induction previous ss policy arbitrary: ps rule: admit_from.induct)
  case (2 previous s ss policy)
  from "2.prems" obtain p qs where p: "metric s policy = Inr p" "checks (startup_checks previous s p) = Inr ()"
    and qs: "admit_from (Some s) ss policy = Inr qs" and ps: "ps = p # qs"
    by (auto simp: res_bind_Inr_iff)
  note IH = "2.IH" [OF qs]
  have "list_all fst (startup_checks previous s p)" using p(2) by (simp add: checks_Inr_iff list_all_iff)
  with IH p ps show ?case by (auto simp: nth_Cons split: nat.splits if_splits)
qed simp

text \<open>
  Admission grants what it says. Each of the three samples shows 2 GiB directly available and 5 GiB with
  the credit; the credit is at most 3 GiB and a quarter of the clean data the cache really holds, and never
  carries the budget past physical memory. Neighbouring samples are one to five seconds apart, with no
  out-of-memory kill, throttle or failed eviction between them.
\<close>
theorem admission_headroom:
  assumes "admit ss policy = Inr ps"
  shows "length ss = 3 \<and> length ps = 3
    \<and> (\<forall>n < 3. let s = ss ! n; p = ps ! n in
        direct_bytes p = direct_memavailable_bytes s \<and> 2 * GIB \<le> direct_bytes p
        \<and> effective_bytes p = direct_bytes p + credit_bytes p \<and> 5 * GIB \<le> effective_bytes p
        \<and> effective_bytes p \<le> memtotal_bytes s \<and> 0 \<le> credit_bytes p \<and> credit_bytes p \<le> 3 * GIB
        \<and> 4 * credit_bytes p \<le> arc_size (sample_arc s))
    \<and> (\<forall>n < 2. let s = ss ! n; t = ss ! Suc n in
        1000000000 \<le> gap_ns s t \<and> gap_ns s t \<le> 5000000000 \<and> global_oom_kill s = global_oom_kill t
        \<and> memory_throttle_count (sample_arc s) = memory_throttle_count (sample_arc t)
        \<and> evict_not_enough (sample_arc s) = evict_not_enough (sample_arc t) \<and> \<not> under_pressure s t)"
proof -
  from assms have len: "length ss = 3" and run: "admit_from None ss policy = Inr ps"
    by (auto simp: admit_def res_bind_Inr_iff)
  note facts = admit_from_Inr [OF run]
  have head: "2 * GIB \<le> direct_bytes (ps ! n)" "5 * GIB \<le> effective_bytes (ps ! n)"
    "metric (ss ! n) policy = Inr (ps ! n)" if "n < 3" for n
    using facts that len by (auto simp: startup_checks_def)
  have between: "list_all fst (startup_interval_checks (ss ! n) (ss ! Suc n))" if "n < 2" for n
    using conjunct2 [OF facts] that len by (auto simp: startup_checks_def dest!: spec [of _ "Suc n"])
  have "4 * credit_bytes (ps ! n) \<le> arc_size (sample_arc (ss ! n))" if "n < 3" for n
    using metric_Inr(4,6) [OF head(3) [OF that]] by simp
  moreover have "length ps = 3" using facts len by simp
  moreover note head(1,2) metric_Inr [OF head(3)]
  moreover have "let s = ss ! n; t = ss ! Suc n in
        1000000000 \<le> gap_ns s t \<and> gap_ns s t \<le> 5000000000 \<and> global_oom_kill s = global_oom_kill t
        \<and> memory_throttle_count (sample_arc s) = memory_throttle_count (sample_arc t)
        \<and> evict_not_enough (sample_arc s) = evict_not_enough (sample_arc t) \<and> \<not> under_pressure s t"
    if "n < 2" for n
    using between [OF that] by (simp add: startup_interval_checks_def under_pressure_def Let_def)
  ultimately show ?thesis using len by (simp add: Let_def)
qed

text \<open>Three quiet samples, for the witness.\<close>

definition quiet_sample :: "int \<Rightarrow> sample" where
  "quiet_sample t =
     \<lparr>monotonic_ns = t, sample_zfs_version = ''2.3'', direct_memavailable_bytes = 4 * GIB,
      memtotal_bytes = 32 * GIB,
      sample_arc = \<lparr>mru_evictable_data = 3 * GIB, mfu_evictable_data = 3 * GIB, arc_size = 8 * GIB,
        c_min = GIB, c_max = 16 * GIB, memory_throttle_count = 0, evict_not_enough = 2\<rparr>,
      psi_some = \<lparr>avg10 = 1 / 2, avg60 = 0, avg300 = 0, psi_total = 9\<rparr>,
      psi_full = \<lparr>avg10 = 0, avg60 = 0, avg300 = 0, psi_total = 3\<rparr>, global_oom_kill = 0\<rparr>"

definition quiet_policy :: capacity_policy where
  "quiet_policy = \<lparr>zfs_version = ''2.3'', arc_min = GIB, arc_max = 16 * GIB\<rparr>"

theorem admission_headroom_witness:
  "\<exists>ps. admit [quiet_sample 0, quiet_sample 1000000000, quiet_sample 2000000000] quiet_policy = Inr ps
     \<and> length ps = 3 \<and> 5 * GIB \<le> effective_bytes (ps ! 0)"
proof -
  have "case admit [quiet_sample 0, quiet_sample 1000000000, quiet_sample 2000000000] quiet_policy of
      Inl _ \<Rightarrow> False | Inr ps \<Rightarrow> True" by code_simp
  then obtain ps where ps: "admit [quiet_sample 0, quiet_sample 1000000000, quiet_sample 2000000000] quiet_policy = Inr ps"
    by (auto split: sum.splits)
  from admission_headroom [OF ps, unfolded Let_def]
  have "length ps = 3" and head: "\<forall>n < 3. 5 * GIB \<le> effective_bytes (ps ! n)" by blast+
  moreover from spec [OF head, of 0] have "5 * GIB \<le> effective_bytes (ps ! 0)" by simp
  ultimately have "length ps = 3" "5 * GIB \<le> effective_bytes (ps ! 0)" by simp_all
  with ps show ?thesis by blast
qed

section \<open>The supervision is a rule on neighbouring samples\<close>

text \<open>The rule, without counters: every step is calm, and no two neighbouring steps are both low or both pressed.\<close>

definition calm_step :: "capacity_policy \<Rightarrow> sample \<Rightarrow> sample \<Rightarrow> bool" where
  "calm_step policy s t \<longleftrightarrow>
     (\<exists>p. metric t policy = Inr p) \<and> checks (evaluate_checks s t) = Inr ()
     \<and> GIB \<le> direct_memavailable_bytes t \<and> global_oom_kill t \<le> global_oom_kill s
     \<and> memory_throttle_count (sample_arc t) \<le> memory_throttle_count (sample_arc s)
     \<and> (5 * GIB div 2 \<le> direct_memavailable_bytes t \<or> evict_not_enough (sample_arc t) \<le> evict_not_enough (sample_arc s))"

definition never_stopped :: "capacity_policy \<Rightarrow> sample list \<Rightarrow> bool" where
  "never_stopped policy xs \<longleftrightarrow>
     (\<forall>n. Suc n < length xs \<longrightarrow> calm_step policy (xs ! n) (xs ! Suc n))
     \<and> (\<forall>n. Suc (Suc n) < length xs \<longrightarrow>
          \<not> (low_memory (xs ! Suc n) \<and> low_memory (xs ! Suc (Suc n)))
          \<and> \<not> (under_pressure (xs ! n) (xs ! Suc n) \<and> under_pressure (xs ! Suc n) (xs ! Suc (Suc n))))"

fun calm_from :: "capacity_policy \<Rightarrow> bool \<Rightarrow> bool \<Rightarrow> sample \<Rightarrow> sample list \<Rightarrow> bool" where
  "calm_from policy low psi s [] = True"
| "calm_from policy low psi s (t # ts) =
     (calm_step policy s t \<and> \<not> (low \<and> low_memory t) \<and> \<not> (psi \<and> under_pressure s t)
      \<and> calm_from policy (low_memory t) (under_pressure s t) t ts)"

lemma watch_step_Inr_iff:
  "watch_step policy (Some s, k) t = Inr st \<longleftrightarrow>
     calm_step policy s t \<and> \<not> (0 < low_streak k \<and> low_memory t) \<and> \<not> (0 < psi_streak k \<and> under_pressure s t)
     \<and> st = (Some t, \<lparr>low_streak = (if low_memory t then low_streak k + 1 else 0),
                      psi_streak = (if under_pressure s t then psi_streak k + 1 else 0)\<rparr>)"
proof (cases "metric t policy")
  case (Inr p)
  from metric_Inr(1) [OF Inr] have "direct_bytes p = direct_memavailable_bytes t" .
  with Inr show ?thesis
    by (auto simp: watch_step_def evaluate_def calm_step_def low_memory_def res_bind_Inr_iff Let_def not_less not_le)
qed (simp add: watch_step_def evaluate_def calm_step_def)

lemma watch_calm_from:
  "\<not> isl (watch policy (Some s, k) ts) \<longleftrightarrow> calm_from policy (0 < low_streak k) (0 < psi_streak k) s ts"
proof (induction ts arbitrary: s k)
  case (Cons t ts)
  show ?case
  proof (cases "watch_step policy (Some s, k) t")
    case (Inl e)
    then show ?thesis
      using watch_step_Inr_iff [of policy s k t "(Some t, \<lparr>low_streak = (if low_memory t then low_streak k + 1 else 0),
          psi_streak = (if under_pressure s t then psi_streak k + 1 else 0)\<rparr>)"] by auto
  next
    case (Inr st)
    with watch_step_Inr_iff [of policy s k t st] Cons.IH show ?thesis by auto
  qed
qed simp

lemma all_nat: "(\<forall>n. P n) \<longleftrightarrow> P 0 \<and> (\<forall>n. P (Suc n))"
  by (metis nat.exhaust)

lemma never_stopped_simps:
  "never_stopped policy [s]"
  "never_stopped policy [s, t] \<longleftrightarrow> calm_step policy s t"
  "never_stopped policy (s # t # u # ts) \<longleftrightarrow> calm_step policy s t \<and> \<not> (low_memory t \<and> low_memory u)
     \<and> \<not> (under_pressure s t \<and> under_pressure t u) \<and> never_stopped policy (t # u # ts)"
  unfolding never_stopped_def
  by (simp, simp add: all_nat [of "\<lambda>n. Suc n < _ \<longrightarrow> _ n"])
    (subst (1 2) all_nat, auto)

lemma calm_from_never_stopped:
  "calm_from policy low psi s (t # ts) \<longleftrightarrow>
     never_stopped policy (s # t # ts) \<and> \<not> (low \<and> low_memory t) \<and> \<not> (psi \<and> under_pressure s t)"
proof (induction ts arbitrary: s t low psi)
  case (Cons u us)
  show ?case by (subst calm_from.simps(2), subst Cons.IH) (auto simp: never_stopped_simps)
qed (simp add: never_stopped_simps)

text \<open>
  C31: Supervision by counters equals a rule without counters. After an admission the watch runs through
  the samples without a stop exactly when every sample is calm after its predecessor, no two supervised
  neighbours are both below 1.5 GiB, and no two neighbouring intervals are both under pressure; so one bad
  second is tolerated and a second one stops the capture.
\<close>
theorem watch_equals_neighbour_rule:
  "\<not> isl (watch policy (Some s, no_streaks) ts) \<longleftrightarrow> never_stopped policy (s # ts)"
  unfolding watch_calm_from
  by (cases ts) (simp_all add: calm_from_never_stopped no_streaks_def never_stopped_simps del: calm_from.simps(2))

end
