(* ===== verification/CollectorPlan.thy ===== *)
theory CollectorPlan
  imports PaperRisk Replay
begin

text \<open>
  The plan of a public capture: \<^verbatim>\<open>RuntimePlan\<close>, the environment guard and the command line of
  \<^verbatim>\<open>collector_runtime.py\<close>, the command the supervisor of \<^verbatim>\<open>collector_continuous.py\<close> starts it with, its retry
  rules, and the composition root \<^verbatim>\<open>startup.py\<close>. Of \<open>argparse\<close> the model has the exact long options with their
  value in the next argument, the form the supervisor writes; abbreviations and \<open>--name=value\<close> are usage
  errors here. Proved: the command of the supervisor starts exactly the plan it stands for.
\<close>

section \<open>Plans\<close>

definition LANES :: "(string \<times> string \<times> string) list" where
  "LANES =
     [(''hyperliquid'', ''hyperliquid_raw_research'', ''data-1a/hyperliquid/BTC-PERP''),
      (''binance'', ''binance_public_research'', ''data-1f/binance/BTCUSDT''),
      (''kraken'', ''kraken_l3_research'', ''data-1b/kraken/BTC-USD''),
      (''bitvavo-standard'', ''bitvavo_standard_research'', ''data-1d/bitvavo/BTC-EUR'')]"

definition lane_names :: "string list" where "lane_names = map fst LANES"

definition STORAGE_PROFILES :: "string list" where "STORAGE_PROFILES = [''vm-nfs'', ''truenas-zfs'']"

record runtime_plan =
  rp_campaign :: string
  rp_lanes :: "string list"
  rp_chunk_seconds :: int
  rp_chunks :: int
  rp_pilot :: bool
  rp_source_commit :: string
  rp_image_digest :: string
  rp_prune_spool :: bool
  rp_storage_profile :: string

definition campaign_char :: "char \<Rightarrow> bool" where
  "campaign_char c = (let n = (of_char c :: int) in (48 \<le> n \<and> n \<le> 57) \<or> (97 \<le> n \<and> n \<le> 122))"

definition hex_char :: "char \<Rightarrow> bool" where
  "hex_char c = (let n = (of_char c :: int) in (48 \<le> n \<and> n \<le> 57) \<or> (97 \<le> n \<and> n \<le> 102))"

definition campaign_name :: "string \<Rightarrow> bool" where
  "campaign_name s =
     (case s of
        [] \<Rightarrow> False
      | c # r \<Rightarrow> campaign_char c \<and> length r \<le> 35 \<and> list_all (\<lambda>d. campaign_char d \<or> d = CHR ''-'') r)"

definition hex_text :: "nat \<Rightarrow> string \<Rightarrow> bool" where
  "hex_text n s \<longleftrightarrow> length s = n \<and> list_all hex_char s"

definition image_digest :: "string \<Rightarrow> bool" where
  "image_digest s \<longleftrightarrow> take 7 s = ''sha256:'' \<and> hex_text 64 (drop 7 s)"

definition plan_checks :: "runtime_plan \<Rightarrow> (bool \<times> exn) list" where
  "plan_checks p =
     [(rp_storage_profile p \<in> set STORAGE_PROFILES, ValueError ''Unknown collector storage profile.''),
      (campaign_name (rp_campaign p), ValueError ''Invalid collector campaign identity.''),
      (rp_lanes p \<noteq> [] \<and> distinct (rp_lanes p) \<and> list_all (\<lambda>l. l \<in> set lane_names) (rp_lanes p),
       ValueError ''Select only distinct supported public collector lanes.''),
      (\<not> rp_pilot p \<or> (rp_chunk_seconds p = 600 \<and> rp_chunks p = 1),
       ValueError ''First pilot is exactly one 600-second chunk.''),
      (rp_pilot p \<or> (7200 \<le> rp_chunk_seconds p \<and> rp_chunk_seconds p \<le> 21600),
       ValueError ''Retained chunks must be explicitly 2-6 hours after pilot review.''),
      (1 \<le> rp_chunks p \<and> rp_chunks p \<le> 36 \<and> rp_chunk_seconds p * rp_chunks p \<le> 259200,
       ValueError ''Bounded campaign must not exceed 72 hours.''),
      (hex_text 40 (rp_source_commit p), ValueError ''Full reviewed source commit required.''),
      (image_digest (rp_image_digest p), ValueError ''Immutable verified image digest required.'')]"

definition make_runtime_plan :: "runtime_plan \<Rightarrow> runtime_plan result" where
  "make_runtime_plan p = res_bind (checks (plan_checks p)) (\<lambda>_. Inr p)"

section \<open>The environment\<close>

text \<open>An environment is an association list of distinct names.\<close>

type_synonym environment = "(string \<times> string) list"

definition ends_with :: "string \<Rightarrow> string \<Rightarrow> bool" where
  "ends_with suffix s \<longleftrightarrow> length suffix \<le> length s \<and> drop (length s - length suffix) s = suffix"

text \<open>The pattern \<^verbatim>\<open>(?:_KEY|_SECRET|_TOKEN|PASSWORD|CREDENTIALS)$\<close>; \<open>$\<close> also matches before a last newline.\<close>

definition credential_name :: "string \<Rightarrow> bool" where
  "credential_name s =
     list_ex (\<lambda>suffix. ends_with suffix s \<or> ends_with (suffix @ [CHR 0x0A]) s)
       [''_KEY'', ''_SECRET'', ''_TOKEN'', ''PASSWORD'', ''CREDENTIALS'']"

definition raw_trading_mode :: "environment \<Rightarrow> raw_mode" where
  "raw_trading_mode env = (case map_of env ''TRADING_MODE'' of None \<Rightarrow> ModeNone | Some s \<Rightarrow> ModeText s)"

definition public_environment :: "environment \<Rightarrow> environment result" where
  "public_environment source =
     res_bind (require_local_paper_mode (raw_trading_mode source)) (\<lambda>_.
     if ''D41_EXECUTION_MODE'' \<in> set (map fst source)
     then Inl (ValueError ''Collector cannot receive execution configuration.'')
     else if list_ex (\<lambda>name. name \<noteq> ''GPG_KEY'' \<and> credential_name name) (map fst source)
     then Inl (ValueError ''Collector container must not contain account or signing credentials.'')
     else Inr
       [(''PATH'', ''/usr/local/bin:/usr/bin:/bin''), (''PYTHONPATH'', ''/app/src''),
        (''PYTHONDONTWRITEBYTECODE'', ''1''), (''TRADING_MODE'', ''PAPER''), (''TZ'', ''UTC''),
        (''OMP_NUM_THREADS'', ''1''), (''OPENBLAS_NUM_THREADS'', ''1'')])"

text \<open>\<^verbatim>\<open>startup.py\<close>: the mode is checked before anything is resolved or built.\<close>

definition start_local_application ::
  "(string \<Rightarrow> 'r result) \<Rightarrow> ('r \<Rightarrow> 'a result) \<Rightarrow> environment \<Rightarrow> 'a result" where
  "start_local_application resolver factory environment =
     res_bind (require_local_paper_mode (raw_trading_mode environment)) (\<lambda>mode.
     res_bind (resolver mode) factory)"

definition native_command :: "string \<Rightarrow> string \<Rightarrow> string \<Rightarrow> string \<Rightarrow> int \<Rightarrow> string list result" where
  "native_command executable lane artifact_root run_id seconds =
     (case map_of LANES lane of
        None \<Rightarrow> Inl (KeyError lane)
      | Some (program, _) \<Rightarrow> Inr
          [executable, ''-B'', ''-m'', ''hyperliquid_bot.'' @ program, ''--artifact-root'', artifact_root,
           ''--run-id'', run_id, ''--duration-seconds'', int_text seconds])"

section \<open>The command line\<close>

record cli_arguments =
  cli_check_image :: bool
  cli_health :: bool
  cli_expected_source :: "string option"
  cli_expected_image :: "string option"
  cli_campaign :: "string option"
  cli_lane :: "string list option"
  cli_chunk_seconds :: "int option"
  cli_chunks :: "int option"
  cli_pilot :: bool
  cli_prune_spool :: bool
  cli_storage_profile :: string
  cli_spool :: string
  cli_capture :: string
  cli_archive :: string
  cli_network_marker :: string
  cli_clock :: string

definition cli_defaults :: cli_arguments where
  "cli_defaults = \<lparr>cli_check_image = False, cli_health = False, cli_expected_source = None,
     cli_expected_image = None, cli_campaign = None, cli_lane = None, cli_chunk_seconds = None,
     cli_chunks = None, cli_pilot = False, cli_prune_spool = False, cli_storage_profile = ''vm-nfs'',
     cli_spool = ''/spool'', cli_capture = ''/capture'', cli_archive = ''/archive'',
     cli_network_marker = ''/control/network-ready.json'', cli_clock = ''/control/clock.json''\<rparr>"

definition set_flag :: "string \<Rightarrow> cli_arguments \<Rightarrow> cli_arguments option" where
  "set_flag name a =
     (if name = ''--check-image'' then Some (a\<lparr>cli_check_image := True\<rparr>)
      else if name = ''--health'' then Some (a\<lparr>cli_health := True\<rparr>)
      else if name = ''--pilot'' then Some (a\<lparr>cli_pilot := True\<rparr>)
      else if name = ''--prune-spool'' then Some (a\<lparr>cli_prune_spool := True\<rparr>)
      else None)"

text \<open>
  Python's \<open>int\<close> of an argument: white space around the number is dropped, and single underscores
  may stand between digits.
\<close>

definition underscores_ok :: "string \<Rightarrow> bool" where
  "underscores_ok ds \<longleftrightarrow> ds \<noteq> [] \<and> hd ds \<noteq> CHR ''_'' \<and> last ds \<noteq> CHR ''_''
     \<and> (CHR ''_'', CHR ''_'') \<notin> set (zip ds (tl ds))"

definition int_argument :: "string \<Rightarrow> int option" where
  "int_argument s =
     (let s = strip s
      in if \<not> underscores_ok (snd (split_sign s)) then None
         else case py_int (filter (\<lambda>c. c \<noteq> CHR ''_'') s) of Inl _ \<Rightarrow> None | Inr n \<Rightarrow> Some n)"

definition set_option :: "string \<Rightarrow> string \<Rightarrow> cli_arguments \<Rightarrow> cli_arguments option" where
  "set_option name v a =
     (if name = ''--expected-source'' then Some (a\<lparr>cli_expected_source := Some v\<rparr>)
      else if name = ''--expected-image'' then Some (a\<lparr>cli_expected_image := Some v\<rparr>)
      else if name = ''--campaign'' then Some (a\<lparr>cli_campaign := Some v\<rparr>)
      else if name = ''--lane'' then
        (if v \<in> set lane_names
         then Some (a\<lparr>cli_lane := Some ((case cli_lane a of None \<Rightarrow> [] | Some ls \<Rightarrow> ls) @ [v])\<rparr>) else None)
      else if name = ''--chunk-seconds'' then
        map_option (\<lambda>n. a\<lparr>cli_chunk_seconds := Some n\<rparr>) (int_argument v)
      else if name = ''--chunks'' then map_option (\<lambda>n. a\<lparr>cli_chunks := Some n\<rparr>) (int_argument v)
      else if name = ''--storage-profile'' then
        (if v \<in> set STORAGE_PROFILES then Some (a\<lparr>cli_storage_profile := v\<rparr>) else None)
      else if name = ''--spool'' then Some (a\<lparr>cli_spool := v\<rparr>)
      else if name = ''--capture'' then Some (a\<lparr>cli_capture := v\<rparr>)
      else if name = ''--archive'' then Some (a\<lparr>cli_archive := v\<rparr>)
      else if name = ''--network-marker'' then Some (a\<lparr>cli_network_marker := v\<rparr>)
      else if name = ''--clock'' then Some (a\<lparr>cli_clock := v\<rparr>)
      else None)"

text \<open>
  How the parser classifies one argument: a value, an option (with the value after its \<open>=\<close>, if it
  has one), or neither. An option may be shortened as long as only one option begins so; a
  negative number, a lone dash and a text with a space are values although they begin with a dash.
\<close>

definition OPTION_NAMES :: "string list" where
  "OPTION_NAMES = [''--help'', ''--check-image'', ''--health'', ''--expected-source'', ''--expected-image'',
     ''--campaign'', ''--lane'', ''--chunk-seconds'', ''--chunks'', ''--pilot'', ''--prune-spool'',
     ''--storage-profile'', ''--spool'', ''--capture'', ''--archive'', ''--network-marker'', ''--clock'']"

datatype cli_word = Value_Word | Option_Word string "string option" | Unknown_Word

text \<open>\<^verbatim>\<open>^-\d+$|^-\d*\.\d+$\<close>\<close>

definition negative_number :: "string \<Rightarrow> bool" where
  "negative_number s =
     (case s of
        [] \<Rightarrow> False
      | c # body \<Rightarrow>
          c = CHR ''-'' \<and> (case dropWhile is_digit body of
             [] \<Rightarrow> body \<noteq> []
           | d # part \<Rightarrow> d = CHR ''.'' \<and> is_digits part))"

definition option_word :: "string \<Rightarrow> cli_word" where
  "option_word s =
     (if take 1 s \<noteq> ''-'' then Value_Word
      else if s \<in> set OPTION_NAMES then Option_Word s None
      else if s = ''-'' then Value_Word
      else
        (let name = takeWhile (\<lambda>c. c \<noteq> CHR ''='') s;
             explicit = (case dropWhile (\<lambda>c. c \<noteq> CHR ''='') s of [] \<Rightarrow> None | _ # v \<Rightarrow> Some v);
             found = (if take 2 s = ''--'' then filter (\<lambda>n. take (length name) n = name) OPTION_NAMES else [])
         in if explicit \<noteq> None \<and> name \<in> set OPTION_NAMES then Option_Word name explicit
            else case found of
                [n] \<Rightarrow> Option_Word n explicit
              | [] \<Rightarrow> if negative_number s \<or> CHR '' '' \<in> set s then Value_Word else Unknown_Word
              | _ \<Rightarrow> Unknown_Word))"

text \<open>
  Where the parser exits instead of returning (a usage error, or the help text) the result is
  \<open>None\<close>. The separator \<open>--\<close>, which the program has no use for as it takes no positional
  argument, is counted as a usage error.
\<close>

fun parse_args :: "cli_arguments \<Rightarrow> string list \<Rightarrow> cli_arguments option" where
  "parse_args a [] = Some a"
| "parse_args a (s # rest) =
     (case option_word s of
        Option_Word name (Some v) \<Rightarrow>
          (case set_option name v a of None \<Rightarrow> None | Some a' \<Rightarrow> parse_args a' rest)
      | Option_Word name None \<Rightarrow>
          (case set_flag name a of
             Some a' \<Rightarrow> parse_args a' rest
           | None \<Rightarrow>
               (case rest of
                  [] \<Rightarrow> None
                | v # rest' \<Rightarrow>
                    if option_word v \<noteq> Value_Word then None
                    else (case set_option name v a of None \<Rightarrow> None | Some a' \<Rightarrow> parse_args a' rest')))
      | _ \<Rightarrow> None)"

text \<open>The roots, the network marker and the clock that \<open>collect_campaign\<close> is called with.\<close>

definition campaign_paths :: "cli_arguments \<Rightarrow> string list" where
  "campaign_paths a = [cli_spool a, cli_capture a, cli_archive a, cli_network_marker a, cli_clock a]"

datatype main_action =
    Usage_Error
  | Health_Check
  | Image_Check
  | Refused
  | Collect runtime_plan "string list"

text \<open>The health check reads a report of the runtime and compares it with the clock.\<close>

record runtime_health =
  rh_source_commit :: "string option"
  rh_phase :: "string option"
  rh_updated_utc_ns :: "int option"

definition health_exit :: "string \<Rightarrow> int \<Rightarrow> runtime_health \<Rightarrow> int" where
  "health_exit expected_source now_ns r =
     (if rh_source_commit r = Some expected_source
        \<and> rh_phase r \<in> set (map Some [''capturing'', ''publishing'', ''completed''])
        \<and> (case rh_updated_utc_ns r of
             None \<Rightarrow> False
           | Some updated \<Rightarrow> 0 \<le> now_ns - updated \<and> now_ns - updated \<le> 120000000000)
      then 0 else 2)"

definition plan_of_arguments :: "cli_arguments \<Rightarrow> runtime_plan option" where
  "plan_of_arguments a =
     (case (cli_campaign a, cli_lane a, cli_chunk_seconds a, cli_chunks a, cli_expected_source a, cli_expected_image a) of
        (Some campaign, Some lanes, Some seconds, Some chunks, Some source, Some digest) \<Rightarrow> Some
          \<lparr>rp_campaign = campaign, rp_lanes = lanes, rp_chunk_seconds = seconds, rp_chunks = chunks,
           rp_pilot = cli_pilot a, rp_source_commit = source, rp_image_digest = digest,
           rp_prune_spool = cli_prune_spool a, rp_storage_profile = cli_storage_profile a\<rparr>
      | _ \<Rightarrow> None)"

definition runtime_main :: "environment \<Rightarrow> string list \<Rightarrow> main_action result" where
  "runtime_main env argv =
     res_bind (public_environment env) (\<lambda>_. Inr
       (case parse_args cli_defaults argv of
          None \<Rightarrow> Usage_Error
        | Some a \<Rightarrow>
            (case cli_expected_source a of
               None \<Rightarrow> Usage_Error
             | Some source \<Rightarrow>
                 if map_of env ''COLLECTOR_SOURCE_COMMIT'' \<noteq> Some source then Usage_Error
                 else if \<not> hex_text 40 source then Usage_Error
                 else if cli_health a then Health_Check
                 else if cli_check_image a then Image_Check
                 else case plan_of_arguments a of
                     None \<Rightarrow> Usage_Error
                   | Some p \<Rightarrow> (case make_runtime_plan p of Inl _ \<Rightarrow> Refused | Inr plan \<Rightarrow> Collect plan (campaign_paths a)))))"

section \<open>The supervisor\<close>

definition CONTAINER_ROOTS :: "(string \<times> string) list" where
  "CONTAINER_ROOTS =
     [(''spool'', ''/home/chupa/hyperliquid-spool''),
      (''capture'', ''/mnt/hyperliquid-work/market-data/capture''),
      (''archive'', ''/mnt/hyperliquid-archive/market-data''),
      (''control'', ''/control'')]"

definition container_root :: "string \<Rightarrow> string" where
  "container_root role = the (map_of CONTAINER_ROOTS role)"

definition root_arguments :: "string list" where
  "root_arguments = [''--spool'', container_root ''spool'', ''--capture'', container_root ''capture'',
     ''--archive'', container_root ''archive'']"

definition process_contract :: "runtime_plan \<Rightarrow> string \<Rightarrow> (string list \<times> string list) result" where
  "process_contract p role =
     (if role \<notin> {''collector'', ''status''} then Inl (ValueError ''Only fixed managed process roles permitted.'')
      else if role = ''status'' then Inr
        ([''python'', ''-B'', ''-m'', ''hyperliquid_bot.collector_status''],
         root_arguments @ [''--control'', ''/control'', ''--host'', ''0.0.0.0'', ''--port'', ''8080''])
      else Inr
        ([''python'', ''-B'', ''-m'', ''hyperliquid_bot.collector_runtime''],
         [''--storage-profile'', ''truenas-zfs'', ''--expected-source'', rp_source_commit p,
          ''--expected-image'', rp_image_digest p, ''--campaign'', rp_campaign p]
         @ concat (map (\<lambda>lane. [''--lane'', lane]) (rp_lanes p))
         @ [''--chunk-seconds'', int_text (rp_chunk_seconds p), ''--chunks'', int_text (rp_chunks p)]
         @ (if rp_pilot p then [''--pilot''] else [])
         @ root_arguments
         @ (if rp_prune_spool p then [''--prune-spool''] else [])))"

definition retry_delay :: "int \<Rightarrow> int \<Rightarrow> int option result" where
  "retry_delay attempt maximum =
     res_bind (guard (1 \<le> attempt) (ValueError ''Retry attempt required.'')) (\<lambda>_.
     Inr (if attempt \<le> maximum then Some (min 900 (30 * 2 ^ nat (attempt - 1))) else None))"

text \<open>What \<open>transport_failure\<close> reads of a health document; \<open>None\<close> where the value has another type.\<close>

record native_health =
  nh_status :: "string option"
  nh_exception_class :: "string option"
  nh_integrity_events :: "int option"
  nh_credentialless :: bool

definition transport_failure :: "native_health list \<Rightarrow> bool" where
  "transport_failure health =
     (let failed = filter (\<lambda>h. nh_status h = Some ''FAILED'') health
      in failed \<noteq> []
         \<and> list_all (\<lambda>h. nh_exception_class h \<in> set (map Some
               [''TimeoutError'', ''ConnectionError'', ''ConnectionResetError'', ''ConnectionAbortedError'',
                ''ConnectionClosedError''])
             \<and> nh_integrity_events h = Some 0 \<and> nh_credentialless h) failed
         \<and> list_all (\<lambda>h. nh_status h \<in> set (map Some [''COMPLETED'', ''OPERATOR_STOP'', ''FAILED''])
             \<and> nh_integrity_events h = Some 0) health)"

section \<open>Guards\<close>

lemma unsafe_mode_starts_nothing:
  "raw_trading_mode env \<noteq> ModeNone \<Longrightarrow> raw_trading_mode env \<noteq> ModeText ''PAPER'' \<Longrightarrow>
     start_local_application resolver factory env = Inl UnsafeTradingModeError
     \<and> public_environment env = Inl UnsafeTradingModeError"
  by (simp add: start_local_application_def public_environment_def require_local_paper_mode_def split: raw_mode.splits)

lemma public_environment_names:
  assumes "public_environment env = Inr pub" "name \<in> set (map fst env)" "name \<noteq> ''GPG_KEY''"
  shows "\<not> credential_name name" "name \<noteq> ''D41_EXECUTION_MODE''"
  using assms
  by (auto simp: public_environment_def res_bind_Inr_iff list_ex_iff simp del: set_map list.set_map split: if_splits)

lemma retry_delay_bounds: "retry_delay k m = Inr (Some d) \<Longrightarrow> 30 \<le> d \<and> d \<le> 900 \<and> 1 \<le> k \<and> k \<le> m"
  by (auto simp: retry_delay_def res_bind_Inr_iff split: if_splits)

section \<open>What the supervisor starts\<close>

lemma nat_text_length: "n < 10 ^ k \<Longrightarrow> 0 < k \<Longrightarrow> length (nat_text n) \<le> k"
proof (induction k arbitrary: n)
  case (Suc k)
  then show ?case
    using Suc.IH [of "n div 10"] by (cases "k = 0") (auto simp: nat_text.simps [of n] less_mult_imp_div_less mult.commute)
qed simp

lemma char_not_dash:
  "hex_char c \<Longrightarrow> c \<noteq> CHR ''-''" "campaign_char c \<Longrightarrow> c \<noteq> CHR ''-''"
  "is_digit c \<Longrightarrow> c \<noteq> CHR ''-'' \<and> c \<noteq> CHR ''+''"
  by (auto simp: hex_char_def campaign_char_def is_digit_def)

lemma int_text_first:
  assumes "0 \<le> n"
  obtains c r where "int_text n = c # r" "is_digit c" "list_all is_digit r"
  using assms nat_text_digits [of "nat n"] by (cases "nat_text (nat n)") (auto simp: int_text_def)

lemma option_word_name: "name \<in> set OPTION_NAMES \<Longrightarrow> option_word name = Option_Word name None"
  by (auto simp: option_word_def OPTION_NAMES_def)

lemma option_word_names [simp]: "list_all (\<lambda>name. option_word name = Option_Word name None) OPTION_NAMES"
  by (simp add: list_all_iff option_word_name)

lemmas option_words [simp] = option_word_names [unfolded OPTION_NAMES_def list.pred_inject]

lemma option_word_value [simp]: "take 1 v \<noteq> ''-'' \<Longrightarrow> option_word v = Value_Word"
  by (simp add: option_word_def)

lemma digits_argument:
  assumes "is_digits s"
  shows "strip s = s" "underscores_ok s" "filter (\<lambda>c. c \<noteq> CHR ''_'') s = s" "split_sign s = (False, s)"
proof -
  have plain: "is_digit c \<Longrightarrow> \<not> py_space c \<and> c \<noteq> CHR ''_''" for c
    by (auto simp: is_digit_def py_space_def Let_def)
  from assms have s: "s \<noteq> []" "\<forall>c \<in> set s. is_digit c" by (simp_all add: is_digits_def list_all_iff)
  then have ends: "is_digit (hd s)" "is_digit (last s)" by simp_all
  with s(1) plain show "strip s = s" by (intro strip_id) blast+
  have "(CHR ''_'', CHR ''_'') \<notin> set (zip s (tl s))"
    using s(2) plain by (auto dest: set_zip_leftD)
  with s(1) ends plain show "underscores_ok s" by (auto simp: underscores_ok_def)
  show "filter (\<lambda>c. c \<noteq> CHR ''_'') s = s" using s(2) plain by (intro filter_True) blast
  show "split_sign s = (False, s)"
    using s(1) ends(1) char_not_dash(3) by (cases s) (auto simp: split_sign_def)
qed

lemma int_argument_int_text:
  assumes "0 \<le> n" "n < 10 ^ 6"
  shows "int_argument (int_text n) = Some n" "take 1 (int_text n) \<noteq> ''-''"
proof -
  obtain c r where shape: "int_text n = c # r" "is_digit c" "list_all is_digit r"
    using int_text_first [OF assms(1)] .
  from assms have "nat n < 10 ^ 6" by simp
  from nat_text_length [OF this] have l: "length (int_text n) \<le> 6" using assms(1) by (simp add: int_text_def)
  have d: "is_digits (int_text n)" using shape by (simp add: is_digits_def)
  have "digits_value (int_text n) = nat n" using assms(1) by (simp add: int_text_def)
  with l d assms(1) show "int_argument (int_text n) = Some n"
    by (simp add: int_argument_def py_int_def digits_argument Let_def)
  show "take 1 (int_text n) \<noteq> ''-''" using char_not_dash(3) [OF shape(2)] by (simp add: shape(1))
qed

lemma parse_lanes:
  "set ls \<subseteq> set lane_names \<Longrightarrow> ls \<noteq> [] \<Longrightarrow>
     parse_args a (concat (map (\<lambda>l. [''--lane'', l]) ls) @ rest)
     = parse_args (a\<lparr>cli_lane := Some ((case cli_lane a of None \<Rightarrow> [] | Some xs \<Rightarrow> xs) @ ls)\<rparr>) rest"
proof (induction ls arbitrary: a)
  case (Cons l ls)
  then have "take 1 l \<noteq> ''-''" by (auto simp: lane_names_def LANES_def)
  with Cons show ?case
    by (cases "ls = []") (auto simp: set_flag_def set_option_def split: option.splits)
qed simp

lemma valid_plan:
  assumes "checks (plan_checks p) = Inr ()"
  shows "take 1 (rp_campaign p) \<noteq> ''-''" "take 1 (rp_source_commit p) \<noteq> ''-''" "take 1 (rp_image_digest p) \<noteq> ''-''"
    "set (rp_lanes p) \<subseteq> set lane_names" "rp_lanes p \<noteq> []" "hex_text 40 (rp_source_commit p)"
    "0 \<le> rp_chunk_seconds p" "rp_chunk_seconds p < 10 ^ 6" "0 \<le> rp_chunks p" "rp_chunks p < 10 ^ 6"
proof -
  from assms have v: "campaign_name (rp_campaign p)" "hex_text 40 (rp_source_commit p)" "image_digest (rp_image_digest p)"
    "rp_lanes p \<noteq> []" "list_all (\<lambda>l. l \<in> set lane_names) (rp_lanes p)"
    "\<not> rp_pilot p \<or> rp_chunk_seconds p = 600" "rp_pilot p \<or> 7200 \<le> rp_chunk_seconds p \<and> rp_chunk_seconds p \<le> 21600"
    "1 \<le> rp_chunks p" "rp_chunks p \<le> 36"
    by (auto simp: plan_checks_def)
  show "take 1 (rp_campaign p) \<noteq> ''-''"
    using v(1) char_not_dash(2) by (cases "rp_campaign p") (auto simp: campaign_name_def)
  show "take 1 (rp_source_commit p) \<noteq> ''-''"
    using v(2) char_not_dash(1) by (cases "rp_source_commit p") (auto simp: hex_text_def)
  show "take 1 (rp_image_digest p) \<noteq> ''-''"
    using v(3) by (cases "rp_image_digest p") (auto simp: image_digest_def)
  show "set (rp_lanes p) \<subseteq> set lane_names" "rp_lanes p \<noteq> []" "hex_text 40 (rp_source_commit p)"
    using v by (auto simp: list_all_iff)
  show "0 \<le> rp_chunk_seconds p" "rp_chunk_seconds p < 10 ^ 6" "0 \<le> rp_chunks p" "rp_chunks p < 10 ^ 6"
    using v by auto
qed

text \<open>A plan and an environment, for the witness.\<close>

definition sample_plan :: runtime_plan where
  "sample_plan = \<lparr>rp_campaign = ''c-1'', rp_lanes = [''binance'', ''kraken''], rp_chunk_seconds = 14400,
     rp_chunks = 6, rp_pilot = False, rp_source_commit = replicate 40 (CHR ''a''),
     rp_image_digest = ''sha256:'' @ replicate 64 (CHR ''0''), rp_prune_spool = True,
     rp_storage_profile = ''truenas-zfs''\<rparr>"

definition sample_environment :: environment where
  "sample_environment = [(''TRADING_MODE'', ''PAPER''), (''GPG_KEY'', ''x''),
     (''COLLECTOR_SOURCE_COMMIT'', replicate 40 (CHR ''a''))]"

text \<open>
  C30: The command of the supervisor starts the plan it stands for. For every valid plan of the native
  profile, the collector command of \<open>process_contract\<close>, read by the argument parser and the checks of
  \<open>collector_runtime.main\<close> in a public environment of the same source commit, begins to collect exactly that
  plan, on the roots of the container and the default control files: no field is lost, defaulted or changed
  on the way through the command line.
\<close>
theorem supervisor_command_starts_plan:
  assumes valid: "make_runtime_plan p = Inr plan" and native: "rp_storage_profile plan = ''truenas-zfs''"
    and env: "public_environment env = Inr pub"
    and source: "map_of env ''COLLECTOR_SOURCE_COMMIT'' = Some (rp_source_commit plan)"
  shows "\<exists>entry argv. process_contract plan ''collector'' = Inr (entry, argv)
    \<and> runtime_main env argv = Inr (Collect plan [container_root ''spool'', container_root ''capture'',
        container_root ''archive'', ''/control/network-ready.json'', ''/control/clock.json''])"
proof -
  from valid have plan: "checks (plan_checks plan) = Inr ()"
    by (auto simp: make_runtime_plan_def res_bind_Inr_iff)
  note v = valid_plan [OF plan]
  define a1 where "a1 = cli_defaults\<lparr>cli_storage_profile := ''truenas-zfs'',
      cli_expected_source := Some (rp_source_commit plan), cli_expected_image := Some (rp_image_digest plan),
      cli_campaign := Some (rp_campaign plan)\<rparr>"
  define a2 where "a2 = a1\<lparr>cli_lane := Some (rp_lanes plan), cli_chunk_seconds := Some (rp_chunk_seconds plan),
      cli_chunks := Some (rp_chunks plan)\<rparr>"
  define a3 where "a3 = a2\<lparr>cli_pilot := rp_pilot plan, cli_spool := container_root ''spool'',
      cli_capture := container_root ''capture'', cli_archive := container_root ''archive'',
      cli_prune_spool := rp_prune_spool plan\<rparr>"
  have head: "parse_args cli_defaults ([''--storage-profile'', ''truenas-zfs'', ''--expected-source'',
      rp_source_commit plan, ''--expected-image'', rp_image_digest plan, ''--campaign'', rp_campaign plan] @ rest)
      = parse_args a1 rest" for rest
    using v(1-3) by (simp add: set_flag_def set_option_def STORAGE_PROFILES_def a1_def)
  have counts: "parse_args (a1\<lparr>cli_lane := Some (rp_lanes plan)\<rparr>) ([''--chunk-seconds'', int_text (rp_chunk_seconds plan),
      ''--chunks'', int_text (rp_chunks plan)] @ rest) = parse_args a2 rest" for rest
    using int_argument_int_text [OF v(7,8)] int_argument_int_text [OF v(9,10)]
    by (simp add: set_flag_def set_option_def a2_def)
  have last: "parse_args a2 ((if rp_pilot plan then [''--pilot''] else []) @ root_arguments
      @ (if rp_prune_spool plan then [''--prune-spool''] else [])) = Some a3"
    by (simp add: set_flag_def set_option_def a3_def a2_def a1_def cli_defaults_def root_arguments_def
        container_root_def CONTAINER_ROOTS_def)
  obtain entry argv where argv: "process_contract plan ''collector'' = Inr (entry, argv)"
    and "parse_args cli_defaults argv = Some a3"
    using head counts last parse_lanes [OF v(4,5)] by (auto simp: process_contract_def a1_def cli_defaults_def)
  moreover have "plan_of_arguments a3 = Some plan"
    using native by (simp add: plan_of_arguments_def a3_def a2_def a1_def)
  moreover have "cli_expected_source a3 = Some (rp_source_commit plan)" "\<not> cli_health a3" "\<not> cli_check_image a3"
    "campaign_paths a3 = [container_root ''spool'', container_root ''capture'',
        container_root ''archive'', ''/control/network-ready.json'', ''/control/clock.json'']"
    by (simp_all add: a3_def a2_def a1_def cli_defaults_def campaign_paths_def)
  ultimately show ?thesis
    using env source v(6) plan by (auto simp: runtime_main_def make_runtime_plan_def)
qed

theorem supervisor_command_starts_plan_witness:
  "\<exists>plan entry argv. make_runtime_plan sample_plan = Inr plan \<and> process_contract plan ''collector'' = Inr (entry, argv)
    \<and> runtime_main sample_environment argv = Inr (Collect plan [container_root ''spool'', container_root ''capture'',
        container_root ''archive'', ''/control/network-ready.json'', ''/control/clock.json''])"
proof -
  have ok: "make_runtime_plan sample_plan = Inr sample_plan" by code_simp
  have "case public_environment sample_environment of Inl _ \<Rightarrow> False | Inr _ \<Rightarrow> True" by code_simp
  then obtain pub where "public_environment sample_environment = Inr pub" by (auto split: sum.splits)
  moreover have "rp_storage_profile sample_plan = ''truenas-zfs''"
    "map_of sample_environment ''COLLECTOR_SOURCE_COMMIT'' = Some (rp_source_commit sample_plan)" by code_simp+
  ultimately show ?thesis using supervisor_command_starts_plan [OF ok] ok by blast
qed

end
