(* ===== verification/Splits.thy ===== *)
theory Splits
  imports DecimalText "HOL-Library.Product_Lexorder"
begin

text \<open>
  The out-of-sample discipline of the research harness: the split section of a specification (\<^verbatim>\<open>spec.py\<close>),
  the walk-forward folds and the holdout (\<^verbatim>\<open>splits.py\<close>), and the blocks of folds that cross-validation
  recombines (\<open>cscv_blocks\<close> of \<^verbatim>\<open>overfit.py\<close>). The fold loop is a partial function: a split with no test bars
  never ends, and a parsed split always does. Proved: the folds in closed form, so that no fold sees the
  holdout or its own future, and that the blocks are equal, adjacent and leave out the fewest folds.
\<close>

section \<open>The split section\<close>

record split_spec =
  sp_method :: string
  sp_train_bars :: int
  sp_test_bars :: int
  sp_holdout_bars :: int

definition spec_error :: "string \<Rightarrow> exn" where "spec_error message = HarnessError ''spec'' message"

definition exact_keys :: "(string \<times> payload) list \<Rightarrow> string list \<Rightarrow> string \<Rightarrow> unit result" where
  "exact_keys data required label =
     guard (set (map fst data) = set required) (spec_error (label @ '' keys mismatch.''))"

definition require_spec_str :: "payload \<Rightarrow> string \<Rightarrow> nat \<Rightarrow> string result" where
  "require_spec_str v label max_len =
     (case v of
        PText s \<Rightarrow>
          (if strip s = [] \<or> s \<noteq> strip s then Inl (spec_error (label @ '' must be a non-empty string.''))
           else if max_len < length s \<or> list_ex (\<lambda>c. (of_char c :: int) < 32) s
           then Inl (spec_error (label @ '' must be a single line up to '' @ nat_text max_len @ '' characters.''))
           else Inr s)
      | _ \<Rightarrow> Inl (spec_error (label @ '' must be a non-empty string.'')))"

definition require_spec_int :: "payload \<Rightarrow> string \<Rightarrow> int result" where
  "require_spec_int v label =
     (case v of PInt n \<Rightarrow> Inr n | _ \<Rightarrow> Inl (spec_error (label @ '' must be an integer.'')))"

definition positive_int :: "payload \<Rightarrow> string \<Rightarrow> int \<Rightarrow> int \<Rightarrow> int result" where
  "positive_int v label maximum minimum =
     res_bind (require_spec_int v label) (\<lambda>number.
     if number < minimum \<or> maximum < number
     then Inl (spec_error (label @ '' must lie in ['' @ int_text minimum @ '', '' @ int_text maximum @ ''].''))
     else Inr number)"

definition section_value :: "(string \<times> payload) list \<Rightarrow> string \<Rightarrow> payload result" where
  "section_value raw k = (case field_of raw k of None \<Rightarrow> Inl (KeyError k) | Some v \<Rightarrow> Inr v)"

definition positive_field :: "(string \<times> payload) list \<Rightarrow> string \<Rightarrow> int result" where
  "positive_field raw k =
     res_bind (section_value raw k) (\<lambda>v. positive_int v (''split.'' @ k) 1000000 1)"

definition parse_split :: "(string \<times> payload) list \<Rightarrow> split_spec result" where
  "parse_split raw =
     res_bind (exact_keys raw [''method'', ''train_bars'', ''test_bars'', ''holdout_bars''] ''split'') (\<lambda>_.
     res_bind (section_value raw ''method'') (\<lambda>v.
     res_bind (require_spec_str v ''split.method'' 16) (\<lambda>method.
     if method \<notin> {''expanding'', ''rolling''}
     then Inl (spec_error ''split.method must be expanding or rolling.'')
     else
       res_bind (positive_field raw ''train_bars'') (\<lambda>train_bars.
       res_bind (positive_field raw ''test_bars'') (\<lambda>test_bars.
       res_bind (positive_field raw ''holdout_bars'') (\<lambda>holdout_bars.
       Inr \<lparr>sp_method = method, sp_train_bars = train_bars, sp_test_bars = test_bars,
         sp_holdout_bars = holdout_bars\<rparr>))))))"

section \<open>Walk-forward folds\<close>

record fold_range =
  fd_index :: int
  fd_train_start :: int
  fd_train_end :: int
  fd_test_start :: int
  fd_test_end :: int

definition next_fold :: "split_spec \<Rightarrow> int \<Rightarrow> int \<Rightarrow> fold_range result" where
  "next_fold split index test_start =
     res_bind
       (if sp_method split = ''expanding'' then Inr 0
        else if sp_method split = ''rolling'' then Inr (test_start - sp_train_bars split)
        else Inl (HarnessError ''spec'' ''split.method must be expanding or rolling.''))
     (\<lambda>train_start. Inr \<lparr>fd_index = index, fd_train_start = train_start, fd_train_end = test_start,
        fd_test_start = test_start, fd_test_end = test_start + sp_test_bars split\<rparr>)"

partial_function (option) fold_loop ::
  "split_spec \<Rightarrow> int \<Rightarrow> int \<Rightarrow> fold_range list \<Rightarrow> fold_range list result option" where
  "fold_loop split prefix test_start folds =
     (if prefix < test_start + sp_test_bars split then Some (Inr folds)
      else case next_fold split (int (length folds)) test_start of
          Inl e \<Rightarrow> Some (Inl e)
        | Inr f \<Rightarrow> fold_loop split prefix (test_start + sp_test_bars split) (folds @ [f]))"

declare fold_loop.simps [code]

definition walk_forward :: "int \<Rightarrow> split_spec \<Rightarrow> (fold_range list \<times> int \<times> int) result option" where
  "walk_forward n_rows split =
     (if n_rows \<le> 0 \<or> n_rows \<le> sp_holdout_bars split
      then Some (Inl (HarnessError ''split'' (''holdout_bars '' @ int_text (sp_holdout_bars split)
        @ '' leaves no validation prefix in a series of '' @ int_text n_rows @ '' rows.'')))
      else
        let prefix = n_rows - sp_holdout_bars split
        in map_option (\<lambda>r. res_bind r (\<lambda>folds. Inr (folds, prefix, n_rows)))
             (fold_loop split prefix (sp_train_bars split) []))"

text \<open>The folds without the loop.\<close>

definition fold_at :: "split_spec \<Rightarrow> nat \<Rightarrow> fold_range" where
  "fold_at split k =
     (let start = sp_train_bars split + int k * sp_test_bars split
      in \<lparr>fd_index = int k,
          fd_train_start = (if sp_method split = ''expanding'' then 0 else int k * sp_test_bars split),
          fd_train_end = start, fd_test_start = start, fd_test_end = start + sp_test_bars split\<rparr>)"

definition whole_folds :: "int \<Rightarrow> split_spec \<Rightarrow> nat" where
  "whole_folds prefix split = nat ((prefix - sp_train_bars split) div sp_test_bars split)"

section \<open>Blocks of folds\<close>

definition MIN_CSCV_BLOCKS :: nat where "MIN_CSCV_BLOCKS = 4"
definition MAX_CSCV_BLOCKS :: nat where "MAX_CSCV_BLOCKS = 16"

definition cscv_counts :: "nat \<Rightarrow> nat list" where
  "cscv_counts fold_count =
     filter (\<lambda>count. count \<le> fold_count)
       (map (\<lambda>i. MIN_CSCV_BLOCKS + 2 * i) [0..<(MAX_CSCV_BLOCKS + 1 - MIN_CSCV_BLOCKS + 1) div 2])"

definition cscv_blocks :: "nat \<Rightarrow> nat list list option" where
  "cscv_blocks fold_count =
     (let counts = cscv_counts fold_count
      in if counts = [] then None
         else let blocks = arg_min_list (\<lambda>count. (fold_count mod count, - int count)) counts;
                  size = fold_count div blocks;
                  first = fold_count - blocks * size
              in Some (map (\<lambda>index. [first + index * size..<first + (index + 1) * size]) [0..<blocks]))"

section \<open>The folds in closed form\<close>

lemma int_div_less: "0 < d \<Longrightarrow> a div d < k \<longleftrightarrow> a < k * d" for a d k :: int
proof
  assume d: "0 < d" and "a div d < k"
  then have "(a div d + 1) * d \<le> k * d" by (intro mult_right_mono) simp_all
  moreover have "a = a div d * d + a mod d" by simp
  moreover have "a mod d < d" using d by simp
  ultimately show "a < k * d" by (simp only: distrib_right mult_1)
next
  assume d: "0 < d" and a: "a < k * d"
  have "\<not> k \<le> a div d"
  proof
    assume "k \<le> a div d"
    then have "k * d \<le> a div d * d" using d by (intro mult_right_mono) simp_all
    also have "\<dots> \<le> a" using d pos_mod_sign [of d a] div_mult_mod_eq [of a d] by linarith
    finally show False using a by simp
  qed
  then show "a div d < k" by simp
qed

lemma positive_field_Inr: "positive_field raw k = Inr n \<Longrightarrow> 1 \<le> n"
  by (auto simp: positive_field_def positive_int_def res_bind_Inr_iff split: if_splits)

lemma parse_split_Inr:
  assumes "parse_split raw = Inr split"
  shows "sp_method split = ''expanding'' \<or> sp_method split = ''rolling''" "1 \<le> sp_train_bars split"
    "1 \<le> sp_test_bars split" "1 \<le> sp_holdout_bars split"
  using assms by (auto simp: parse_split_def res_bind_Inr_iff dest: positive_field_Inr split: if_splits)

lemma next_fold_at:
  "sp_method split = ''expanding'' \<or> sp_method split = ''rolling'' \<Longrightarrow>
     next_fold split (int k) (sp_train_bars split + int k * sp_test_bars split) = Inr (fold_at split k)"
  by (auto simp: next_fold_def fold_at_def Let_def)

lemma fold_loop_closed:
  assumes "sp_method split = ''expanding'' \<or> sp_method split = ''rolling''" "1 \<le> sp_test_bars split"
  shows "fold_loop split prefix (sp_train_bars split + int k * sp_test_bars split) (map (fold_at split) [0..<k])
    = Some (Inr (map (fold_at split) [0..<max k (whole_folds prefix split)]))"
proof (induction "whole_folds prefix split - k" arbitrary: k)
  have div: "prefix < sp_train_bars split + int k * sp_test_bars split + sp_test_bars split
      \<longleftrightarrow> whole_folds prefix split \<le> k" for k
  proof -
    have "prefix < sp_train_bars split + int k * sp_test_bars split + sp_test_bars split
        \<longleftrightarrow> prefix - sp_train_bars split < (int k + 1) * sp_test_bars split" by (simp add: algebra_simps)
    also have "\<dots> \<longleftrightarrow> (prefix - sp_train_bars split) div sp_test_bars split < int k + 1"
      by (rule int_div_less [symmetric]) (use assms(2) in simp)
    finally show ?thesis by (auto simp: whole_folds_def)
  qed
  {
    case 0
    then show ?case by (subst fold_loop.simps) (simp add: div max_def)
  next
    case (Suc m)
    then have "\<not> whole_folds prefix split \<le> k" by simp
    then have "\<not> prefix < sp_train_bars split + int k * sp_test_bars split + sp_test_bars split"
      and "max k (whole_folds prefix split) = whole_folds prefix split"
      "max (Suc k) (whole_folds prefix split) = whole_folds prefix split" by (simp_all only: div) simp_all
    moreover have "sp_train_bars split + int (Suc k) * sp_test_bars split
        = sp_train_bars split + int k * sp_test_bars split + sp_test_bars split" by (simp add: distrib_right)
    moreover from Suc have "m = whole_folds prefix split - Suc k" by simp
    moreover have "map (fold_at split) [0..<k] @ [fold_at split k] = map (fold_at split) [0..<Suc k]" by simp
    ultimately show ?case
      using Suc(1) [of "Suc k"] next_fold_at [OF assms(1), of k]
      by (subst fold_loop.simps) (simp add: add.assoc)
  }
qed

text \<open>A split section, for the witness.\<close>

definition sample_split :: "(string \<times> payload) list" where
  "sample_split = [(''method'', PText ''rolling''), (''train_bars'', PInt 10), (''test_bars'', PInt 3),
     (''holdout_bars'', PInt 5)]"

text \<open>
  C32: Walk-forward ends and no fold looks ahead. For every parsed split and every number of rows the loop
  ends; it fails exactly when the holdout leaves nothing, and otherwise its folds are as many whole test
  windows as fit between the first training window and the holdout, each starting where the last one ended,
  trained only on rows before its test and tested only on rows before the holdout.
\<close>
theorem walk_forward_closed_form:
  assumes "parse_split raw = Inr split"
  shows "(case walk_forward n split of
      None \<Rightarrow> False
    | Some (Inl e) \<Rightarrow> n \<le> 0 \<or> n \<le> sp_holdout_bars split
    | Some (Inr (folds, holdout)) \<Rightarrow>
        sp_holdout_bars split < n \<and> holdout = (n - sp_holdout_bars split, n)
        \<and> folds = map (fold_at split) [0..<whole_folds (n - sp_holdout_bars split) split]
        \<and> (\<forall>f \<in> set folds. 0 \<le> fd_train_start f \<and> fd_train_start f < fd_train_end f
            \<and> fd_train_end f = fd_test_start f \<and> fd_test_start f < fd_test_end f \<and> fd_test_end f \<le> fst holdout))"
proof (cases "n \<le> 0 \<or> n \<le> sp_holdout_bars split")
  case False
  define prefix where "prefix = n - sp_holdout_bars split"
  note s = parse_split_Inr [OF assms]
  have run: "walk_forward n split
      = Some (Inr (map (fold_at split) [0..<whole_folds prefix split], prefix, n))"
    using False fold_loop_closed [OF s(1,3), of prefix 0] by (simp add: walk_forward_def prefix_def Let_def)
  have each: "0 \<le> fd_train_start f \<and> fd_train_start f < fd_train_end f \<and> fd_train_end f = fd_test_start f
      \<and> fd_test_start f < fd_test_end f \<and> fd_test_end f \<le> prefix" if "f = fold_at split k" "k < whole_folds prefix split" for f k
  proof -
    define w where "w = int k * sp_test_bars split"
    have "int k + 1 \<le> (prefix - sp_train_bars split) div sp_test_bars split"
      using that(2) by (simp add: whole_folds_def)
    then have "(int k + 1) * sp_test_bars split \<le> prefix - sp_train_bars split"
      using int_div_less [of "sp_test_bars split" "prefix - sp_train_bars split" "int k + 1"] s(3) by linarith
    then have "w + sp_test_bars split \<le> prefix - sp_train_bars split" by (simp add: w_def distrib_right)
    moreover have "0 \<le> w" using s(3) by (simp add: w_def)
    ultimately show ?thesis using that(1) s(2,3) by (simp add: fold_at_def Let_def w_def [symmetric])
  qed
  have "\<forall>f \<in> set (map (fold_at split) [0..<whole_folds prefix split]). 0 \<le> fd_train_start f
      \<and> fd_train_start f < fd_train_end f \<and> fd_train_end f = fd_test_start f
      \<and> fd_test_start f < fd_test_end f \<and> fd_test_end f \<le> prefix"
  proof
    fix f assume "f \<in> set (map (fold_at split) [0..<whole_folds prefix split])"
    then obtain k where "f = fold_at split k" "k < whole_folds prefix split" by auto
    then show "0 \<le> fd_train_start f \<and> fd_train_start f < fd_train_end f \<and> fd_train_end f = fd_test_start f
      \<and> fd_test_start f < fd_test_end f \<and> fd_test_end f \<le> prefix" by (rule each)
  qed
  then show ?thesis
    unfolding run option.case sum.case prod.case fst_conv using False
    by (intro conjI) (simp_all only: prefix_def not_le de_Morgan_disj)
qed (simp add: walk_forward_def)

theorem walk_forward_closed_form_witness:
  "\<exists>split. parse_split sample_split = Inr split \<and> walk_forward 25 split
     = Some (Inr ([fold_at split 0, fold_at split 1, fold_at split 2], 20, 25))"
proof -
  have ok: "parse_split sample_split = Inr \<lparr>sp_method = ''rolling'', sp_train_bars = 10, sp_test_bars = 3,
      sp_holdout_bars = 5\<rparr>" by code_simp
  from walk_forward_closed_form [OF ok, of 25] have "walk_forward 25 \<lparr>sp_method = ''rolling'', sp_train_bars = 10,
      sp_test_bars = 3, sp_holdout_bars = 5\<rparr>
     = Some (Inr (map (fold_at \<lparr>sp_method = ''rolling'', sp_train_bars = 10, sp_test_bars = 3,
         sp_holdout_bars = 5\<rparr>) [0..<3], 20, 25))"
    by (auto simp: whole_folds_def split: option.splits sum.splits)
  with ok show ?thesis by (auto simp: upt_rec numeral_2_eq_2)
qed

section \<open>The blocks are equal and leave out the fewest folds\<close>

lemma cscv_counts_set: "k \<in> set (cscv_counts n) \<longleftrightarrow> even k \<and> 4 \<le> k \<and> k \<le> 16 \<and> k \<le> n"
proof -
  have "k \<in> (\<lambda>i. 4 + 2 * i) ` set [0..<7] \<longleftrightarrow> even k \<and> 4 \<le> k \<and> k \<le> 16" for k :: nat
  proof
    assume "even k \<and> 4 \<le> k \<and> k \<le> 16"
    then have "k = 4 + 2 * ((k - 4) div 2)" "(k - 4) div 2 < 7" by auto
    then show "k \<in> (\<lambda>i. 4 + 2 * i) ` set [0..<7]" by (metis atLeast0LessThan image_eqI lessThan_iff set_upt)
  qed auto
  then show ?thesis by (auto simp: cscv_counts_def MIN_CSCV_BLOCKS_def MAX_CSCV_BLOCKS_def)
qed

lemma concat_blocks: "concat (map (\<lambda>i. [a + i * s..<a + (i + 1) * s]) [0..<k]) = [a..<a + k * s]"
proof (induction k)
  case (Suc k)
  have "[a..<a + k * s] @ [a + k * s..<a + k * s + s] = [a..<a + k * s + s]"
    by (rule upt_add_eq_append [symmetric]) simp
  then show ?case using Suc by (simp add: algebra_simps)
qed simp

text \<open>
  C35: Cross-validation blocks are fair. With fewer than four folds there are none; otherwise they are an even
  number of blocks between 4 and 16, all of the same positive length, which laid end to end are exactly the
  most recent folds. No other admissible number of blocks leaves out fewer folds, and none that leaves out
  as few is larger.
\<close>
theorem cscv_blocks_fair:
  "(case cscv_blocks n of
      None \<Rightarrow> n < 4
    | Some bs \<Rightarrow>
        let k = length bs; size = n div k in
        4 \<le> n \<and> even k \<and> 4 \<le> k \<and> k \<le> 16 \<and> 0 < size \<and> (\<forall>b \<in> set bs. length b = size)
        \<and> concat bs = [n mod k..<n]
        \<and> (\<forall>j \<in> {4, 6, 8, 10, 12, 14, 16}. j \<le> n \<longrightarrow> n mod k < n mod j \<or> n mod k = n mod j \<and> j \<le> k))"
proof (cases "cscv_counts n = []")
  case True
  moreover have "4 \<le> n \<Longrightarrow> 4 \<in> set (cscv_counts n)" by (simp add: cscv_counts_set)
  ultimately have "n < 4" by (cases "4 \<le> n") auto
  with True show ?thesis by (simp add: cscv_blocks_def)
next
  case False
  define key where "key = (\<lambda>count. (n mod count, - int count))"
  define k where "k = arg_min_list key (cscv_counts n)"
  have "k \<in> set (cscv_counts n)" unfolding k_def using False by (rule arg_min_list_in)
  then have k: "even k" "4 \<le> k" "k \<le> 16" "k \<le> n" by (simp_all add: cscv_counts_set)
  have least: "key k \<le> key j" if "j \<in> set (cscv_counts n)" for j
    unfolding k_def f_arg_min_list_f [OF False] using that by (intro Min_le) auto
  have bs: "cscv_blocks n = Some (map (\<lambda>i. [n - k * (n div k) + i * (n div k)
      ..<n - k * (n div k) + (i + 1) * (n div k)]) [0..<k])"
    using False unfolding cscv_blocks_def Let_def k_def key_def by simp
  have rest: "n - k * (n div k) = n mod k" by (simp add: minus_mult_div_eq_mod)
  have "concat (map (\<lambda>i. [n mod k + i * (n div k)..<n mod k + (i + 1) * (n div k)]) [0..<k]) = [n mod k..<n]"
    by (simp only: concat_blocks) (simp add: mod_mult_div_eq add.commute)
  moreover have "n mod k < n mod j \<or> n mod k = n mod j \<and> j \<le> k" if "j \<in> {4, 6, 8, 10, 12, 14, 16}" "j \<le> n" for j
    using least [of j] that by (auto simp: cscv_counts_set key_def less_eq_prod_def)
  moreover have "0 < n div k" using k by (simp add: div_greater_zero_iff)
  ultimately show ?thesis using k unfolding bs rest option.case Let_def length_map length_upt by simp
qed

theorem cscv_blocks_fair_witness:
  "\<exists>bs. cscv_blocks 11 = Some bs \<and> length bs = 10 \<and> concat bs = [1..<11] \<and> (11 :: nat) mod 10 < 11 mod 8"
proof -
  have "case cscv_blocks 11 of None \<Rightarrow> False | Some bs \<Rightarrow> length bs = 10" by code_simp
  then obtain bs where bs: "cscv_blocks 11 = Some bs" "length bs = 10" by (auto split: option.splits)
  from cscv_blocks_fair [of 11, unfolded bs option.case Let_def]
  have "concat bs = [11 mod 10..<11]"
    and least: "\<forall>j \<in> {4, 6, 8, 10, 12, 14, 16}. j \<le> 11 \<longrightarrow> 11 mod 10 < 11 mod j \<or> 11 mod 10 = 11 mod j \<and> j \<le> (10 :: nat)"
    by blast+
  moreover from bspec [OF least, of 8] have "(11 :: nat) mod 10 < 11 mod 8" by simp
  ultimately show ?thesis using bs by simp
qed

end
