(* ===== verification/Spec2Isabelle.thy ===== *)
theory Spec2Isabelle
  imports EngineProperties LedgerReplay RiskDecision OfflineRun Trades Capacity CollectorPlan Splits
begin

text \<open>
  A model of the PAPER trading engine of this repository
  (\<^verbatim>\<open>src/src/hyperliquid_bot/paper_engine/\<close>), of its hard risk limits
  (\<^verbatim>\<open>src/src/hyperliquid_bot/paper_risk.py\<close>), and of the rules around it: the normal form of public
  trades, the admission and start of a public capture, and the out-of-sample splits of the research harness.

  \<^bold>\<open>The program.\<close> A run (\<open>PaperEngine\<close>, \<^verbatim>\<open>engine.py\<close>) consumes one normalized market event or clock
  tick at a time. Per event it advances its clock, updates the market state, fills a waiting order
  against the book, checks the stop, checks the loss limits, applies the kill switch, asks the
  strategy for a target, submits the order that reaches it through the risk gate, and writes its
  ledger, state and health files. An exception inside an event stops the run for good.

  \<^bold>\<open>Theories, in import order.\<close>
  \<^item> \<open>Prelude\<close>: exceptions, results (\<open>exn + 'a\<close>), outcomes (a result that keeps the state an exception
    leaves), rules about their composition, bounded lists, text helpers.
  \<^item> \<open>Decimals\<close>: Python's \<open>Decimal\<close> in the default context. A finite decimal is an exact rational;
    every arithmetic operation rounds to 28 significant digits, half even. The locale \<open>rounding\<close>
    states what the proofs use of a rounding and is interpreted on the context's. Exponent limits
    and signals of the context are not modelled.
  \<^item> \<open>Precision\<close> (\<^verbatim>\<open>precision.py\<close>): lot and price grids. The locale \<open>price_rounding\<close> states what a
    rounding to the grid promises and is interpreted on the code's.
  \<^item> \<open>Execution\<close> (\<^verbatim>\<open>execution.py\<close>): quotes and the position arithmetic.
  \<^item> \<open>PaperRisk\<close> (\<^verbatim>\<open>paper_risk.py\<close>, \<^verbatim>\<open>local_mode.py\<close>): sizing and the hard limits.
  \<^item> \<open>TimeDisplay\<close> (\<^verbatim>\<open>time_display.py\<close>): instants as integer microseconds, civil dates, ISO weeks.
    The offset of the Amsterdam zone is a parameter.
  \<^item> \<open>Events\<close> (\<^verbatim>\<open>events.py\<close>): the four events, the tape order, the book, trade bars.
  \<^item> \<open>DecimalText\<close>: \<open>decimal_text\<close>, the decimal constructor and JSON text.
  \<^item> \<open>Strategy\<close> (\<^verbatim>\<open>strategy.py\<close>): the strategy protocol as a record of functions, and the reference
    strategy.
  \<^item> \<open>Ledger\<close> (\<^verbatim>\<open>ledger.py\<close>): the run store. Whether a file operation succeeds is a parameter. The
    locale \<open>audit_log\<close> states what an append-only log promises and is interpreted on the store.
  \<^item> \<open>EngineState\<close>, \<open>EngineView\<close>, \<open>EnginePayload\<close>, \<open>Engine\<close> (\<^verbatim>\<open>engine.py\<close>): the configuration and the
    object's attributes, its readers, its JSON payloads, and one definition per handler.
  \<^item> \<open>EngineSteps\<close>: the abstract machine a handler is made of (\<open>micro\<close>: a quiet change, a strategy
    call, a cancel, an accept, a completed order), the well-formedness of a state (\<open>sound\<close>), the guard of
    the kill switch (\<open>guarded\<close>) and the lemmas that relate each elementary operation to a step.
  \<^item> \<open>EngineRefines\<close>: every handler, from the bottom of \<open>engine.py\<close> up to \<open>_advance\<close> and \<open>on_clock\<close>, is a
    sequence of such steps that ends in a sound and guarded state.
  \<^item> \<open>EngineRuns\<close>: inputs, reachable states, and the locale \<open>engine_invariant\<close>: what holds when a run
    opens and is kept by each step holds in every reachable state.
  \<^item> \<open>EngineInvariants\<close>: its interpretations on the order book, the counters, the kill switch, the peak
    and the stop.
  \<^item> \<open>Replay\<close> (\<^verbatim>\<open>replay.py\<close>): the Parquet tape. The file system and DuckDB are parameters: the first
    answers the questions the code asks of a path, the second gives the rows of the three queries.
  \<^item> \<open>EngineDemo\<close>: one small run, evaluated by the kernel for the witnesses.
  \<^item> \<open>EngineTape\<close>: \<open>run_parquet\<close>, a tape fed to the engine.
  \<^item> \<open>EngineProperties\<close>: what holds of every run, with two more interpretations, on the fills.
  \<^item> \<open>RiskDecision\<close> (\<^verbatim>\<open>paper_risk.py\<close>): the extension of a D01 decision and the dictionaries.
  \<^item> \<open>OfflineInputs\<close>, \<open>Preflight\<close> (\<^verbatim>\<open>offline_inputs.py\<close>): the bounded, hashed snapshot of the input parts
    and the checks of their rows. Descriptors, reads, the digest, JSON parsing and DuckDB are parameters.
  \<^item> \<open>OfflineReplay\<close> (\<^verbatim>\<open>offline_replay.py\<close>): the guards of a request, the provenance of the source, the
    checks of the artifacts, and their publication on an output store whose operations may fail.
  \<^item> \<open>OfflineRun\<close> (\<^verbatim>\<open>offline_replay.py\<close>): \<open>run_replay\<close>, composed of all of these and the engine.
  \<^item> \<open>LedgerReplay\<close>: a reader of the ledger file, as a specification, and one more interpretation of
    \<open>engine_invariant\<close>: every fill is written in decimals.
  \<^item> \<open>Contracts\<close> (\<^verbatim>\<open>contracts.py\<close>), \<open>Trades\<close> (\<^verbatim>\<open>hyperliquid_trades.py\<close>): instruments and their canonical
    identifier, market event envelopes, and the normalisation of a JSON-decoded frame of trades.
  \<^item> \<open>Capacity\<close> (\<^verbatim>\<open>collector_capacity.py\<close>): the memory a capture is admitted on, and the streak counters
    that stop it, with the capacity step of \<open>Supervisor.tick\<close> in \<^verbatim>\<open>collector_continuous.py\<close>.
  \<^item> \<open>CollectorPlan\<close> (\<^verbatim>\<open>collector_runtime.py\<close>, \<^verbatim>\<open>collector_continuous.py\<close>, \<^verbatim>\<open>startup.py\<close>): the plan of a
    capture, the environment guard, the command line on both sides, and the retry rules.
  \<^item> \<open>Splits\<close> (\<^verbatim>\<open>research/harness/\<close>: \<^verbatim>\<open>splits.py\<close>, \<open>_parse_split\<close> of \<^verbatim>\<open>spec.py\<close>, \<open>cscv_blocks\<close> of
    \<^verbatim>\<open>overfit.py\<close>): walk-forward folds, holdout and cross-validation blocks.

  \<^bold>\<open>What the properties show.\<close> Of the arithmetic: prices and sizes are rounded to the nearest value that
  does not improve a fill, and fills conserve the account. Of the risk limits: what an approval means.
  Of a run, for any strategy, any inputs and any failures of the disk: the position stays within its
  limit, it is the replay of the fills of the ledger, also as a reader of the file gets them back, each fill honours an accepted order, the orders
  are answered one by one, an open position has its stop, stale data halts, a halted run only winds
  down, and an exception closes the run for good. Of the tape: it is sorted, complete and free of
  duplicate prints. Of the offline command: snapshots are what they claim, and health is visible only on
  a complete publication. Of the rules around the engine: a frame of trades is normalised whole, identifiers
  are identities, the streak counters of the supervision are a rule on neighbouring samples, the command the
  supervisor writes starts the plan it means, and no fold sees its own future or the holdout.

  \<^bold>\<open>Termination.\<close> No definition uses fuel. The loops over events, rows and parts are recursions over
  lists. The two loops that are not, the expansion of a decimal and the bounded copy of a file, are total
  by a measure: the denominator, which loses its common factor with ten, and the bytes left to the bound.
  The fold loop of \<open>Splits\<close> is a partial function, since a split without test bars never ends; every parsed
  split ends.

  \<^bold>\<open>Not modelled.\<close> Of the offline command: the exponent check of event decimals (a rational has no
  exponent), the text of the replay plan and claim, and the bytes read back from the staging directory,
  which are parameters (the last is not tied to the files the engine wrote), the failures of seeking,
  stating and closing a descriptor, and the command line; of
  \<^verbatim>\<open>migration_verify.py\<close> all but the record of a mount. Of the collector: the reading of kernel
  files, the campaign itself (processes, files, publication) and the rest of the supervisor; of \<open>argparse\<close>
  the separator \<open>--\<close> and the difference between its exits; messages that print a value are shortened where the value is a list. Elsewhere in
  the repository: network capture, storage and monitoring of market data, the research studies and the user interface, which are
  asynchronous I/O, third-party data frames or floating-point statistics. Type checks on arguments are
  the types of the model.
\<close>

end
